theory Spec2Isabelle
  imports Main "HOL-Library.Word"
begin

unbundle bit_operations_syntax

section \<open>The gk104 FIFO scheduler: data model\<close>

text \<open>
  A shallow embedding of \<^verbatim>\<open>drivers/gpu/drm/nouveau/nvkm/engine/fifo/gk104.c\<close>.
  Every C function that a property below depends on becomes a HOL function of the same
  name over an explicit driver state. Register writes, event notifications and log
  lines are appended to a trace; values read back from the hardware (registers, the
  consumer pointer in channel memory, the outcome of bounded waits) are inputs of type
  \<open>hw\<close>.
\<close>

type_synonym u8 = "8 word"
type_synonym u32 = "32 word"
type_synonym u64 = "64 word"

text \<open>The anonymous enum of \<^verbatim>\<open>struct gk104_fifo_chan\<close>.\<close>

datatype chan_state = STOPPED | RUNNING | KILLED

text \<open>
  \<^verbatim>\<open>struct delayed_work\<close>: \<open>None\<close> when the work is not pending, \<open>Some ms\<close> when it
  is queued to run after \<open>ms\<close> milliseconds.
\<close>

type_synonym delayed_work = "nat option"

text \<open>
  \<^verbatim>\<open>struct gk104_fifo_chan\<close> with the nested \<^verbatim>\<open>timeout\<close> struct flattened;
  \<open>chid\<close> is \<^verbatim>\<open>base.chid\<close>.
\<close>

record gk104_fifo_chan =
  chid :: nat
  engine :: u32
  state :: chan_state
  sum_ms :: u32
  limit_ms :: u32
  gpfifo_get :: u32
  watchdog_inited :: bool
  watchdog_work :: delayed_work
  watchdog_gpfifo_get :: u32

definition GRFIFO_TIMEOUT_CHECK_PERIOD_MS :: nat where
  "GRFIFO_TIMEOUT_CHECK_PERIOD_MS = 100"

definition GRFIFO_TIMEOUT_DEFAULT :: nat where
  "GRFIFO_TIMEOUT_DEFAULT = 5000"

definition GRFIFO_CHAN_WATCHDOG_TIMEOUT_MS :: nat where
  "GRFIFO_CHAN_WATCHDOG_TIMEOUT_MS = 10000"

text \<open>
  Negative return codes. \<open>Errno n\<close> stands for any other code a callee hands back.
\<close>

datatype errno = EINVAL | ENODEV | ETIMEDOUT | Errno int

text \<open>
  Behaviour the C standard leaves undefined and the driver can run into: a dereference
  of a NULL engine or channel pointer, a shift by a negative or too large count, an
  array index out of range.
\<close>

datatype fault = NullDeref | UndefinedShift | BadIndex

text \<open>
  What a driver entry point leaves behind: \<open>Done s\<close> is a return of 0 (or from a void
  function) in state \<open>s\<close>, \<open>Failed e s\<close> a return of \<open>-e\<close> in state \<open>s\<close>, and
  \<open>Crash f\<close> undefined behaviour.
\<close>

datatype 's outcome = Done 's | Failed errno 's | Crash fault

text \<open>
  Reasons passed to \<^verbatim>\<open>nvkm_fifo_eevent\<close>
  (\<^verbatim>\<open>NOUVEAU_GEM_CHANNEL_FIFO_ERROR_IDLE_TIMEOUT\<close> and its siblings).
\<close>

datatype eevent_reason = FIFO_ERROR_IDLE_TIMEOUT | FIFO_ERROR_MMU_ERR_FLT | PBDMA_ERROR

text \<open>
  The observable actions of the driver, in program order. \<open>NvError fmt args\<close> is an
  \<^verbatim>\<open>nv_error\<close> line with its format string and integer arguments (an engine is
  printed by its index). Lines printed with \<^verbatim>\<open>nv_debug\<close> and \<^verbatim>\<open>nv_ioctl\<close> are
  not recorded. Calls into code outside this file are recorded by name.
\<close>

datatype event =
    NvError string "nat list"
  | Wr32 u32 u32
  | Mask32 u32 u32 u32
  | Wo32Base nat nat u32
  | CtorProgram nat u64 u32
  | BarFlush
  | ChanEnable nat
  | ChanDisable nat
  | ChanKick nat
  | Eevent nat eevent_reason
  | UeventFault nat
  | UpdateRecoveryDelay
  | PmuAcquireMutex
  | PmuReleaseMutex
  | DisableClkGating
  | EnableClkGating
  | HaltFecs
  | EngineFini nat
  | EngineInit nat
  | ChannelInit nat
  | ChannelFini nat bool
  | PmRuntimeGet
  | PmRuntimePut

text \<open>
  Values the driver reads from outside: registers (\<^verbatim>\<open>nv_rd32\<close>), the consumer
  pointer at offset 0x20 of a channel's parent object (\<^verbatim>\<open>nv_ro32\<close>), whether a
  bounded register wait (\<^verbatim>\<open>nv_wait\<close>) or the run-list completion wait succeeded,
  and the return codes of callees that live in other files (\<open>None\<close> is 0).
\<close>

record hw =
  rd32 :: "u32 \<Rightarrow> u32"
  ro32_get :: "nat \<Rightarrow> u32"
  nv_wait :: "u32 \<Rightarrow> bool"
  runlist_wait :: "nat \<Rightarrow> bool"
  acquire_mutex :: "errno option"
  chan_kick :: "nat \<Rightarrow> errno option"
  channel_init :: "nat \<Rightarrow> errno option"
  channel_fini :: "nat \<Rightarrow> errno option"
  inst_addr :: "nat \<Rightarrow> u64"
  pm_usable :: bool

text \<open>
  The device and the implementation class (\<^verbatim>\<open>struct gk104_fifo_impl\<close>), whose
  declarations are in headers outside this file: \<open>fifo_engines\<close> lists
  \<^verbatim>\<open>impl->engine[i].subdev\<close> (its length is \<^verbatim>\<open>num_engine\<close>), \<open>has_engine idx\<close> says
  whether \<^verbatim>\<open>nvkm_engine(obj, idx)\<close> is non-NULL, the \<open>NVDEV_ENGINE\<close> fields are the
  values of the device-index enum, and the three flags say which optional hooks of the
  PMU and GR subdevices are set.
\<close>

record device =
  fifo_engines :: "nat list"
  has_engine :: "nat \<Rightarrow> bool"
  NVDEV_ENGINE_GR :: nat
  NVDEV_ENGINE_CE2 :: nat
  NVDEV_ENGINE_MSVLD :: nat
  NVDEV_ENGINE_MSPPP :: nat
  NVDEV_ENGINE_MSPDEC :: nat
  NVDEV_ENGINE_CE0 :: nat
  NVDEV_ENGINE_CE1 :: nat
  NVDEV_ENGINE_MSENC :: nat
  has_disable_clk_gating :: bool
  has_enable_clk_gating :: bool
  has_halt_fecs :: bool

text \<open>\<^verbatim>\<open>struct nvkm_gpuobj\<close>: its address and its 32-bit words by byte offset.\<close>

record nvkm_gpuobj =
  addr :: u64
  mem :: "nat \<Rightarrow> u32"

text \<open>
  \<^verbatim>\<open>struct gk104_fifo_engn\<close>: the two run-list buffers \<^verbatim>\<open>runlist[2]\<close> and the
  index \<^verbatim>\<open>cur_runlist\<close> of the one the next rebuild writes.
\<close>

record gk104_fifo_engn =
  runlist :: "nat \<Rightarrow> nvkm_gpuobj"
  cur_runlist :: nat

text \<open>
  \<^verbatim>\<open>struct gk104_fifo_priv\<close>. \<open>min_chid\<close>, \<open>max_chid\<close> and \<open>channel\<close> are
  \<^verbatim>\<open>base.min\<close>, \<^verbatim>\<open>base.max\<close> and \<^verbatim>\<open>base.channel[]\<close> (an empty slot is NULL),
  \<open>engines\<close> is \<^verbatim>\<open>priv->engine[]\<close>, \<open>priv_mask\<close>, \<open>fault_chan\<close> and \<open>fault_unit\<close>
  are the pending fault record, \<open>mmu_fault\<close> is the pending bit of the recovery work
  item, and \<open>trace\<close> collects the observable actions.
\<close>

record gk104_fifo_priv =
  min_chid :: nat
  max_chid :: nat
  channel :: "nat \<Rightarrow> gk104_fifo_chan option"
  engines :: "nat \<Rightarrow> gk104_fifo_engn"
  priv_mask :: u64
  fault_chan :: "nat option"
  fault_unit :: u32
  mmu_fault :: bool
  trace :: "event list"

definition emit :: "event list \<Rightarrow> gk104_fifo_priv \<Rightarrow> gk104_fifo_priv" where
  "emit es priv = priv\<lparr>trace := trace priv @ es\<rparr>"

text \<open>A store through a channel pointer: the object in slot \<open>i\<close> becomes \<open>ch\<close>.\<close>

definition put_chan :: "nat \<Rightarrow> gk104_fifo_chan \<Rightarrow> gk104_fifo_priv \<Rightarrow> gk104_fifo_priv" where
  "put_chan i ch priv = priv\<lparr>channel := (channel priv)(i \<mapsto> ch)\<rparr>"

section \<open>Work items\<close>

text \<open>
  Modelled from the spec: the kernel's work-queue calls, which this file only uses.
  Queueing a work item that is already pending does nothing ("re-arming while already
  armed is a no-op", "idempotent enqueue"); cancelling reports whether the item was
  pending and leaves it not pending.
\<close>

definition schedule_delayed_work :: "delayed_work \<Rightarrow> nat \<Rightarrow> delayed_work" where
  "schedule_delayed_work w ms = (case w of None \<Rightarrow> Some ms | Some t \<Rightarrow> Some t)"

definition cancel_delayed_work :: "delayed_work \<Rightarrow> bool \<times> delayed_work" where
  "cancel_delayed_work w = (w \<noteq> None, None)"

definition queue_work :: "bool \<Rightarrow> bool" where
  "queue_work pending = True"

section \<open>Run-list rebuild\<close>

text \<open>The C operator \<^verbatim>\<open>!\<close> on an int.\<close>

definition lnot :: "nat \<Rightarrow> nat" where
  "lnot x = (if x = 0 then 1 else 0)"

definition nv_wo32 :: "(nat \<Rightarrow> u32) \<Rightarrow> nat \<Rightarrow> u32 \<Rightarrow> (nat \<Rightarrow> u32)" where
  "nv_wo32 m off v = m(off := v)"

text \<open>
  The test in the loop of \<^verbatim>\<open>gk104_fifo_runlist_update\<close>:
  \<^verbatim>\<open>chan && chan->state == RUNNING && chan->engine == engine\<close> for slot \<open>i\<close>.
\<close>

definition on_runlist :: "(nat \<Rightarrow> gk104_fifo_chan option) \<Rightarrow> u32 \<Rightarrow> nat \<Rightarrow> bool" where
  "on_runlist chans e i =
     (case chans i of None \<Rightarrow> False | Some chan \<Rightarrow> state chan = RUNNING \<and> engine chan = e)"

text \<open>
  The loop of \<^verbatim>\<open>gk104_fifo_runlist_update\<close> over the channel ids still to visit,
  carrying the buffer contents and the write offset \<^verbatim>\<open>p\<close>.
\<close>

fun runlist_fill ::
    "(nat \<Rightarrow> gk104_fifo_chan option) \<Rightarrow> u32 \<Rightarrow> nat list \<Rightarrow> (nat \<Rightarrow> u32) \<times> nat
      \<Rightarrow> (nat \<Rightarrow> u32) \<times> nat" where
  "runlist_fill chans e [] (m, p) = (m, p)"
| "runlist_fill chans e (i # ids) (m, p) =
     (if on_runlist chans e i
      then runlist_fill chans e ids
             (nv_wo32 (nv_wo32 m (p + 0) (of_nat i)) (p + 4) 0x00000000, p + 8)
      else runlist_fill chans e ids (m, p))"

text \<open>
  \<^verbatim>\<open>gk104_fifo_runlist_update(priv, engine)\<close>. The buffer \<^verbatim>\<open>runlist[cur_runlist]\<close>
  is taken, \<^verbatim>\<open>cur_runlist\<close> is negated, the buffer is filled from offset 0 for the
  ids \<^verbatim>\<open>0 \<le> i < priv->base.max\<close>, and its address and entry count \<^verbatim>\<open>p >> 3\<close> are
  written to registers 0x002270 and 0x002274.
\<close>

definition gk104_fifo_runlist_update ::
    "hw \<Rightarrow> gk104_fifo_priv \<Rightarrow> u32 \<Rightarrow> gk104_fifo_priv" where
  "gk104_fifo_runlist_update h priv e =
     (let engn = engines priv (unat e);
          mutex_ret = acquire_mutex h;
          priv1 = emit ([PmuAcquireMutex] @
                    (case mutex_ret of
                       None \<Rightarrow> []
                     | Some err \<Rightarrow> [NvError ''runlist update acquire mutex failed: %d\<newline>'' []]))
                    priv;
          c = cur_runlist engn;
          cur = runlist engn c;
          engn1 = engn\<lparr>cur_runlist := lnot c\<rparr>;
          (m, p) = runlist_fill (channel priv1) e [0..<max_chid priv1] (mem cur, 0);
          engn2 = engn1\<lparr>runlist := (runlist engn1)(c := cur\<lparr>mem := m\<rparr>)\<rparr>;
          priv2 = emit [BarFlush,
                        Wr32 0x002270 (ucast (drop_bit 12 (addr cur))),
                        Wr32 0x002274 (push_bit 20 e OR of_nat (drop_bit 3 p))]
                    (priv1\<lparr>engines := (engines priv1)(unat e := engn2)\<rparr>);
          priv3 = (if runlist_wait h (unat e) then priv2
                   else emit [NvError ''runlist %d update timeout\<newline>'' [unat e]] priv2)
      in (case mutex_ret of
            None \<Rightarrow> emit [PmuReleaseMutex] priv3
          | Some err \<Rightarrow> priv3))"

text \<open>
  The run list the hardware is pointed at after a rebuild: the first \<open>n\<close> entries of a
  buffer, each a channel id at offset \<open>8k\<close> and a zero word at offset \<open>8k + 4\<close>.
\<close>

definition runlist_entries :: "nvkm_gpuobj \<Rightarrow> nat \<Rightarrow> (u32 \<times> u32) list" where
  "runlist_entries buf n = map (\<lambda>k. (mem buf (8 * k), mem buf (8 * k + 4))) [0..<n]"

section \<open>Per-channel watchdog\<close>

text \<open>
  \<^verbatim>\<open>gk104_fifo_chan_timeout_start(chan)\<close>; the first argument is the consumer
  pointer read by \<^verbatim>\<open>nv_ro32\<close>.
\<close>

definition gk104_fifo_chan_timeout_start :: "u32 \<Rightarrow> gk104_fifo_chan \<Rightarrow> gk104_fifo_chan" where
  "gk104_fifo_chan_timeout_start cur_get ch =
     (if watchdog_inited ch then ch
      else ch\<lparr>watchdog_gpfifo_get := cur_get,
              watchdog_inited := True,
              watchdog_work :=
                schedule_delayed_work (watchdog_work ch) GRFIFO_CHAN_WATCHDOG_TIMEOUT_MS\<rparr>)"

text \<open>\<^verbatim>\<open>gk104_fifo_chan_timeout_stop(chan)\<close>.\<close>

definition gk104_fifo_chan_timeout_stop :: "gk104_fifo_chan \<Rightarrow> gk104_fifo_chan" where
  "gk104_fifo_chan_timeout_stop ch =
     (if \<not> watchdog_inited ch then ch
      else ch\<lparr>watchdog_work := snd (cancel_delayed_work (watchdog_work ch)),
              watchdog_inited := False\<rparr>)"

text \<open>
  The loop of \<^verbatim>\<open>gk104_fifo_chan_timeout_restart_all\<close> over the ids still to visit;
  the result is the returned flag and the channel table.
\<close>

fun restart_all_loop ::
    "nat \<Rightarrow> nat list \<Rightarrow> (nat \<Rightarrow> gk104_fifo_chan option)
      \<Rightarrow> bool \<times> (nat \<Rightarrow> gk104_fifo_chan option)" where
  "restart_all_loop exception [] chans = (True, chans)"
| "restart_all_loop exception (i # ids) chans =
     (case chans i of
        None \<Rightarrow> restart_all_loop exception ids chans
      | Some ch \<Rightarrow>
          if \<not> watchdog_inited ch then restart_all_loop exception ids chans
          else
            let (ret, w) = cancel_delayed_work (watchdog_work ch);
                chans1 = chans(i \<mapsto> ch\<lparr>watchdog_work := w\<rparr>)
            in if \<not> ret then (False, chans1)
               else if i = exception then restart_all_loop exception ids chans1
               else restart_all_loop exception ids
                      (chans1(i \<mapsto> ch\<lparr>watchdog_work :=
                         schedule_delayed_work w GRFIFO_CHAN_WATCHDOG_TIMEOUT_MS\<rparr>)))"

text \<open>
  \<^verbatim>\<open>gk104_fifo_chan_timeout_restart_all(priv, exception)\<close>: the scan runs over
  \<^verbatim>\<open>priv->base.min \<le> i < priv->base.max\<close>.
\<close>

definition gk104_fifo_chan_timeout_restart_all ::
    "gk104_fifo_priv \<Rightarrow> nat \<Rightarrow> bool \<times> gk104_fifo_priv" where
  "gk104_fifo_chan_timeout_restart_all priv exception =
     (let (ret, chans) =
            restart_all_loop exception [min_chid priv..<max_chid priv] (channel priv)
      in (ret, priv\<lparr>channel := chans\<rparr>))"

section \<open>Context-switch timeout accounting\<close>

text \<open>
  \<^verbatim>\<open>gk104_fifo_update_timeout(priv, chan, dt)\<close>. The first argument is the value
  \<^verbatim>\<open>nv_ro32(nv_object(chan)->parent, 0x20)\<close> returns, the consumer pointer the
  hardware maintains. The result is the pair of the returned flag and the updated
  channel.
\<close>

definition gk104_fifo_update_timeout ::
    "u32 \<Rightarrow> gk104_fifo_chan \<Rightarrow> u32 \<Rightarrow> bool \<times> gk104_fifo_chan" where
  "gk104_fifo_update_timeout cur_get chan dt =
     (let chan1 = (if cur_get \<noteq> gpfifo_get chan then chan\<lparr>sum_ms := 0\<rparr> else chan);
          chan2 = chan1\<lparr>sum_ms := sum_ms chan1 + dt\<rparr>;
          chan3 = chan2\<lparr>gpfifo_get := cur_get\<rparr>
      in (limit_ms chan3 < sum_ms chan3, chan3))"

section \<open>Fault recovery\<close>

text \<open>
  \<^verbatim>\<open>gk104_fifo_engidx(priv, engn)\<close>: the run-list index of a device engine index;
  \<open>None\<close> is the return value -1.
\<close>

definition gk104_fifo_engidx :: "device \<Rightarrow> nat \<Rightarrow> nat option" where
  "gk104_fifo_engidx dev engn =
     (if engn = NVDEV_ENGINE_GR dev \<or> engn = NVDEV_ENGINE_CE2 dev then Some 0
      else if engn = NVDEV_ENGINE_MSVLD dev then Some 1
      else if engn = NVDEV_ENGINE_MSPPP dev then Some 2
      else if engn = NVDEV_ENGINE_MSPDEC dev then Some 3
      else if engn = NVDEV_ENGINE_CE0 dev then Some 4
      else if engn = NVDEV_ENGINE_CE1 dev then Some 5
      else if engn = NVDEV_ENGINE_MSENC dev then Some 6
      else None)"

text \<open>
  \<^verbatim>\<open>gk104_fifo_engine(priv, engn)\<close>: an engine pointer is the device index of the
  engine (what \<^verbatim>\<open>nv_engidx\<close> reads from it), \<open>None\<close> is NULL.
\<close>

definition gk104_fifo_engine :: "device \<Rightarrow> nat \<Rightarrow> nat option" where
  "gk104_fifo_engine dev engn =
     (if length (fifo_engines dev) \<le> engn then None
      else if has_engine dev (fifo_engines dev ! engn) then Some (fifo_engines dev ! engn)
      else None)"

text \<open>
  \<^verbatim>\<open>gk104_fifo_mmu_fault_recover(priv, engine, chan, unit)\<close>, the synchronous half of
  recovery; \<open>c\<close> is the slot of the channel the pointer \<^verbatim>\<open>chan\<close> refers to. The shifts
  \<^verbatim>\<open>1ULL << nv_engidx(engine)\<close> and \<^verbatim>\<open>1 << unit\<close> are defined for counts below 64
  and 32.
\<close>

definition gk104_fifo_mmu_fault_recover ::
    "hw \<Rightarrow> gk104_fifo_priv \<Rightarrow> nat option \<Rightarrow> nat \<Rightarrow> nat \<Rightarrow> gk104_fifo_priv outcome" where
  "gk104_fifo_mmu_fault_recover h priv eng c unit =
     (case channel priv c of
        None \<Rightarrow> Crash NullDeref
      | Some chan \<Rightarrow>
         (case eng of
            None \<Rightarrow> Crash NullDeref
          | Some e \<Rightarrow>
              if 64 \<le> e \<or> 32 \<le> unit then Crash UndefinedShift
              else
                let grfifo_ctrl = rd32 h 0x400500 AND NOT (push_bit 16 1) AND NOT (push_bit 0 1);
                    priv1 = emit [NvError ''%s engine mmu fault on channel %d\<newline>'' [e, chid chan],
                                  Wr32 0x400500 grfifo_ctrl,
                                  ChanDisable (chid chan)] priv;
                    priv2 = put_chan c (chan\<lparr>state := KILLED\<rparr>) priv1;
                    priv3 = priv2\<lparr>priv_mask := priv_mask priv2 OR push_bit e 1,
                                  fault_chan := Some c,
                                  fault_unit := fault_unit priv2 OR push_bit unit 1\<rparr>;
                    priv4 = emit [UeventFault (chid chan)] priv3
                in Done (priv4\<lparr>mmu_fault := queue_work (mmu_fault priv4)\<rparr>)))"

text \<open>\<^verbatim>\<open>gk104_fifo_sched_ctxsw_recover(priv, engine, chan)\<close>.\<close>

definition gk104_fifo_sched_ctxsw_recover ::
    "hw \<Rightarrow> gk104_fifo_priv \<Rightarrow> nat option \<Rightarrow> nat \<Rightarrow> gk104_fifo_priv outcome" where
  "gk104_fifo_sched_ctxsw_recover h priv eng c =
     (case channel priv c of
        None \<Rightarrow> Crash NullDeref
      | Some chan \<Rightarrow>
         (case eng of
            None \<Rightarrow> Crash NullDeref
          | Some e \<Rightarrow>
              let priv1 = emit ([NvError ''%s engine sched ctxsw timeout on channel %d\<newline>''
                                   [e, chid chan],
                                 Mask32 0x002140 0x10000100 0x00000000,
                                 Wr32 0x002100 0x00000100,
                                 Wr32 0x002a30 0x00000100] @
                                (if nv_wait h 0x002100 then []
                                 else [NvError ''triggering mmu fault timed out\<newline>'' []]) @
                                [Wr32 0x002a30 0x00000000]) priv
              in gk104_fifo_mmu_fault_recover h priv1 eng c 0))"

text \<open>\<^verbatim>\<open>__ffs64\<close>: the index of the lowest set bit (any value for 0).\<close>

definition ffs64 :: "u64 \<Rightarrow> nat" where
  "ffs64 w = (case List.find (bit w) [0..<64] of Some n \<Rightarrow> n | None \<Rightarrow> 64)"

text \<open>
  The engines visited by the loop header
  \<^verbatim>\<open>for (todo = mask; engn = __ffs64(todo), todo; todo &= ~(1 << engn))\<close>.
  The constant 1 is a 32-bit int, so the shift is undefined for \<open>engn \<ge> 32\<close>
  (\<open>None\<close>), and the complement is sign-extended to 64 bits before the AND.
\<close>

function todo_engines :: "u64 \<Rightarrow> nat list option" where
  "todo_engines todo =
     (if todo = 0 then Some []
      else
        let engn = ffs64 todo
        in if 32 \<le> engn then None
           else map_option ((#) engn)
                  (todo_engines (todo AND scast (NOT (push_bit engn (1 :: u32))))))"
  by pat_completeness auto
termination
proof (relation "measure unat")
  show "wf (measure (unat :: u64 \<Rightarrow> nat))"
    by simp
next
  fix todo :: u64 and engn :: nat
  assume nz: "todo \<noteq> 0" and e: "engn = ffs64 todo" and lt: "\<not> 32 \<le> engn"
  let ?x = "todo AND scast (NOT (push_bit engn (1 :: u32)))"
  obtain k where k: "bit todo k"
    using nz by (auto simp: bit_eq_iff)
  then have "k < 64"
    using bit_imp_le_length [of todo k] by simp
  with k have "List.find (bit todo) [0..<64] \<noteq> None"
    by (auto simp: find_None_iff)
  then obtain n where n: "List.find (bit todo) [0..<64] = Some n"
    by auto
  then have "bit todo n"
    by (auto simp: find_Some_iff)
  with n e have b: "bit todo engn"
    by (simp add: ffs64_def)
  have "\<not> bit ?x engn"
    using lt by (simp add: bit_simps)
  with b have ne: "?x \<noteq> todo"
    by auto
  have "?x \<le> todo"
    by (rule word_and_le2)
  with ne have "?x < todo"
    by simp
  then show "(?x, todo) \<in> measure unat"
    by (simp add: word_less_nat_alt)
qed

declare todo_engines.simps [simp del]

text \<open>
  The first loop body: \<^verbatim>\<open>engm |= 1 << gk104_fifo_engidx(priv, engn)\<close>, and
  \<^verbatim>\<open>halt_fecs\<close> is set when the engine is GR; a shift by -1 is undefined (\<open>None\<close>).
\<close>

fun engm_loop :: "device \<Rightarrow> nat list \<Rightarrow> u32 \<times> bool \<Rightarrow> (u32 \<times> bool) option" where
  "engm_loop dev [] (engm, halt_fecs) = Some (engm, halt_fecs)"
| "engm_loop dev (engn # es) (engm, halt_fecs) =
     (case gk104_fifo_engidx dev engn of
        None \<Rightarrow> None
      | Some i \<Rightarrow>
          engm_loop dev es
            (engm OR push_bit i 1, if engn = NVDEV_ENGINE_GR dev then True else halt_fecs))"

text \<open>The second loop body: every engine of the mask that exists is stopped and
  initialised again; the result of the initialisation is only warned about.\<close>

fun reset_loop :: "device \<Rightarrow> nat list \<Rightarrow> event list" where
  "reset_loop dev [] = []"
| "reset_loop dev (engn # es) =
     (if has_engine dev engn
      then [NvError ''resetting engine 0x%x\<newline>'' [engn], EngineFini engn, EngineInit engn]
      else []) @ reset_loop dev es"

text \<open>The third loop body:
  \<^verbatim>\<open>gk104_fifo_runlist_update(priv, gk104_fifo_engidx(priv, engn))\<close>. The array
  \<^verbatim>\<open>priv->engine[]\<close> has \<^verbatim>\<open>num_engine\<close> entries, so the index -1 and every
  index that is not below \<^verbatim>\<open>num_engine\<close> are outside it.\<close>

fun runlist_loop ::
    "hw \<Rightarrow> device \<Rightarrow> nat list \<Rightarrow> gk104_fifo_priv \<Rightarrow> gk104_fifo_priv outcome" where
  "runlist_loop h dev [] priv = Done priv"
| "runlist_loop h dev (engn # es) priv =
     (case gk104_fifo_engidx dev engn of
        None \<Rightarrow> Crash BadIndex
      | Some i \<Rightarrow>
          if length (fifo_engines dev) \<le> i then Crash BadIndex
          else runlist_loop h dev es (gk104_fifo_runlist_update h priv (of_nat i)))"

text \<open>
  The critical section of \<^verbatim>\<open>gk104_fifo_mmu_fault_recover_work\<close> under
  \<^verbatim>\<open>priv->base.lock\<close>: the pending record is copied out and cleared.
\<close>

definition fault_take ::
    "gk104_fifo_priv \<Rightarrow> (u64 \<times> nat option \<times> u32) \<times> gk104_fifo_priv" where
  "fault_take priv =
     ((priv_mask priv, fault_chan priv, fault_unit priv),
      priv\<lparr>priv_mask := 0, fault_chan := None, fault_unit := 0\<rparr>)"

text \<open>
  The part of \<^verbatim>\<open>gk104_fifo_mmu_fault_recover_work\<close> after the critical section. It
  works on the local copies \<^verbatim>\<open>mask\<close>, \<^verbatim>\<open>chan\<close> and \<^verbatim>\<open>unit\<close> taken there.
\<close>

definition recover_act ::
    "hw \<Rightarrow> device \<Rightarrow> u64 \<times> nat option \<times> u32 \<Rightarrow> gk104_fifo_priv
      \<Rightarrow> gk104_fifo_priv outcome" where
  "recover_act h dev taken priv1 =
     (case taken of
        (fmask, chan, unit) \<Rightarrow>
          (case todo_engines fmask of
             None \<Rightarrow> Crash UndefinedShift
           | Some engns \<Rightarrow>
              (case engm_loop dev engns (0, False) of
                 None \<Rightarrow> Crash UndefinedShift
               | Some (engm, halt_fecs) \<Rightarrow>
                  (case runlist_loop h dev engns
                          (emit ((if has_disable_clk_gating dev then [DisableClkGating] else []) @
                                 [Mask32 0x002630 engm engm] @
                                 (if halt_fecs \<and> has_halt_fecs dev then [HaltFecs] else []) @
                                 reset_loop dev engns @
                                 [Wr32 0x400500
                                    (rd32 h 0x400500 OR push_bit 16 1 OR push_bit 0 1)])
                             priv1) of
                     Crash f \<Rightarrow> Crash f
                   | Failed err s \<Rightarrow> Failed err s
                   | Done priv2 \<Rightarrow>
                       Done (emit ([Wr32 0x00259c unit,
                                    Wr32 0x00262c engm,
                                    Mask32 0x002630 engm 0x00000000,
                                    Mask32 0x002140 0x10000100 0x10000100] @
                                   (if has_enable_clk_gating dev then [EnableClkGating] else []) @
                                   [NvError ''channel clean up done\<newline>'' []] @
                                   (if pm_usable h then [PmRuntimePut] else [])) priv2)))))"

text \<open>
  \<^verbatim>\<open>gk104_fifo_mmu_fault_recover_work(work)\<close>, the asynchronous half of recovery:
  the critical section, then the rest on what it took.
\<close>

definition gk104_fifo_mmu_fault_recover_work ::
    "hw \<Rightarrow> device \<Rightarrow> gk104_fifo_priv \<Rightarrow> gk104_fifo_priv outcome" where
  "gk104_fifo_mmu_fault_recover_work h dev priv =
     (case fault_take (emit [PmRuntimeGet] priv) of
        (taken, priv1) \<Rightarrow> recover_act h dev taken priv1)"

text \<open>
  Modelled from the spec: the work queue that runs the recovery work item, which is
  kernel code outside this file. A pending item is run once, and its pending bit is
  cleared before the handler starts; with nothing pending nothing runs.
\<close>

definition run_mmu_fault_work ::
    "hw \<Rightarrow> device \<Rightarrow> gk104_fifo_priv \<Rightarrow> gk104_fifo_priv outcome" where
  "run_mmu_fault_work h dev priv =
     (if mmu_fault priv
      then gk104_fifo_mmu_fault_recover_work h dev (priv\<lparr>mmu_fault := False\<rparr>)
      else Done priv)"

section \<open>Watchdog expiry and the context-switch timeout monitor\<close>

text \<open>
  \<^verbatim>\<open>gk104_fifo_chan_timeout_work(work)\<close> for the channel in slot \<open>c\<close>. The consumer
  pointer is \<open>ro32_get h c\<close>, both for the comparison and for the re-arming.
\<close>

definition gk104_fifo_chan_timeout_work ::
    "hw \<Rightarrow> device \<Rightarrow> gk104_fifo_priv \<Rightarrow> nat \<Rightarrow> gk104_fifo_priv outcome" where
  "gk104_fifo_chan_timeout_work h dev priv c =
     (case channel priv c of
        None \<Rightarrow> Crash NullDeref
      | Some ch \<Rightarrow>
          let pre = watchdog_gpfifo_get ch;
              quit = (\<not> watchdog_inited ch);
              ch1 = ch\<lparr>watchdog_inited := False\<rparr>;
              priv1 = put_chan c ch1 priv
          in if quit then Done priv1
             else
               let priv2 = emit [PmRuntimeGet] priv1;
                   cur = ro32_get h c;
                   pm_put = (if pm_usable h then [PmRuntimePut] else [])
               in if cur \<noteq> pre
                  then Done (emit pm_put
                          (put_chan c (gk104_fifo_chan_timeout_start (ro32_get h c) ch1) priv2))
                  else
                    (case gk104_fifo_sched_ctxsw_recover h
                            (emit [NvError ''Channel %d timed out\<newline>'' [chid ch],
                                   Eevent (chid ch) FIFO_ERROR_IDLE_TIMEOUT] priv2)
                            (gk104_fifo_engine dev 0) c of
                       Crash f \<Rightarrow> Crash f
                     | Failed err s \<Rightarrow> Failed err s
                     | Done priv3 \<Rightarrow> Done (emit pm_put priv3)))"

definition CTXSW_STATUS_LOAD :: u32 where
  "CTXSW_STATUS_LOAD = 5"

definition CTXSW_STATUS_SAVE :: u32 where
  "CTXSW_STATUS_SAVE = 6"

definition CTXSW_STATUS_SWITCH :: u32 where
  "CTXSW_STATUS_SWITCH = 7"

text \<open>
  The escalation branch of \<^verbatim>\<open>gk104_fifo_intr_sched_ctxsw\<close>, taken when
  \<^verbatim>\<open>gk104_fifo_update_timeout\<close> returns true for the channel in slot \<open>cid\<close> on
  engine \<open>eng\<close>.
\<close>

definition ctxsw_escalate ::
    "hw \<Rightarrow> gk104_fifo_priv \<Rightarrow> nat \<Rightarrow> nat \<Rightarrow> gk104_fifo_priv outcome" where
  "ctxsw_escalate h priv eng cid =
     (let priv1 = emit [Eevent cid FIFO_ERROR_IDLE_TIMEOUT] priv;
          r = gk104_fifo_chan_timeout_restart_all priv1 cid
      in if fst r
         then gk104_fifo_sched_ctxsw_recover h
                (emit [NvError ''recovering ctxsw timeout for ch %d\<newline>'' [cid]] (snd r))
                (Some eng) cid
         else Done (snd r))"

text \<open>
  The decoding of an engine status word at the head of the loop body of
  \<^verbatim>\<open>gk104_fifo_intr_sched_ctxsw\<close>: whether \<^verbatim>\<open>busy && ctxsw_active\<close> holds, and
  the channel id \<^verbatim>\<open>chid\<close> (the next id during a load, else the previous one).
\<close>

definition ctxsw_status :: "u32 \<Rightarrow> bool \<times> nat" where
  "ctxsw_status stat =
     (let busy = stat AND 0x80000000;
          nxt = drop_bit 16 (stat AND 0x0fff0000);
          ctxstat = drop_bit 13 (stat AND 0x0000e000);
          prev = stat AND 0x00000fff;
          cid = (if ctxstat = CTXSW_STATUS_LOAD then nxt else prev);
          ctxsw_active = (ctxstat = CTXSW_STATUS_LOAD \<or> ctxstat = CTXSW_STATUS_SAVE
                          \<or> ctxstat = CTXSW_STATUS_SWITCH)
      in (busy \<noteq> 0 \<and> ctxsw_active, unat cid))"

text \<open>
  The body of the loop of \<^verbatim>\<open>gk104_fifo_intr_sched_ctxsw\<close> for the engine with
  run-list index \<open>engn\<close>.
\<close>

definition ctxsw_engn ::
    "hw \<Rightarrow> device \<Rightarrow> nat \<Rightarrow> gk104_fifo_priv \<Rightarrow> gk104_fifo_priv outcome" where
  "ctxsw_engn h dev engn priv =
     (let st = ctxsw_status (rd32 h (0x002640 + of_nat engn * 0x08));
          cid = snd st
      in if fst st
         then
           (case channel priv cid of
              None \<Rightarrow> Done priv
            | Some chan \<Rightarrow>
               (case gk104_fifo_engine dev engn of
                  None \<Rightarrow> Done priv
                | Some eng \<Rightarrow>
                    let r = gk104_fifo_update_timeout (ro32_get h cid) chan
                              (of_nat GRFIFO_TIMEOUT_CHECK_PERIOD_MS);
                        priv1 = put_chan cid (snd r) priv
                    in if fst r then ctxsw_escalate h priv1 eng cid
                       else Done (emit [UpdateRecoveryDelay,
                                        NvError ''fifo waiting for ctxsw %d ms on ch %d\<newline>''
                                          [unat (sum_ms (snd r)), cid]] priv1)))
         else Done priv)"

fun ctxsw_loop ::
    "hw \<Rightarrow> device \<Rightarrow> nat list \<Rightarrow> gk104_fifo_priv \<Rightarrow> gk104_fifo_priv outcome" where
  "ctxsw_loop h dev [] priv = Done priv"
| "ctxsw_loop h dev (engn # es) priv =
     (case ctxsw_engn h dev engn priv of
        Done priv1 \<Rightarrow> ctxsw_loop h dev es priv1
      | Failed err s \<Rightarrow> Failed err s
      | Crash f \<Rightarrow> Crash f)"

text \<open>\<^verbatim>\<open>gk104_fifo_intr_sched_ctxsw(priv)\<close>.\<close>

definition gk104_fifo_intr_sched_ctxsw ::
    "hw \<Rightarrow> device \<Rightarrow> gk104_fifo_priv \<Rightarrow> gk104_fifo_priv outcome" where
  "gk104_fifo_intr_sched_ctxsw h dev priv =
     ctxsw_loop h dev [0..<length (fifo_engines dev)] priv"

section \<open>Channel objects\<close>

text \<open>
  The arguments of channel creation, \<^verbatim>\<open>struct kepler_channel_gpfifo_a_v0\<close>; the
  fields \<^verbatim>\<open>engine\<close> and \<^verbatim>\<open>chid\<close> are written back by the constructor.
\<close>

record kepler_channel_gpfifo_a_v0 =
  v0_pushbuf :: u32
  v0_ioffset :: u64
  v0_ilength :: u32
  v0_engine :: u32
  v0_chid :: nat

text \<open>
  The search loop of \<^verbatim>\<open>gk104_fifo_chan_ctor\<close>, from index \<open>i\<close>: the value of
  \<^verbatim>\<open>i\<close> when the loop is left. The test \<^verbatim>\<open>args->v0.engine & (1 << i)\<close> is a test
  of bit \<open>i\<close>.
\<close>

function ctor_find_engine :: "device \<Rightarrow> u32 \<Rightarrow> nat \<Rightarrow> nat" where
  "ctor_find_engine dev emask i =
     (if i < length (fifo_engines dev)
      then if emask AND push_bit i 1 \<noteq> 0 \<and> has_engine dev (fifo_engines dev ! i) then i
           else ctor_find_engine dev emask (i + 1)
      else i)"
  by pat_completeness auto
termination
  by (relation "measure (\<lambda>(dev, emask, i). length (fifo_engines dev) - i)") auto

declare ctor_find_engine.simps [simp del]

text \<open>
  Modelled from the spec: the object \<^verbatim>\<open>nvkm_fifo_channel_create\<close> hands back, whose
  code is outside this file. The slot it allocates holds a zero-filled channel that
  carries its id, so the channel starts in \<open>STOPPED\<close> with the watchdog unarmed.
\<close>

definition new_chan :: "nat \<Rightarrow> gk104_fifo_chan" where
  "new_chan cid =
     \<lparr>chid = cid, engine = 0, state = STOPPED, sum_ms = 0, limit_ms = 0, gpfifo_get = 0,
      watchdog_inited = False, watchdog_work = None, watchdog_gpfifo_get = 0\<rparr>"

text \<open>
  \<^verbatim>\<open>gk104_fifo_chan_ctor\<close>. \<open>unpack\<close> is the error \<^verbatim>\<open>nvif_unpack\<close> leaves in
  \<^verbatim>\<open>ret\<close> when it rejects the arguments (\<open>None\<close> when it accepts them), \<open>created\<close>
  is the result of \<^verbatim>\<open>nvkm_fifo_channel_create\<close>: an error or the id of the allocated
  slot. The clearing of the channel's USERD page and the writes to its instance block
  are recorded as the single event \<open>CtorProgram\<close>.
\<close>

definition gk104_fifo_chan_ctor ::
    "device \<Rightarrow> errno option \<Rightarrow> errno + nat \<Rightarrow> gk104_fifo_priv \<Rightarrow> kepler_channel_gpfifo_a_v0
      \<Rightarrow> (gk104_fifo_priv \<times> kepler_channel_gpfifo_a_v0) outcome" where
  "gk104_fifo_chan_ctor dev unpack created priv args =
     (case unpack of
        Some err \<Rightarrow> Failed err (priv, args)
      | None \<Rightarrow>
          let i = ctor_find_engine dev (v0_engine args) 0
          in if i = length (fifo_engines dev)
             then Failed ENODEV
                    (emit [NvError ''unsupported engines 0x%08x\<newline>'' [unat (v0_engine args)]] priv,
                     args)
             else
               let args1 = args\<lparr>v0_engine := push_bit i 1\<rparr>
               in (case created of
                     Inl err \<Rightarrow> Failed err (priv, args1)
                   | Inr cid \<Rightarrow>
                       let args2 = args1\<lparr>v0_chid := cid\<rparr>;
                           chan = (new_chan cid)\<lparr>engine := of_nat i\<rparr>;
                           chan1 = chan\<lparr>sum_ms := 0,
                                        limit_ms := of_nat GRFIFO_TIMEOUT_DEFAULT,
                                        gpfifo_get := 0,
                                        watchdog_work := None\<rparr>
                       in Done (emit [CtorProgram cid (v0_ioffset args2) (v0_ilength args2),
                                      BarFlush]
                                  (put_chan cid chan1 priv),
                                args2)))"

text \<open>\<^verbatim>\<open>gk104_fifo_chan_init(object)\<close> for the channel in slot \<open>c\<close>.\<close>

definition gk104_fifo_chan_init ::
    "hw \<Rightarrow> gk104_fifo_priv \<Rightarrow> nat \<Rightarrow> gk104_fifo_priv outcome" where
  "gk104_fifo_chan_init h priv c =
     (case channel priv c of
        None \<Rightarrow> Crash NullDeref
      | Some chan \<Rightarrow>
         (case channel_init h c of
            Some err \<Rightarrow> Failed err (emit [ChannelInit (chid chan)] priv)
          | None \<Rightarrow>
              let priv1 = emit [ChannelInit (chid chan),
                                Mask32 (0x800004 + of_nat (chid chan) * 8) 0x000f0000
                                  (push_bit 16 (engine chan)),
                                Wr32 (0x800000 + of_nat (chid chan) * 8)
                                  (0x80000000 OR ucast (drop_bit 12 (inst_addr h c)))] priv
              in if state chan = STOPPED
                 then
                   let priv2 = emit [ChanEnable (chid chan)]
                                 (put_chan c (chan\<lparr>state := RUNNING\<rparr>) priv1);
                       priv3 = gk104_fifo_runlist_update h priv2 (engine chan)
                   in Done (emit [ChanEnable (chid chan)] priv3)
                 else Done priv1))"

text \<open>\<^verbatim>\<open>gk104_fifo_chan_fini(object, suspend)\<close> for the channel in slot \<open>c\<close>.\<close>

definition gk104_fifo_chan_fini ::
    "hw \<Rightarrow> gk104_fifo_priv \<Rightarrow> nat \<Rightarrow> bool \<Rightarrow> gk104_fifo_priv outcome" where
  "gk104_fifo_chan_fini h priv c suspend =
     (case channel priv c of
        None \<Rightarrow> Crash NullDeref
      | Some chan \<Rightarrow>
          if suspend \<and> \<not> nv_wait h (0x002640 + engine chan * 8)
          then Failed ETIMEDOUT
                 (emit [NvError ''fifo engine %d wait idle timeout\<newline>'' [unat (engine chan)]] priv)
          else
            let chan1 = gk104_fifo_chan_timeout_stop chan;
                priv1 = put_chan c chan1 priv;
                priv2 = (if state chan1 = RUNNING
                         then gk104_fifo_runlist_update h
                                (emit [ChanDisable (chid chan)]
                                   (put_chan c (chan1\<lparr>state := STOPPED\<rparr>) priv1))
                                (engine chan)
                         else priv1);
                priv3 = emit [ChanKick (chid chan)] priv2
            in (case chan_kick h c of
                  Some err \<Rightarrow>
                    if suspend then Failed err priv3
                    else
                      let priv4 = emit [Wr32 (0x800000 + of_nat (chid chan) * 8) 0x00000000,
                                        ChannelFini (chid chan) suspend] priv3
                      in (case channel_fini h c of
                            None \<Rightarrow> Done priv4
                          | Some err2 \<Rightarrow> Failed err2 priv4)
                | None \<Rightarrow>
                    let priv4 = emit [Wr32 (0x800000 + of_nat (chid chan) * 8) 0x00000000,
                                      ChannelFini (chid chan) suspend] priv3
                    in (case channel_fini h c of
                          None \<Rightarrow> Done priv4
                        | Some err2 \<Rightarrow> Failed err2 priv4)))"

text \<open>
  \<^verbatim>\<open>gk104_fifo_set_runlist_timeslice(priv, chan, slice)\<close> for the channel in slot
  \<open>c\<close>; the result of the kick is only warned about.
\<close>

definition gk104_fifo_set_runlist_timeslice ::
    "gk104_fifo_priv \<Rightarrow> nat \<Rightarrow> u8 \<Rightarrow> gk104_fifo_priv outcome" where
  "gk104_fifo_set_runlist_timeslice priv c tslice =
     (case channel priv c of
        None \<Rightarrow> Crash NullDeref
      | Some chan \<Rightarrow>
          Done (emit [ChanDisable (chid chan),
                      ChanKick (chid chan),
                      Wo32Base (chid chan) 0xf8 (ucast tslice OR 0x10003000),
                      ChanEnable (chid chan)] priv))"

text \<open>
  The priority levels of \<^verbatim>\<open>nvif/class.h\<close>, a header outside this file. As labels of
  one \<^verbatim>\<open>switch\<close> their values are pairwise different.
\<close>

record nvif_class =
  KEPLER_SET_CHANNEL_PRIORITY_LOW :: u32
  KEPLER_SET_CHANNEL_PRIORITY_MEDIUM :: u32
  KEPLER_SET_CHANNEL_PRIORITY_HIGH :: u32

text \<open>
  \<^verbatim>\<open>gk104_fifo_chan_set_priority(object, data, size)\<close> for the channel in slot \<open>c\<close>;
  \<open>unpack\<close> as for the constructor, \<open>priority\<close> is \<^verbatim>\<open>args->v0.priority\<close>.
\<close>

definition gk104_fifo_chan_set_priority ::
    "nvif_class \<Rightarrow> errno option \<Rightarrow> gk104_fifo_priv \<Rightarrow> nat \<Rightarrow> u32 \<Rightarrow> gk104_fifo_priv outcome" where
  "gk104_fifo_chan_set_priority cls unpack priv c priority =
     (case unpack of
        Some err \<Rightarrow> Failed err priv
      | None \<Rightarrow>
          if priority = KEPLER_SET_CHANNEL_PRIORITY_LOW cls
          then gk104_fifo_set_runlist_timeslice priv c 64
          else if priority = KEPLER_SET_CHANNEL_PRIORITY_MEDIUM cls
          then gk104_fifo_set_runlist_timeslice priv c 128
          else if priority = KEPLER_SET_CHANNEL_PRIORITY_HIGH cls
          then gk104_fifo_set_runlist_timeslice priv c 255
          else Failed EINVAL priv)"

text \<open>
  \<^verbatim>\<open>gk104_fifo_chan_set_timeout(object, data, size)\<close> for the channel in slot \<open>c\<close>;
  \<open>timeout_ms\<close> is \<^verbatim>\<open>args->v0.timeout_ms\<close>.
\<close>

definition gk104_fifo_chan_set_timeout ::
    "errno option \<Rightarrow> gk104_fifo_priv \<Rightarrow> nat \<Rightarrow> u32 \<Rightarrow> gk104_fifo_priv outcome" where
  "gk104_fifo_chan_set_timeout unpack priv c timeout_ms =
     (case unpack of
        Some err \<Rightarrow> Failed err priv
      | None \<Rightarrow>
         (case channel priv c of
            None \<Rightarrow> Crash NullDeref
          | Some chan \<Rightarrow> Done (put_chan c (chan\<lparr>limit_ms := timeout_ms\<rparr>) priv)))"

section \<open>Entry points\<close>

text \<open>
  The entry points of the driver that work on existing channels, with their arguments:
  start and stop of the channel in a slot, the two control methods, a rebuild of the run
  list of an engine, the two ways into the synchronous half of recovery, a run of the
  work queue that holds the recovery work item, the expiry of the watchdog of a channel,
  and the context-switch timeout monitor.
\<close>

datatype entry =
    Chan_init nat
  | Chan_fini nat bool
  | Chan_set_priority "errno option" nat u32
  | Chan_set_timeout "errno option" nat u32
  | Runlist_update u32
  | Mmu_fault_recover "nat option" nat nat
  | Sched_ctxsw_recover "nat option" nat
  | Mmu_fault_work
  | Chan_timeout_work nat
  | Intr_sched_ctxsw

text \<open>One call of an entry point, with the hardware answers \<open>h\<close> of that call.\<close>

definition call ::
    "device \<Rightarrow> nvif_class \<Rightarrow> hw \<Rightarrow> entry \<Rightarrow> gk104_fifo_priv \<Rightarrow> gk104_fifo_priv outcome" where
  "call dev cls h ent priv =
     (case ent of
        Chan_init c \<Rightarrow> gk104_fifo_chan_init h priv c
      | Chan_fini c suspend \<Rightarrow> gk104_fifo_chan_fini h priv c suspend
      | Chan_set_priority unpack c priority \<Rightarrow>
          gk104_fifo_chan_set_priority cls unpack priv c priority
      | Chan_set_timeout unpack c timeout_ms \<Rightarrow>
          gk104_fifo_chan_set_timeout unpack priv c timeout_ms
      | Runlist_update e \<Rightarrow> Done (gk104_fifo_runlist_update h priv e)
      | Mmu_fault_recover eng c unit \<Rightarrow> gk104_fifo_mmu_fault_recover h priv eng c unit
      | Sched_ctxsw_recover eng c \<Rightarrow> gk104_fifo_sched_ctxsw_recover h priv eng c
      | Mmu_fault_work \<Rightarrow> run_mmu_fault_work h dev priv
      | Chan_timeout_work c \<Rightarrow> gk104_fifo_chan_timeout_work h dev priv c
      | Intr_sched_ctxsw \<Rightarrow> gk104_fifo_intr_sched_ctxsw h dev priv)"

text \<open>The state a call leaves behind, whether it returns 0 or an error code.\<close>

fun state_after :: "'s outcome \<Rightarrow> 's option" where
  "state_after (Done s) = Some s"
| "state_after (Failed err s) = Some s"
| "state_after (Crash f) = None"

text \<open>
  A sequence of calls, each with its own hardware answers; a call that fails with an
  error code leaves its state to the next one.
\<close>

fun calls ::
    "device \<Rightarrow> nvif_class \<Rightarrow> (hw \<times> entry) list \<Rightarrow> gk104_fifo_priv
      \<Rightarrow> gk104_fifo_priv option" where
  "calls dev cls [] priv = Some priv"
| "calls dev cls ((h, ent) # es) priv =
     (case state_after (call dev cls h ent priv) of
        None \<Rightarrow> None
      | Some s \<Rightarrow> calls dev cls es s)"

text \<open>The life-cycle state of the channel in slot \<open>j\<close>, if there is one.\<close>

definition state_of :: "gk104_fifo_priv \<Rightarrow> nat \<Rightarrow> chan_state option" where
  "state_of priv j = map_option state (channel priv j)"

section \<open>A sample device\<close>

text \<open>
  A small configuration on which the properties below are evaluated: two run-list
  engines (GR with device index 2, which the device has, and CE2 with device index 3,
  which it does not), four channel slots, and hardware that answers every wait.
\<close>

definition ex_dev :: device where
  "ex_dev = \<lparr>fifo_engines = [2, 3], has_engine = (\<lambda>idx. idx = 2),
      NVDEV_ENGINE_GR = 2, NVDEV_ENGINE_CE2 = 3, NVDEV_ENGINE_MSVLD = 4,
      NVDEV_ENGINE_MSPPP = 5, NVDEV_ENGINE_MSPDEC = 6, NVDEV_ENGINE_CE0 = 7,
      NVDEV_ENGINE_CE1 = 8, NVDEV_ENGINE_MSENC = 9,
      has_disable_clk_gating = True, has_enable_clk_gating = True, has_halt_fecs = True\<rparr>"

definition ex_hw :: hw where
  "ex_hw = \<lparr>rd32 = (\<lambda>a. 0), ro32_get = (\<lambda>c. 7), nv_wait = (\<lambda>a. True),
      runlist_wait = (\<lambda>e. True), acquire_mutex = None, chan_kick = (\<lambda>c. None),
      channel_init = (\<lambda>c. None), channel_fini = (\<lambda>c. None), inst_addr = (\<lambda>c. 0),
      pm_usable = True\<rparr>"

definition ex_cls :: nvif_class where
  "ex_cls = \<lparr>KEPLER_SET_CHANNEL_PRIORITY_LOW = 0, KEPLER_SET_CHANNEL_PRIORITY_MEDIUM = 1,
      KEPLER_SET_CHANNEL_PRIORITY_HIGH = 2\<rparr>"

text \<open>A running channel on run-list engine 0 whose watchdog is armed.\<close>

definition ex_chan :: "nat \<Rightarrow> gk104_fifo_chan" where
  "ex_chan cid = \<lparr>chid = cid, engine = 0, state = RUNNING, sum_ms = 300, limit_ms = 5000,
      gpfifo_get = 7, watchdog_inited = True, watchdog_work = Some 3000,
      watchdog_gpfifo_get = 7\<rparr>"

definition ex_engn :: gk104_fifo_engn where
  "ex_engn = \<lparr>runlist = (\<lambda>k. \<lparr>addr = 0, mem = (\<lambda>off. 0)\<rparr>), cur_runlist = 0\<rparr>"

text \<open>Channels 0 and 1 are live, nothing is pending.\<close>

definition ex_priv :: gk104_fifo_priv where
  "ex_priv = \<lparr>min_chid = 0, max_chid = 3,
      channel = [0 \<mapsto> ex_chan 0, 1 \<mapsto> ex_chan 1],
      engines = (\<lambda>e. ex_engn), priv_mask = 0, fault_chan = None, fault_unit = 0,
      mmu_fault = False, trace = []\<rparr>"

text \<open>
  Three live channels: the work of channel 1 is not pending although its watchdog is
  armed (its handler has been taken off the queue and has not yet run), and channel 2
  has a limit of 350 ms.
\<close>

definition ex_stuck :: gk104_fifo_priv where
  "ex_stuck = ex_priv\<lparr>channel :=
      [0 \<mapsto> ex_chan 0,
       1 \<mapsto> (ex_chan 1)\<lparr>watchdog_work := None\<rparr>,
       2 \<mapsto> (ex_chan 2)\<lparr>limit_ms := 350\<rparr>]\<rparr>"

text \<open>Channels 0 and 2 are running on run-list engine 0, channel 1 has been killed.\<close>

definition ex_mixed :: gk104_fifo_priv where
  "ex_mixed = ex_priv\<lparr>channel :=
      [0 \<mapsto> ex_chan 0,
       1 \<mapsto> (ex_chan 1)\<lparr>state := KILLED\<rparr>,
       2 \<mapsto> ex_chan 2]\<rparr>"

text \<open>Hardware whose engine status registers all read \<open>stat\<close>.\<close>

definition ex_hw_stat :: "u32 \<Rightarrow> hw" where
  "ex_hw_stat stat = ex_hw\<lparr>rd32 := (\<lambda>a. stat)\<rparr>"

text \<open>Two live channels with pending watchdogs; channel 1 has a limit of 350 ms.\<close>

definition ex_over :: gk104_fifo_priv where
  "ex_over = ex_priv\<lparr>channel := [0 \<mapsto> ex_chan 0, 1 \<mapsto> (ex_chan 1)\<lparr>limit_ms := 350\<rparr>]\<rparr>"

text \<open>Creation arguments that request the engines of mask \<open>m\<close>.\<close>

definition ex_args :: "u32 \<Rightarrow> kepler_channel_gpfifo_a_v0" where
  "ex_args m = \<lparr>v0_pushbuf = 0, v0_ioffset = 0, v0_ilength = 0, v0_engine = m, v0_chid = 0\<rparr>"

section \<open>Properties\<close>

subsection \<open>Stall counter\<close>

text \<open>
  C3, as stated, at a concrete check: the recorded pointer is 7, the pointer read at the
  check is 8, the interval is 100 ms and 300 ms had accumulated. The counter after the
  check is 100, not 0: the code clears it and then adds the interval of this check.
\<close>

theorem C3_reset_counterexample:
  "gpfifo_get (ex_chan 0) \<noteq> 8
   \<and> sum_ms (snd (gk104_fifo_update_timeout 8 (ex_chan 0) 100)) \<noteq> 0"
  by (simp add: gk104_fifo_update_timeout_def ex_chan_def)

text \<open>
  C3, amended: at a timeout check with interval \<open>dt\<close>, if the consumer pointer equals
  the recorded one the accumulated stall grows by exactly \<open>dt\<close> (32-bit unsigned
  arithmetic, and as a number whenever the sum fits in 32 bits); if the pointer differs
  the accumulated stall restarts at \<open>dt\<close>, the interval of this check. In both cases
  the pointer read at the check becomes the recorded one, nothing else in the channel
  changes, and the returned flag says whether the new sum is strictly above the limit.
\<close>

theorem C3_update_timeout:
  "(cur_get = gpfifo_get chan \<longrightarrow>
      sum_ms (snd (gk104_fifo_update_timeout cur_get chan dt)) = sum_ms chan + dt
      \<and> (unat (sum_ms chan) + unat dt < 2 ^ 32 \<longrightarrow>
           unat (sum_ms (snd (gk104_fifo_update_timeout cur_get chan dt)))
             = unat (sum_ms chan) + unat dt))
   \<and> (cur_get \<noteq> gpfifo_get chan \<longrightarrow>
      sum_ms (snd (gk104_fifo_update_timeout cur_get chan dt)) = dt)
   \<and> snd (gk104_fifo_update_timeout cur_get chan dt)
        = chan\<lparr>sum_ms := sum_ms (snd (gk104_fifo_update_timeout cur_get chan dt)),
               gpfifo_get := cur_get\<rparr>
   \<and> fst (gk104_fifo_update_timeout cur_get chan dt)
        = (limit_ms chan < sum_ms (snd (gk104_fifo_update_timeout cur_get chan dt)))"
  by (simp add: gk104_fifo_update_timeout_def Let_def unat_word_ariths)

theorem C3_update_timeout_witness:
  "7 = gpfifo_get (ex_chan 0)
   \<and> unat (sum_ms (ex_chan 0)) + unat (100 :: u32) < 2 ^ 32
   \<and> unat (sum_ms (snd (gk104_fifo_update_timeout 7 (ex_chan 0) 100))) = 400
   \<and> 8 \<noteq> gpfifo_get (ex_chan 0)
   \<and> sum_ms (snd (gk104_fifo_update_timeout 8 (ex_chan 0) 100)) = 100"
  using C3_update_timeout [of 7 "ex_chan 0" 100] C3_update_timeout [of 8 "ex_chan 0" 100]
  by (simp add: ex_chan_def)

subsection \<open>Set-priority\<close>

text \<open>
  C8: with accepted arguments, set-priority on a live channel returns 0 after the
  sequence disable, kick, write of the time slice into word 0xf8 of the channel's
  instance block, enable; the slice is 64 for low, 128 for medium and 255 for high.
  For any other priority value it returns \<open>-EINVAL\<close> and does nothing: the state,
  trace included, is the one before the call.
\<close>

theorem C8_set_priority:
  assumes "channel priv c = Some chan"
    and "distinct [KEPLER_SET_CHANNEL_PRIORITY_LOW cls, KEPLER_SET_CHANNEL_PRIORITY_MEDIUM cls,
                   KEPLER_SET_CHANNEL_PRIORITY_HIGH cls]"
  shows "gk104_fifo_chan_set_priority cls None priv c priority =
     (if priority \<in> {KEPLER_SET_CHANNEL_PRIORITY_LOW cls, KEPLER_SET_CHANNEL_PRIORITY_MEDIUM cls,
                      KEPLER_SET_CHANNEL_PRIORITY_HIGH cls}
      then Done (priv\<lparr>trace := trace priv @
                   [ChanDisable (chid chan),
                    ChanKick (chid chan),
                    Wo32Base (chid chan) 0xf8
                      ((if priority = KEPLER_SET_CHANNEL_PRIORITY_LOW cls then 64
                        else if priority = KEPLER_SET_CHANNEL_PRIORITY_MEDIUM cls then 128
                        else 255) OR 0x10003000),
                    ChanEnable (chid chan)]\<rparr>)
      else Failed EINVAL priv)"
  using assms
  by (simp add: gk104_fifo_chan_set_priority_def gk104_fifo_set_runlist_timeslice_def emit_def)

theorem C8_set_priority_witness:
  "channel ex_priv 1 = Some (ex_chan 1)
   \<and> distinct [KEPLER_SET_CHANNEL_PRIORITY_LOW ex_cls, KEPLER_SET_CHANNEL_PRIORITY_MEDIUM ex_cls,
                KEPLER_SET_CHANNEL_PRIORITY_HIGH ex_cls]
   \<and> gk104_fifo_chan_set_priority ex_cls None ex_priv 1 1 =
       Done (ex_priv\<lparr>trace := [ChanDisable 1, ChanKick 1, Wo32Base 1 0xf8 0x10003080,
                               ChanEnable 1]\<rparr>)
   \<and> gk104_fifo_chan_set_priority ex_cls None ex_priv 1 9 = Failed EINVAL ex_priv"
  using C8_set_priority [of ex_priv 1 "ex_chan 1" ex_cls 1]
        C8_set_priority [of ex_priv 1 "ex_chan 1" ex_cls 9]
  by (simp add: ex_priv_def ex_chan_def ex_cls_def)

subsection \<open>Blocking stop that times out\<close>

text \<open>
  C9: when stop is called with suspend requested and the wait for the channel's engine
  to go idle expires, \<open>gk104_fifo_chan_fini\<close> returns \<open>-ETIMEDOUT\<close> at once. The
  only thing it has done is print the error line: the channel table (so the channel's
  state and its watchdog), the run-list buffers and the fault record are as before,
  and no disable, run-list submission or register write has been issued.
\<close>

theorem C9_fini_idle_timeout:
  assumes "channel priv c = Some chan"
    and "suspend"
    and "\<not> nv_wait h (0x002640 + engine chan * 8)"
  shows "gk104_fifo_chan_fini h priv c suspend =
           Failed ETIMEDOUT
             (priv\<lparr>trace := trace priv @
                [NvError ''fifo engine %d wait idle timeout\<newline>'' [unat (engine chan)]]\<rparr>)"
  using assms by (simp add: gk104_fifo_chan_fini_def emit_def)

theorem C9_fini_idle_timeout_witness:
  "channel ex_priv 0 = Some (ex_chan 0)
   \<and> \<not> nv_wait (ex_hw\<lparr>nv_wait := (\<lambda>a. False)\<rparr>) (0x002640 + engine (ex_chan 0) * 8)
   \<and> gk104_fifo_chan_fini (ex_hw\<lparr>nv_wait := (\<lambda>a. False)\<rparr>) ex_priv 0 True =
       Failed ETIMEDOUT
         (ex_priv\<lparr>trace := [NvError ''fifo engine %d wait idle timeout\<newline>'' [0]]\<rparr>)"
  using C9_fini_idle_timeout [of ex_priv 0 "ex_chan 0" True "ex_hw\<lparr>nv_wait := (\<lambda>a. False)\<rparr>"]
  by (simp add: ex_priv_def ex_chan_def ex_hw_def)

subsection \<open>Watchdog\<close>

text \<open>
  C6: arming a watchdog that is already armed changes nothing in the channel (the
  recorded pointer and the pending timer stay). When the armed watchdog fires and the
  consumer pointer differs from the one recorded at arming, the handler arms the
  watchdog again with the pointer it now reads and a timer of 10000 ms, and neither
  notifies nor recovers. When it fires and the pointer is unchanged, the handler
  notifies the idle-timeout event for the channel's id and runs the synchronous half of
  recovery for this channel with the engine at index 0 of the implementation's engine
  list, whatever engine the channel is bound to (that engine must exist, its device
  index \<open>e\<close> is the bit merged into the pending mask).
\<close>

theorem C6_watchdog:
  "(watchdog_inited ch \<longrightarrow> gk104_fifo_chan_timeout_start cur ch = ch)
   \<and> (channel priv c = Some ch \<and> watchdog_inited ch
        \<and> ro32_get h c \<noteq> watchdog_gpfifo_get ch \<longrightarrow>
      gk104_fifo_chan_timeout_work h dev priv c =
        Done (priv\<lparr>channel := (channel priv)(c \<mapsto>
                      ch\<lparr>watchdog_gpfifo_get := ro32_get h c,
                         watchdog_inited := True,
                         watchdog_work := schedule_delayed_work (watchdog_work ch)
                                            GRFIFO_CHAN_WATCHDOG_TIMEOUT_MS\<rparr>),
                   trace := trace priv @ [PmRuntimeGet] @
                            (if pm_usable h then [PmRuntimePut] else [])\<rparr>))
   \<and> (channel priv c = Some ch \<and> watchdog_inited ch
        \<and> ro32_get h c = watchdog_gpfifo_get ch
        \<and> gk104_fifo_engine dev 0 = Some e \<and> e < 64 \<longrightarrow>
      gk104_fifo_chan_timeout_work h dev priv c =
        Done (priv\<lparr>channel := (channel priv)(c \<mapsto>
                      ch\<lparr>watchdog_inited := False, state := KILLED\<rparr>),
                   priv_mask := priv_mask priv OR push_bit e 1,
                   fault_chan := Some c,
                   fault_unit := fault_unit priv OR 1,
                   mmu_fault := True,
                   trace := trace priv @
                     [PmRuntimeGet,
                      NvError ''Channel %d timed out\<newline>'' [chid ch],
                      Eevent (chid ch) FIFO_ERROR_IDLE_TIMEOUT,
                      NvError ''%s engine sched ctxsw timeout on channel %d\<newline>'' [e, chid ch],
                      Mask32 0x002140 0x10000100 0x00000000,
                      Wr32 0x002100 0x00000100,
                      Wr32 0x002a30 0x00000100] @
                     (if nv_wait h 0x002100 then []
                      else [NvError ''triggering mmu fault timed out\<newline>'' []]) @
                     [Wr32 0x002a30 0x00000000,
                      NvError ''%s engine mmu fault on channel %d\<newline>'' [e, chid ch],
                      Wr32 0x400500 (rd32 h 0x400500 AND NOT (push_bit 16 1) AND NOT (push_bit 0 1)),
                      ChanDisable (chid ch),
                      UeventFault (chid ch)] @
                     (if pm_usable h then [PmRuntimePut] else [])\<rparr>))"
  by (simp add: gk104_fifo_chan_timeout_work_def gk104_fifo_sched_ctxsw_recover_def
      gk104_fifo_mmu_fault_recover_def gk104_fifo_chan_timeout_start_def queue_work_def
      put_chan_def emit_def Let_def)

theorem C6_watchdog_witness:
  "watchdog_inited (ex_chan 0)
   \<and> gk104_fifo_chan_timeout_start 9 (ex_chan 0) = ex_chan 0
   \<and> channel ex_priv 0 = Some (ex_chan 0)
   \<and> ro32_get (ex_hw\<lparr>ro32_get := (\<lambda>c. 9)\<rparr>) 0 \<noteq> watchdog_gpfifo_get (ex_chan 0)
   \<and> gk104_fifo_chan_timeout_work (ex_hw\<lparr>ro32_get := (\<lambda>c. 9)\<rparr>) ex_dev
        (ex_priv\<lparr>channel := (channel ex_priv)(0 \<mapsto> (ex_chan 0)\<lparr>watchdog_work := None\<rparr>)\<rparr>) 0 =
       Done (ex_priv\<lparr>channel := (channel ex_priv)(0 \<mapsto>
                        (ex_chan 0)\<lparr>watchdog_gpfifo_get := 9, watchdog_work := Some 10000\<rparr>),
                      trace := [PmRuntimeGet, PmRuntimePut]\<rparr>)
   \<and> ro32_get ex_hw 0 = watchdog_gpfifo_get (ex_chan 0)
   \<and> gk104_fifo_engine ex_dev 0 = Some 2
   \<and> (\<exists>s. gk104_fifo_chan_timeout_work ex_hw ex_dev ex_priv 0 = Done s
         \<and> map_option state (channel s 0) = Some KILLED
         \<and> map_option state (channel s 1) = Some RUNNING
         \<and> priv_mask s = 4 \<and> fault_chan s = Some 0 \<and> mmu_fault s
         \<and> Eevent 0 FIFO_ERROR_IDLE_TIMEOUT \<in> set (trace s))"
  using C6_watchdog [of "ex_chan 0" 9 ex_priv 0 ex_hw ex_dev 2]
    C6_watchdog [of "(ex_chan 0)\<lparr>watchdog_work := None\<rparr>" 9
       "ex_priv\<lparr>channel := (channel ex_priv)(0 \<mapsto> (ex_chan 0)\<lparr>watchdog_work := None\<rparr>)\<rparr>" 0
       "ex_hw\<lparr>ro32_get := (\<lambda>c. 9)\<rparr>" ex_dev 2]
  by (simp add: ex_priv_def ex_chan_def ex_hw_def ex_dev_def gk104_fifo_engine_def
      schedule_delayed_work_def GRFIFO_CHAN_WATCHDOG_TIMEOUT_MS_def)

subsection \<open>Channel creation\<close>

text \<open>
  The search loop of the constructor returns the lowest index at or after \<open>i\<close> whose
  bit is requested and whose engine the device has, or the number of engines.
\<close>

lemma ctor_find_engine_spec:
  "i \<le> length (fifo_engines dev) \<Longrightarrow>
   i \<le> ctor_find_engine dev m i \<and> ctor_find_engine dev m i \<le> length (fifo_engines dev)
   \<and> (ctor_find_engine dev m i < length (fifo_engines dev) \<longrightarrow>
         bit m (ctor_find_engine dev m i) \<and> has_engine dev (fifo_engines dev ! ctor_find_engine dev m i))
   \<and> (\<forall>j. i \<le> j \<and> j < ctor_find_engine dev m i \<longrightarrow>
         \<not> (bit m j \<and> has_engine dev (fifo_engines dev ! j)))"
proof (induction dev m i rule: ctor_find_engine.induct)
  case (1 dev emask i)
  show ?case
  proof (cases "i < length (fifo_engines dev)")
    case False
    then have "ctor_find_engine dev emask i = i"
      by (subst ctor_find_engine.simps) simp
    with False "1.prems" show ?thesis by auto
  next
    case True
    show ?thesis
    proof (cases "bit emask i \<and> has_engine dev (fifo_engines dev ! i)")
      case hit: True
      with True have "ctor_find_engine dev emask i = i"
        by (subst ctor_find_engine.simps) (simp add: and_exp_eq_0_iff_not_bit)
      with True hit show ?thesis by auto
    next
      case miss: False
      with True have eq: "ctor_find_engine dev emask i = ctor_find_engine dev emask (i + 1)"
        by (subst ctor_find_engine.simps) (auto simp: and_exp_eq_0_iff_not_bit)
      from True miss have ih: "i + 1 \<le> ctor_find_engine dev emask (i + 1) \<and>
          ctor_find_engine dev emask (i + 1) \<le> length (fifo_engines dev) \<and>
          (ctor_find_engine dev emask (i + 1) < length (fifo_engines dev) \<longrightarrow>
             bit emask (ctor_find_engine dev emask (i + 1)) \<and>
             has_engine dev (fifo_engines dev ! ctor_find_engine dev emask (i + 1))) \<and>
          (\<forall>j. i + 1 \<le> j \<and> j < ctor_find_engine dev emask (i + 1) \<longrightarrow>
             \<not> (bit emask j \<and> has_engine dev (fifo_engines dev ! j)))"
        using "1.IH" by (simp add: and_exp_eq_0_iff_not_bit)
      have "\<forall>j. i \<le> j \<and> j < ctor_find_engine dev emask (i + 1) \<longrightarrow>
             \<not> (bit emask j \<and> has_engine dev (fifo_engines dev ! j))"
      proof (intro allI impI)
        fix j assume j: "i \<le> j \<and> j < ctor_find_engine dev emask (i + 1)"
        show "\<not> (bit emask j \<and> has_engine dev (fifo_engines dev ! j))"
        proof (cases "j = i")
          case True with miss show ?thesis by simp
        next
          case False with j ih show ?thesis by auto
        qed
      qed
      with ih show ?thesis unfolding eq by auto
    qed
  qed
qed



lemma ctor_find_engine_none:
  "(ctor_find_engine dev m 0 = length (fifo_engines dev)) =
     (\<forall>i < length (fifo_engines dev). \<not> (bit m i \<and> has_engine dev (fifo_engines dev ! i)))"
proof
  assume "ctor_find_engine dev m 0 = length (fifo_engines dev)"
  then show "\<forall>i < length (fifo_engines dev). \<not> (bit m i \<and> has_engine dev (fifo_engines dev ! i))"
    using ctor_find_engine_spec [of 0 dev m] by simp
next
  assume a: "\<forall>i < length (fifo_engines dev). \<not> (bit m i \<and> has_engine dev (fifo_engines dev ! i))"
  show "ctor_find_engine dev m 0 = length (fifo_engines dev)"
  proof (rule ccontr)
    assume "ctor_find_engine dev m 0 \<noteq> length (fifo_engines dev)"
    then have "ctor_find_engine dev m 0 < length (fifo_engines dev)"
      using ctor_find_engine_spec [of 0 dev m] by simp
    then show False
      using a ctor_find_engine_spec [of 0 dev m] by auto
  qed
qed

lemma ctor_no_engine:
  "ctor_find_engine dev (v0_engine args) 0 = length (fifo_engines dev) \<Longrightarrow>
   gk104_fifo_chan_ctor dev None created priv args =
     Failed ENODEV
       (priv\<lparr>trace := trace priv @
           [NvError ''unsupported engines 0x%08x\<newline>'' [unat (v0_engine args)]]\<rparr>, args)"
  by (simp add: gk104_fifo_chan_ctor_def emit_def)

lemma ctor_engine:
  "ctor_find_engine dev (v0_engine args) 0 \<noteq> length (fifo_engines dev) \<Longrightarrow>
   gk104_fifo_chan_ctor dev None created priv args =
     (case created of
        Inl err \<Rightarrow>
          Failed err (priv, args\<lparr>v0_engine := push_bit (ctor_find_engine dev (v0_engine args) 0) 1\<rparr>)
      | Inr cid \<Rightarrow>
          Done (priv\<lparr>channel := (channel priv)(cid \<mapsto>
                   \<lparr>chid = cid,
                    engine = of_nat (ctor_find_engine dev (v0_engine args) 0),
                    state = STOPPED, sum_ms = 0, limit_ms = 5000, gpfifo_get = 0,
                    watchdog_inited = False, watchdog_work = None,
                    watchdog_gpfifo_get = 0\<rparr>),
                  trace := trace priv @ [CtorProgram cid (v0_ioffset args) (v0_ilength args),
                                         BarFlush]\<rparr>,
                args\<lparr>v0_engine := push_bit (ctor_find_engine dev (v0_engine args) 0) 1,
                     v0_chid := cid\<rparr>))"
  by (simp add: gk104_fifo_chan_ctor_def Let_def emit_def put_chan_def new_chan_def
      GRFIFO_TIMEOUT_DEFAULT_def split: sum.split)


text \<open>
  C7: with accepted arguments (and a channel allocator that does not itself answer
  \<open>-ENODEV\<close>), channel creation fails with \<open>-ENODEV\<close> if and only if no index of
  the implementation's engine list is both requested in the engine mask and an engine
  the device has; it then leaves the channel table and the arguments as they were.
  Otherwise, once the allocator has handed out slot \<open>cid\<close>, the slot holds a channel
  bound to the lowest such index \<open>i\<close> (the engine mask written back is the single bit
  \<open>i\<close>), with a limit of 5000 ms, an accumulated stall of 0 and state \<open>STOPPED\<close>;
  no other slot changes.
\<close>

theorem C7_chan_ctor:
  assumes "created \<noteq> Inl ENODEV"
  shows "((\<exists>s. gk104_fifo_chan_ctor dev None created priv args = Failed ENODEV s)
            \<longleftrightarrow> (\<forall>i < length (fifo_engines dev).
                   \<not> (bit (v0_engine args) i \<and> has_engine dev (fifo_engines dev ! i))))
         \<and> ((\<forall>i < length (fifo_engines dev).
                \<not> (bit (v0_engine args) i \<and> has_engine dev (fifo_engines dev ! i))) \<longrightarrow>
             gk104_fifo_chan_ctor dev None created priv args =
               Failed ENODEV
                 (priv\<lparr>trace := trace priv @
                    [NvError ''unsupported engines 0x%08x\<newline>'' [unat (v0_engine args)]]\<rparr>,
                  args))
         \<and> (\<forall>cid. created = Inr cid \<and>
               (\<exists>i < length (fifo_engines dev).
                   bit (v0_engine args) i \<and> has_engine dev (fifo_engines dev ! i)) \<longrightarrow>
               (\<exists>i ch priv' args'.
                  gk104_fifo_chan_ctor dev None created priv args = Done (priv', args')
                  \<and> i < length (fifo_engines dev)
                  \<and> bit (v0_engine args) i \<and> has_engine dev (fifo_engines dev ! i)
                  \<and> (\<forall>j < i. \<not> (bit (v0_engine args) j \<and> has_engine dev (fifo_engines dev ! j)))
                  \<and> channel priv' cid = Some ch
                  \<and> (\<forall>k. k \<noteq> cid \<longrightarrow> channel priv' k = channel priv k)
                  \<and> engine ch = of_nat i
                  \<and> v0_engine args' = push_bit i 1
                  \<and> v0_chid args' = cid
                  \<and> limit_ms ch = 5000 \<and> sum_ms ch = 0 \<and> state ch = STOPPED))"
    (is "(?fails = ?none) \<and> (?none \<longrightarrow> ?enodev) \<and> (\<forall>cid. ?ok cid \<and> ?some \<longrightarrow> ?made cid)")
proof -
  let ?n = "length (fifo_engines dev)"
  let ?r = "ctor_find_engine dev (v0_engine args) 0"
  have spec: "?r \<le> ?n
     \<and> (?r < ?n \<longrightarrow> bit (v0_engine args) ?r \<and> has_engine dev (fifo_engines dev ! ?r))
     \<and> (\<forall>j. j < ?r \<longrightarrow> \<not> (bit (v0_engine args) j \<and> has_engine dev (fifo_engines dev ! j)))"
    using ctor_find_engine_spec [of 0 dev "v0_engine args"] by simp
  show ?thesis
  proof (cases "?r = ?n")
    case True
    then have none: ?none
      by (simp add: ctor_find_engine_none)
    have run: ?enodev
      using True by (rule ctor_no_engine)
    from none have no_ex: "\<not> ?some"
      by blast
    have A: "?fails = ?none"
      using none run by simp
    have B: "?none \<longrightarrow> ?enodev"
      using run by simp
    have C: "\<forall>cid. ?ok cid \<and> ?some \<longrightarrow> ?made cid"
    proof (intro allI impI)
      fix cid
      assume "?ok cid \<and> ?some"
      then have ?some
        by (rule conjunct2)
      with no_ex show "?made cid"
        by (rule notE)
    qed
    from A B C show ?thesis
      by (intro conjI)
  next
    case False
    then have some: "\<not> ?none"
      by (simp add: ctor_find_engine_none)
    from False spec have lt: "?r < ?n"
      by simp
    have run: "gk104_fifo_chan_ctor dev None created priv args =
     (case created of
        Inl err \<Rightarrow>
          Failed err (priv, args\<lparr>v0_engine := push_bit ?r 1\<rparr>)
      | Inr cid \<Rightarrow>
          Done (priv\<lparr>channel := (channel priv)(cid \<mapsto>
                   \<lparr>chid = cid, engine = of_nat ?r,
                    state = STOPPED, sum_ms = 0, limit_ms = 5000, gpfifo_get = 0,
                    watchdog_inited = False, watchdog_work = None,
                    watchdog_gpfifo_get = 0\<rparr>),
                  trace := trace priv @ [CtorProgram cid (v0_ioffset args) (v0_ilength args),
                                         BarFlush]\<rparr>,
                args\<lparr>v0_engine := push_bit ?r 1, v0_chid := cid\<rparr>))"
      using False by (rule ctor_engine)
    have "\<not> ?fails"
      using assms by (simp only: run) (auto split: sum.split)
    with some have A: "?fails = ?none"
      by simp
    have B: "?none \<longrightarrow> ?enodev"
    proof
      assume ?none
      with some show ?enodev
        by (rule notE)
    qed
    have C: "\<forall>cid. ?ok cid \<and> ?some \<longrightarrow> ?made cid"
    proof (intro allI impI)
      fix cid
      assume "?ok cid \<and> ?some"
      then have c: "created = Inr cid" by simp
      let ?ch = "\<lparr>chid = cid, engine = of_nat ?r,
                    state = STOPPED, sum_ms = 0, limit_ms = 5000, gpfifo_get = 0,
                    watchdog_inited = False, watchdog_work = None,
                    watchdog_gpfifo_get = 0\<rparr>"
      let ?p = "priv\<lparr>channel := (channel priv)(cid \<mapsto> ?ch),
                  trace := trace priv @ [CtorProgram cid (v0_ioffset args) (v0_ilength args),
                                         BarFlush]\<rparr>"
      let ?a = "args\<lparr>v0_engine := push_bit ?r 1, v0_chid := cid\<rparr>"
      from run c have run_c: "gk104_fifo_chan_ctor dev None created priv args = Done (?p, ?a)"
        by simp
      have "gk104_fifo_chan_ctor dev None created priv args = Done (?p, ?a)
                  \<and> ?r < ?n
                  \<and> bit (v0_engine args) ?r \<and> has_engine dev (fifo_engines dev ! ?r)
                  \<and> (\<forall>j < ?r. \<not> (bit (v0_engine args) j \<and> has_engine dev (fifo_engines dev ! j)))
                  \<and> channel ?p cid = Some ?ch
                  \<and> (\<forall>k. k \<noteq> cid \<longrightarrow> channel ?p k = channel priv k)
                  \<and> engine ?ch = of_nat ?r
                  \<and> v0_engine ?a = push_bit ?r 1
                  \<and> v0_chid ?a = cid
                  \<and> limit_ms ?ch = 5000 \<and> sum_ms ?ch = 0 \<and> state ?ch = STOPPED"
        using run_c spec lt by simp
      then show "?made cid"
        by (intro exI [of _ ?r] exI [of _ ?ch] exI [of _ ?p] exI [of _ ?a])
    qed
    from A B C show ?thesis
      by (intro conjI)
  qed
qed

theorem C7_chan_ctor_witness:
  "(Inr 2 :: errno + nat) \<noteq> Inl ENODEV
   \<and> gk104_fifo_chan_ctor ex_dev None (Inr 2) ex_priv (ex_args 2) =
      Failed ENODEV
        (ex_priv\<lparr>trace := [NvError ''unsupported engines 0x%08x\<newline>'' [2]]\<rparr>, ex_args 2)
   \<and> (\<exists>ch priv' args'.
        gk104_fifo_chan_ctor ex_dev None (Inr 2) ex_priv (ex_args 3) = Done (priv', args')
        \<and> channel priv' 2 = Some ch \<and> engine ch = 0 \<and> v0_engine args' = 1
        \<and> limit_ms ch = 5000 \<and> sum_ms ch = 0)"
proof -
  have ne: "(Inr 2 :: errno + nat) \<noteq> Inl ENODEV"
    by simp
  have none: "\<forall>i < length (fifo_engines ex_dev).
                \<not> (bit (v0_engine (ex_args 2)) i \<and> has_engine ex_dev (fifo_engines ex_dev ! i))"
    by (simp add: ex_dev_def ex_args_def less_Suc_eq)
  have p0: "bit (v0_engine (ex_args 3)) 0 \<and> has_engine ex_dev (fifo_engines ex_dev ! 0)"
    by (simp add: ex_dev_def ex_args_def)
  then have some: "\<exists>i < length (fifo_engines ex_dev).
                bit (v0_engine (ex_args 3)) i \<and> has_engine ex_dev (fifo_engines ex_dev ! i)"
    by (intro exI [of _ 0]) (simp add: ex_dev_def)
  have r1: "gk104_fifo_chan_ctor ex_dev None (Inr 2) ex_priv (ex_args 2) =
      Failed ENODEV
        (ex_priv\<lparr>trace := [NvError ''unsupported engines 0x%08x\<newline>'' [2]]\<rparr>, ex_args 2)"
    using C7_chan_ctor [OF ne, where dev = ex_dev and priv = ex_priv and args = "ex_args 2"] none
    by (simp add: ex_priv_def ex_args_def)
  have "(Inr 2 :: errno + nat) = Inr 2 \<and>
        (\<exists>i < length (fifo_engines ex_dev).
            bit (v0_engine (ex_args 3)) i \<and> has_engine ex_dev (fifo_engines ex_dev ! i))"
    using some by simp
  then have "\<exists>i ch priv' args'.
      gk104_fifo_chan_ctor ex_dev None (Inr 2) ex_priv (ex_args 3) = Done (priv', args')
      \<and> i < length (fifo_engines ex_dev)
      \<and> bit (v0_engine (ex_args 3)) i \<and> has_engine ex_dev (fifo_engines ex_dev ! i)
      \<and> (\<forall>j < i. \<not> (bit (v0_engine (ex_args 3)) j \<and> has_engine ex_dev (fifo_engines ex_dev ! j)))
      \<and> channel priv' 2 = Some ch
      \<and> (\<forall>k. k \<noteq> 2 \<longrightarrow> channel priv' k = channel ex_priv k)
      \<and> engine ch = of_nat i
      \<and> v0_engine args' = push_bit i 1
      \<and> v0_chid args' = 2
      \<and> limit_ms ch = 5000 \<and> sum_ms ch = 0 \<and> state ch = STOPPED"
    by (rule C7_chan_ctor [OF ne, where dev = ex_dev and priv = ex_priv and args = "ex_args 3",
          THEN conjunct2, THEN conjunct2, THEN spec, THEN mp])
  then obtain i ch priv' args' where r2:
      "gk104_fifo_chan_ctor ex_dev None (Inr 2) ex_priv (ex_args 3) = Done (priv', args')"
      "\<forall>j < i. \<not> (bit (v0_engine (ex_args 3)) j \<and> has_engine ex_dev (fifo_engines ex_dev ! j))"
      "channel priv' 2 = Some ch" "engine ch = of_nat i" "v0_engine args' = push_bit i 1"
      "limit_ms ch = 5000" "sum_ms ch = 0"
    by (elim exE conjE)
  from r2(2) p0 have "i = 0"
    by (cases "i = 0") auto
  with r2 have "gk104_fifo_chan_ctor ex_dev None (Inr 2) ex_priv (ex_args 3) = Done (priv', args')
        \<and> channel priv' 2 = Some ch \<and> engine ch = 0 \<and> v0_engine args' = 1
        \<and> limit_ms ch = 5000 \<and> sum_ms ch = 0"
    by simp
  then have "\<exists>ch priv' args'.
        gk104_fifo_chan_ctor ex_dev None (Inr 2) ex_priv (ex_args 3) = Done (priv', args')
        \<and> channel priv' 2 = Some ch \<and> engine ch = 0 \<and> v0_engine args' = 1
        \<and> limit_ms ch = 5000 \<and> sum_ms ch = 0"
    by (intro exI)
  with ne r1 show ?thesis
    by (intro conjI)
qed

subsection \<open>The watchdog restart scan\<close>

text \<open>
  One iteration of the scan, with the work-queue calls evaluated: an armed channel whose
  work is not pending ends the scan with false; an armed channel whose work is pending
  has it cancelled and, unless it is the exception, queued again with the full timeout.
\<close>

lemma restart_all_loop_step:
  "restart_all_loop exc (i # ids) chans =
     (case chans i of
        None \<Rightarrow> restart_all_loop exc ids chans
      | Some ch \<Rightarrow>
          if \<not> watchdog_inited ch then restart_all_loop exc ids chans
          else if watchdog_work ch = None then (False, chans)
          else restart_all_loop exc ids
                 (chans(i \<mapsto> ch\<lparr>watchdog_work :=
                    if i = exc then None else Some GRFIFO_CHAN_WATCHDOG_TIMEOUT_MS\<rparr>)))"
proof (cases "chans i")
  case None
  then show ?thesis by simp
next
  case (Some ch)
  show ?thesis
  proof (cases "watchdog_work ch")
    case None
    then have "ch\<lparr>watchdog_work := None\<rparr> = ch"
      by simp
    then have "chans(i \<mapsto> ch\<lparr>watchdog_work := None\<rparr>) = chans"
      using Some by (simp add: fun_upd_idem)
    with Some None show ?thesis
      by (simp add: cancel_delayed_work_def)
  next
    case pend: (Some t)
    with Some show ?thesis
      by (simp add: cancel_delayed_work_def schedule_delayed_work_def)
  qed
qed

lemma restart_all_loop_outside:
  "j \<notin> set ids \<Longrightarrow> snd (restart_all_loop exc ids chans) j = chans j"
proof (induction ids arbitrary: chans)
  case Nil
  show ?case by simp
next
  case (Cons i ids)
  then have j: "j \<noteq> i" "j \<notin> set ids"
    by auto
  show ?case
    unfolding restart_all_loop_step
    using j Cons.IH by (simp split: option.split)
qed

lemma watchdog_work_same: "\<exists>w. ch = ch\<lparr>watchdog_work := w\<rparr>"
  by (rule exI [of _ "watchdog_work ch"]) simp

lemma restart_all_loop_frame:
  "(chans j = None \<longrightarrow> snd (restart_all_loop exc ids chans) j = None)
   \<and> (\<forall>ch. chans j = Some ch \<longrightarrow>
         (\<exists>w. snd (restart_all_loop exc ids chans) j = Some (ch\<lparr>watchdog_work := w\<rparr>)))"
proof (induction ids arbitrary: chans)
  case Nil
  show ?case
    by (simp add: watchdog_work_same)
next
  case (Cons i ids)
  show ?case
  proof (cases "chans i")
    case None
    then show ?thesis
      unfolding restart_all_loop_step using Cons.IH [of chans] by simp
  next
    case (Some ch)
    show ?thesis
    proof (cases "\<not> watchdog_inited ch")
      case True
      with Some show ?thesis
        unfolding restart_all_loop_step using Cons.IH [of chans] by simp
    next
      case armed: False
      show ?thesis
      proof (cases "watchdog_work ch = None")
        case True
        with Some armed show ?thesis
          unfolding restart_all_loop_step by (simp add: watchdog_work_same)
      next
        case False
        define W where "W = (if i = exc then None else Some GRFIFO_CHAN_WATCHDOG_TIMEOUT_MS)"
        define c where "c = chans(i \<mapsto> ch\<lparr>watchdog_work := W\<rparr>)"
        have ci: "c i = Some (ch\<lparr>watchdog_work := W\<rparr>)"
          by (simp add: c_def)
        have cj: "j \<noteq> i \<Longrightarrow> c j = chans j"
          by (simp add: c_def)
        have run: "restart_all_loop exc (i # ids) chans = restart_all_loop exc ids c"
          unfolding restart_all_loop_step c_def W_def using Some armed False by auto
        note ih = Cons.IH [of c]
        show ?thesis
        proof (cases "j = i")
          case True
          from ih ci True obtain w where
            "snd (restart_all_loop exc ids c) j = Some (ch\<lparr>watchdog_work := W\<rparr>\<lparr>watchdog_work := w\<rparr>)"
            by blast
          then have "snd (restart_all_loop exc ids c) j = Some (ch\<lparr>watchdog_work := w\<rparr>)"
            by simp
          with True Some show ?thesis
            unfolding run by auto
        next
          case False
          with ih cj show ?thesis
            unfolding run by simp
        qed
      qed
    qed
  qed
qed


lemma restart_all_loop_ok:
  "distinct ids \<Longrightarrow>
   (\<forall>i \<in> set ids. \<forall>ch. chans i = Some ch \<and> watchdog_inited ch \<longrightarrow> watchdog_work ch \<noteq> None) \<Longrightarrow>
   fst (restart_all_loop exc ids chans)
   \<and> (\<forall>j \<in> set ids. \<forall>ch. chans j = Some ch \<longrightarrow>
         snd (restart_all_loop exc ids chans) j =
           Some (if watchdog_inited ch
                 then ch\<lparr>watchdog_work :=
                        if j = exc then None else Some GRFIFO_CHAN_WATCHDOG_TIMEOUT_MS\<rparr>
                 else ch))"
proof (induction ids arbitrary: chans)
  case Nil
  show ?case by simp
next
  case (Cons i ids)
  from Cons.prems have d: "i \<notin> set ids" "distinct ids"
    by auto
  from Cons.prems have oki: "\<forall>ch. chans i = Some ch \<and> watchdog_inited ch \<longrightarrow> watchdog_work ch \<noteq> None"
    by simp
  from Cons.prems have okr:
    "\<forall>i \<in> set ids. \<forall>ch. chans i = Some ch \<and> watchdog_inited ch \<longrightarrow> watchdog_work ch \<noteq> None"
    by simp
  show ?case
  proof (cases "\<exists>ch. chans i = Some ch \<and> watchdog_inited ch")
    case False
    then have run: "restart_all_loop exc (i # ids) chans = restart_all_loop exc ids chans"
      unfolding restart_all_loop_step by (auto split: option.split)
    have here: "snd (restart_all_loop exc ids chans) i = chans i"
      using d(1) by (rule restart_all_loop_outside)
    from Cons.IH [OF d(2) okr] here False show ?thesis
      unfolding run by auto
  next
    case True
    then obtain ch where ch: "chans i = Some ch" "watchdog_inited ch"
      by blast
    with oki have pend: "watchdog_work ch \<noteq> None"
      by blast
    define W where "W = (if i = exc then None else Some GRFIFO_CHAN_WATCHDOG_TIMEOUT_MS)"
    define c where "c = chans(i \<mapsto> ch\<lparr>watchdog_work := W\<rparr>)"
    have ci: "c i = Some (ch\<lparr>watchdog_work := W\<rparr>)"
      by (simp add: c_def)
    have cj: "\<And>j. j \<in> set ids \<Longrightarrow> c j = chans j"
      using d(1) by (auto simp: c_def)
    have run: "restart_all_loop exc (i # ids) chans = restart_all_loop exc ids c"
      unfolding restart_all_loop_step c_def W_def using ch pend by auto
    have okc: "\<forall>i \<in> set ids. \<forall>ch. c i = Some ch \<and> watchdog_inited ch \<longrightarrow> watchdog_work ch \<noteq> None"
      using okr cj by simp
    have here: "snd (restart_all_loop exc ids c) i = c i"
      using d(1) by (rule restart_all_loop_outside)
    from Cons.IH [OF d(2) okc] have ih: "fst (restart_all_loop exc ids c)"
      "\<And>j ch. j \<in> set ids \<Longrightarrow> chans j = Some ch \<Longrightarrow>
         snd (restart_all_loop exc ids c) j =
           Some (if watchdog_inited ch
                 then ch\<lparr>watchdog_work :=
                        if j = exc then None else Some GRFIFO_CHAN_WATCHDOG_TIMEOUT_MS\<rparr>
                 else ch)"
      using cj by auto
    show ?thesis
      unfolding run using ih here ci ch by (auto simp: W_def)
  qed
qed

lemma restart_all_loop_fail:
  "distinct (pre @ k # post) \<Longrightarrow>
   (\<forall>i \<in> set pre. \<forall>ch. chans i = Some ch \<and> watchdog_inited ch \<longrightarrow> watchdog_work ch \<noteq> None) \<Longrightarrow>
   chans k = Some chk \<Longrightarrow> watchdog_inited chk \<Longrightarrow> watchdog_work chk = None \<Longrightarrow>
   restart_all_loop exc (pre @ k # post) chans = (False, snd (restart_all_loop exc pre chans))"
proof (induction pre arbitrary: chans)
  case Nil
  then show ?case
    unfolding append_Nil restart_all_loop_step by simp
next
  case (Cons i pre)
  from Cons.prems have d: "i \<notin> set pre" "i \<noteq> k" "distinct (pre @ k # post)"
    by auto
  from Cons.prems have oki: "\<forall>ch. chans i = Some ch \<and> watchdog_inited ch \<longrightarrow> watchdog_work ch \<noteq> None"
    by simp
  from Cons.prems have okr:
    "\<forall>i \<in> set pre. \<forall>ch. chans i = Some ch \<and> watchdog_inited ch \<longrightarrow> watchdog_work ch \<noteq> None"
    by simp
  show ?case
  proof (cases "\<exists>ch. chans i = Some ch \<and> watchdog_inited ch")
    case False
    then have run: "\<And>ids. restart_all_loop exc (i # ids) chans = restart_all_loop exc ids chans"
      unfolding restart_all_loop_step by (auto split: option.split)
    from Cons.IH [OF d(3) okr Cons.prems(3) Cons.prems(4) Cons.prems(5)] show ?thesis
      unfolding append_Cons run .
  next
    case True
    then obtain ch where ch: "chans i = Some ch" "watchdog_inited ch"
      by blast
    with oki have pend: "watchdog_work ch \<noteq> None"
      by blast
    define W where "W = (if i = exc then None else Some GRFIFO_CHAN_WATCHDOG_TIMEOUT_MS)"
    define c where "c = chans(i \<mapsto> ch\<lparr>watchdog_work := W\<rparr>)"
    have cj: "\<And>j. j \<noteq> i \<Longrightarrow> c j = chans j"
      by (auto simp: c_def)
    have run: "\<And>ids. restart_all_loop exc (i # ids) chans = restart_all_loop exc ids c"
      unfolding restart_all_loop_step c_def W_def using ch pend by auto
    have cp: "\<And>j. j \<in> set pre \<Longrightarrow> c j = chans j"
      using d(1) by (auto simp: c_def)
    have okc: "\<forall>i \<in> set pre. \<forall>ch. c i = Some ch \<and> watchdog_inited ch \<longrightarrow> watchdog_work ch \<noteq> None"
      using okr cp by simp
    have ck: "c k = Some chk"
      using cj [of k] d(2) Cons.prems(3) by simp
    from Cons.IH [OF d(3) okc ck Cons.prems(4) Cons.prems(5)] show ?thesis
      unfolding append_Cons run .
  qed
qed

lemma restart_all_loop_fst:
  assumes "distinct ids"
  shows "fst (restart_all_loop exc ids chans) =
     (\<forall>i \<in> set ids. \<forall>ch. chans i = Some ch \<and> watchdog_inited ch \<longrightarrow> watchdog_work ch \<noteq> None)"
proof (cases "\<forall>i \<in> set ids. \<forall>ch. chans i = Some ch \<and> watchdog_inited ch \<longrightarrow> watchdog_work ch \<noteq> None")
  case True
  with restart_all_loop_ok [OF assms True, of exc] show ?thesis
    by simp
next
  case False
  then have "\<exists>i \<in> set ids. \<not> (\<forall>ch. chans i = Some ch \<and> watchdog_inited ch \<longrightarrow> watchdog_work ch \<noteq> None)"
    by simp
  then obtain pre k post where sp: "ids = pre @ k # post"
      "\<not> (\<forall>ch. chans k = Some ch \<and> watchdog_inited ch \<longrightarrow> watchdog_work ch \<noteq> None)"
      "\<forall>i \<in> set pre. \<not> \<not> (\<forall>ch. chans i = Some ch \<and> watchdog_inited ch \<longrightarrow> watchdog_work ch \<noteq> None)"
    by (rule split_list_first_propE) blast
  from sp(2) obtain chk where k: "chans k = Some chk" "watchdog_inited chk" "watchdog_work chk = None"
    by blast
  from sp(3) have okp:
    "\<forall>i \<in> set pre. \<forall>ch. chans i = Some ch \<and> watchdog_inited ch \<longrightarrow> watchdog_work ch \<noteq> None"
    by simp
  from assms sp(1) have "distinct (pre @ k # post)"
    by simp
  from restart_all_loop_fail [OF this okp k, of exc] False show ?thesis
    unfolding sp(1) by simp
qed

lemma restart_all_split:
  "gk104_fifo_chan_timeout_restart_all priv exc =
     (fst (restart_all_loop exc [min_chid priv..<max_chid priv] (channel priv)),
      priv\<lparr>channel := snd (restart_all_loop exc [min_chid priv..<max_chid priv] (channel priv))\<rparr>)"
  by (simp add: gk104_fifo_chan_timeout_restart_all_def split_beta)

text \<open>
  C10, as stated, on the sample table: the scan for the stalled channel 2 cancels and
  queues again the watchdog of channel 0, then fails to cancel the one of channel 1 and
  returns false. Channel 0, visited earlier in the scan, is left with its work pending
  on a fresh timer of 10000 ms; it has been rescheduled.
\<close>

theorem C10_rescheduled_counterexample:
  "fst (gk104_fifo_chan_timeout_restart_all ex_stuck 2) = False
   \<and> map_option watchdog_work (channel ex_stuck 0) = Some (Some 3000)
   \<and> map_option watchdog_work (channel (snd (gk104_fifo_chan_timeout_restart_all ex_stuck 2)) 0)
       = Some (Some 10000)"
proof -
  have ids: "[min_chid ex_stuck..<max_chid ex_stuck] = [0, 1, 2]"
    by (simp add: ex_stuck_def ex_priv_def upt_rec)
  show ?thesis
    unfolding restart_all_split ids
    by (simp add: ex_stuck_def ex_priv_def ex_chan_def
        cancel_delayed_work_def schedule_delayed_work_def GRFIFO_CHAN_WATCHDOG_TIMEOUT_MS_def)
qed

text \<open>
  C10, amended: the restart scan touches no slot outside
  \<open>min_chid \<le> i < max_chid\<close>, so it never visits the slot with the highest id.
  If \<open>k\<close> is the first scanned slot whose watchdog is armed while its work is not
  pending, the scan returns false at \<open>k\<close>: slot \<open>k\<close> and every later slot are as
  before, and every armed channel visited before \<open>k\<close> has had its work cancelled and
  then queued again with the full 10000 ms timeout (only the exception channel is left
  cancelled). The escalation path then does not run recovery for the stalled channel:
  it returns having only notified the idle-timeout event, with every channel's state,
  the fault record and the recovery work item unchanged.
\<close>

theorem C10_restart_all:
  "(\<forall>i. i < min_chid priv \<or> max_chid priv \<le> i \<longrightarrow>
        channel (snd (gk104_fifo_chan_timeout_restart_all priv exception)) i = channel priv i)
   \<and> (min_chid priv \<le> k \<and> k < max_chid priv
       \<and> channel priv k = Some chk \<and> watchdog_inited chk \<and> watchdog_work chk = None
       \<and> (\<forall>i. min_chid priv \<le> i \<and> i < k \<longrightarrow>
             (\<forall>ch. channel priv i = Some ch \<and> watchdog_inited ch \<longrightarrow> watchdog_work ch \<noteq> None))
       \<longrightarrow>
         fst (gk104_fifo_chan_timeout_restart_all priv exception) = False
         \<and> (\<forall>i. i < min_chid priv \<or> k \<le> i \<longrightarrow>
               channel (snd (gk104_fifo_chan_timeout_restart_all priv exception)) i
                 = channel priv i)
         \<and> (\<forall>i ch. min_chid priv \<le> i \<and> i < k \<and> channel priv i = Some ch \<longrightarrow>
               channel (snd (gk104_fifo_chan_timeout_restart_all priv exception)) i =
                 Some (if watchdog_inited ch
                       then ch\<lparr>watchdog_work :=
                              if i = exception then None
                              else Some GRFIFO_CHAN_WATCHDOG_TIMEOUT_MS\<rparr>
                       else ch))
         \<and> (\<exists>s. ctxsw_escalate h priv eng exception = Done s
               \<and> channel s = channel (snd (gk104_fifo_chan_timeout_restart_all priv exception))
               \<and> (\<forall>i. map_option state (channel s i) = map_option state (channel priv i))
               \<and> priv_mask s = priv_mask priv \<and> fault_chan s = fault_chan priv
               \<and> fault_unit s = fault_unit priv \<and> mmu_fault s = mmu_fault priv
               \<and> trace s = trace priv @ [Eevent exception FIFO_ERROR_IDLE_TIMEOUT]))"
    (is "?range \<and> (?pre \<longrightarrow> ?post)")
proof (rule conjI)
  show ?range
    by (simp add: restart_all_split restart_all_loop_outside)
next
  show "?pre \<longrightarrow> ?post"
  proof (rule impI)
  assume pre: ?pre
  let ?ids = "[min_chid priv..<max_chid priv]"
  let ?R = "restart_all_loop exception ?ids (channel priv)"
  from pre have k: "min_chid priv \<le> k" "k < max_chid priv"
    and chk: "channel priv k = Some chk" "watchdog_inited chk" "watchdog_work chk = None"
    by simp_all
  from pre have okp: "\<forall>i \<in> set [min_chid priv..<k]. \<forall>ch.
      channel priv i = Some ch \<and> watchdog_inited ch \<longrightarrow> watchdog_work ch \<noteq> None"
    by simp
  have ids: "?ids = [min_chid priv..<k] @ k # [Suc k..<max_chid priv]"
    using k by (metis le_Suc_ex less_imp_le_nat upt_add_eq_append upt_conv_Cons)
  have dist: "distinct ([min_chid priv..<k] @ k # [Suc k..<max_chid priv])"
    unfolding ids [symmetric] by simp
  have R: "?R = (False, snd (restart_all_loop exception [min_chid priv..<k] (channel priv)))"
    unfolding ids using restart_all_loop_fail [OF dist okp chk] .
  have dpre: "distinct [min_chid priv..<k]"
    by simp
  note vals = restart_all_loop_ok [OF dpre okp, of exception, THEN conjunct2]
  have f: "fst (gk104_fifo_chan_timeout_restart_all priv exception) = False"
    by (simp add: restart_all_split R)
  have ch: "channel (snd (gk104_fifo_chan_timeout_restart_all priv exception)) =
            snd (restart_all_loop exception [min_chid priv..<k] (channel priv))"
    by (simp add: restart_all_split R)
  have out: "\<forall>i. i < min_chid priv \<or> k \<le> i \<longrightarrow>
               channel (snd (gk104_fifo_chan_timeout_restart_all priv exception)) i
                 = channel priv i"
    unfolding ch by (simp add: restart_all_loop_outside)
  have inn: "\<forall>i ch. min_chid priv \<le> i \<and> i < k \<and> channel priv i = Some ch \<longrightarrow>
               channel (snd (gk104_fifo_chan_timeout_restart_all priv exception)) i =
                 Some (if watchdog_inited ch
                       then ch\<lparr>watchdog_work :=
                              if i = exception then None
                              else Some GRFIFO_CHAN_WATCHDOG_TIMEOUT_MS\<rparr>
                       else ch)"
    unfolding ch using vals by simp
  have st: "\<forall>i. map_option state
                 (snd (restart_all_loop exception [min_chid priv..<k] (channel priv)) i)
               = map_option state (channel priv i)"
  proof
    fix i
    show "map_option state
                 (snd (restart_all_loop exception [min_chid priv..<k] (channel priv)) i)
               = map_option state (channel priv i)"
      using restart_all_loop_frame [of "channel priv" i exception "[min_chid priv..<k]"]
      by (cases "channel priv i") auto
  qed
  have esc: "\<exists>s. ctxsw_escalate h priv eng exception = Done s
               \<and> channel s = channel (snd (gk104_fifo_chan_timeout_restart_all priv exception))
               \<and> (\<forall>i. map_option state (channel s i) = map_option state (channel priv i))
               \<and> priv_mask s = priv_mask priv \<and> fault_chan s = fault_chan priv
               \<and> fault_unit s = fault_unit priv \<and> mmu_fault s = mmu_fault priv
               \<and> trace s = trace priv @ [Eevent exception FIFO_ERROR_IDLE_TIMEOUT]"
    using st by (simp add: ctxsw_escalate_def Let_def restart_all_split emit_def R)
  from f out inn esc show ?post
    by (intro conjI)
  qed
qed


theorem C10_restart_all_witness:
  "min_chid ex_stuck \<le> 1 \<and> 1 < max_chid ex_stuck
   \<and> channel ex_stuck 1 = Some ((ex_chan 1)\<lparr>watchdog_work := None\<rparr>)
   \<and> watchdog_inited ((ex_chan 1)\<lparr>watchdog_work := None\<rparr>)
   \<and> fst (gk104_fifo_chan_timeout_restart_all ex_stuck 2) = False
   \<and> channel (snd (gk104_fifo_chan_timeout_restart_all ex_stuck 2)) 0
       = Some ((ex_chan 0)\<lparr>watchdog_work := Some 10000\<rparr>)
   \<and> channel (snd (gk104_fifo_chan_timeout_restart_all ex_stuck 2)) 2 = channel ex_stuck 2
   \<and> channel (snd (gk104_fifo_chan_timeout_restart_all ex_stuck 2)) 3 = channel ex_stuck 3
   \<and> (\<exists>s. ctxsw_escalate ex_hw ex_stuck 2 2 = Done s
         \<and> map_option state (channel s 2) = Some RUNNING
         \<and> mmu_fault s = False
         \<and> trace s = [Eevent 2 FIFO_ERROR_IDLE_TIMEOUT])"
proof -
  let ?chk = "(ex_chan 1)\<lparr>watchdog_work := None\<rparr>"
  have h1: "min_chid ex_stuck \<le> 1 \<and> 1 < max_chid ex_stuck"
    by (simp add: ex_stuck_def ex_priv_def)
  have h2: "channel ex_stuck 1 = Some ?chk"
    by (simp add: ex_stuck_def)
  have h3: "watchdog_inited ?chk \<and> watchdog_work ?chk = None"
    by (simp add: ex_chan_def)
  have h4: "\<forall>i. min_chid ex_stuck \<le> i \<and> i < 1 \<longrightarrow>
             (\<forall>ch. channel ex_stuck i = Some ch \<and> watchdog_inited ch \<longrightarrow> watchdog_work ch \<noteq> None)"
    by (simp add: ex_stuck_def ex_chan_def)
  have pre: "min_chid ex_stuck \<le> 1 \<and> 1 < max_chid ex_stuck
       \<and> channel ex_stuck 1 = Some ?chk \<and> watchdog_inited ?chk \<and> watchdog_work ?chk = None
       \<and> (\<forall>i. min_chid ex_stuck \<le> i \<and> i < 1 \<longrightarrow>
             (\<forall>ch. channel ex_stuck i = Some ch \<and> watchdog_inited ch \<longrightarrow> watchdog_work ch \<noteq> None))"
    using h1 h2 h3 h4 by (intro conjI) simp_all
  note post = C10_restart_all [where priv = ex_stuck and exception = 2 and k = 1 and chk = ?chk
      and h = ex_hw and eng = 2, THEN conjunct2, THEN mp, OF pre]
  from post have f: "fst (gk104_fifo_chan_timeout_restart_all ex_stuck 2) = False"
    by (rule conjunct1)
  from post have out: "\<forall>i. i < min_chid ex_stuck \<or> 1 \<le> i \<longrightarrow>
      channel (snd (gk104_fifo_chan_timeout_restart_all ex_stuck 2)) i = channel ex_stuck i"
    by (rule conjunct2 [THEN conjunct1])
  from post have inn: "\<forall>i ch. min_chid ex_stuck \<le> i \<and> i < 1 \<and> channel ex_stuck i = Some ch \<longrightarrow>
               channel (snd (gk104_fifo_chan_timeout_restart_all ex_stuck 2)) i =
                 Some (if watchdog_inited ch
                       then ch\<lparr>watchdog_work :=
                              if i = 2 then None
                              else Some GRFIFO_CHAN_WATCHDOG_TIMEOUT_MS\<rparr>
                       else ch)"
    by (rule conjunct2 [THEN conjunct2, THEN conjunct1])
  from post obtain s where s: "ctxsw_escalate ex_hw ex_stuck 2 2 = Done s"
      "\<forall>i. map_option state (channel s i) = map_option state (channel ex_stuck i)"
      "mmu_fault s = mmu_fault ex_stuck"
      "trace s = trace ex_stuck @ [Eevent 2 FIFO_ERROR_IDLE_TIMEOUT]"
    by (elim conjE exE)
  have c0: "channel (snd (gk104_fifo_chan_timeout_restart_all ex_stuck 2)) 0
       = Some ((ex_chan 0)\<lparr>watchdog_work := Some 10000\<rparr>)"
    using inn [THEN spec, of 0, THEN spec, of "ex_chan 0"]
    by (simp add: ex_stuck_def ex_priv_def ex_chan_def GRFIFO_CHAN_WATCHDOG_TIMEOUT_MS_def)
  have c2: "channel (snd (gk104_fifo_chan_timeout_restart_all ex_stuck 2)) 2 = channel ex_stuck 2"
    using out [THEN spec, of 2] by simp
  have c3: "channel (snd (gk104_fifo_chan_timeout_restart_all ex_stuck 2)) 3 = channel ex_stuck 3"
    using out [THEN spec, of 3] by simp
  have e: "\<exists>s. ctxsw_escalate ex_hw ex_stuck 2 2 = Done s
         \<and> map_option state (channel s 2) = Some RUNNING
         \<and> mmu_fault s = False
         \<and> trace s = [Eevent 2 FIFO_ERROR_IDLE_TIMEOUT]"
    using s by (intro exI [of _ s]) (simp add: ex_stuck_def ex_priv_def ex_chan_def)
  from h1 h2 h3 f c0 c2 c3 e show ?thesis
    by simp
qed

subsection \<open>Context-switch timeout monitor\<close>

text \<open>
  The synchronous half of recovery on a live channel, with its trace written out.
\<close>

lemma mmu_fault_recover_done:
  "channel priv c = Some chan \<Longrightarrow> e < 64 \<Longrightarrow> unit < 32 \<Longrightarrow>
   gk104_fifo_mmu_fault_recover h priv (Some e) c unit =
     Done (priv\<lparr>channel := (channel priv)(c \<mapsto> chan\<lparr>state := KILLED\<rparr>),
                priv_mask := priv_mask priv OR push_bit e 1,
                fault_chan := Some c,
                fault_unit := fault_unit priv OR push_bit unit 1,
                mmu_fault := True,
                trace := trace priv @
                  [NvError ''%s engine mmu fault on channel %d\<newline>'' [e, chid chan],
                   Wr32 0x400500 (rd32 h 0x400500 AND NOT (push_bit 16 1) AND NOT (push_bit 0 1)),
                   ChanDisable (chid chan),
                   UeventFault (chid chan)]\<rparr>)"
  by (simp add: gk104_fifo_mmu_fault_recover_def Let_def emit_def put_chan_def queue_work_def)

lemma sched_ctxsw_recover_done:
  "channel priv c = Some chan \<Longrightarrow> e < 64 \<Longrightarrow>
   gk104_fifo_sched_ctxsw_recover h priv (Some e) c =
     Done (priv\<lparr>channel := (channel priv)(c \<mapsto> chan\<lparr>state := KILLED\<rparr>),
                priv_mask := priv_mask priv OR push_bit e 1,
                fault_chan := Some c,
                fault_unit := fault_unit priv OR 1,
                mmu_fault := True,
                trace := trace priv @
                  [NvError ''%s engine sched ctxsw timeout on channel %d\<newline>'' [e, chid chan],
                   Mask32 0x002140 0x10000100 0x00000000,
                   Wr32 0x002100 0x00000100,
                   Wr32 0x002a30 0x00000100] @
                  (if nv_wait h 0x002100 then []
                   else [NvError ''triggering mmu fault timed out\<newline>'' []]) @
                  [Wr32 0x002a30 0x00000000,
                   NvError ''%s engine mmu fault on channel %d\<newline>'' [e, chid chan],
                   Wr32 0x400500 (rd32 h 0x400500 AND NOT (push_bit 16 1) AND NOT (push_bit 0 1)),
                   ChanDisable (chid chan),
                   UeventFault (chid chan)]\<rparr>)"
  by (simp add: gk104_fifo_sched_ctxsw_recover_def Let_def emit_def mmu_fault_recover_done)

lemma ctxsw_engn_active:
  assumes "ctxsw_status (rd32 h (0x002640 + of_nat engn * 0x08)) = (True, cid)"
    and "channel priv cid = Some chan"
    and "gk104_fifo_engine dev engn = Some eng"
  shows "ctxsw_engn h dev engn priv =
     (if limit_ms chan <
           sum_ms (snd (gk104_fifo_update_timeout (ro32_get h cid) chan
                          (of_nat GRFIFO_TIMEOUT_CHECK_PERIOD_MS)))
      then ctxsw_escalate h
             (priv\<lparr>channel := (channel priv)(cid \<mapsto>
                 snd (gk104_fifo_update_timeout (ro32_get h cid) chan
                        (of_nat GRFIFO_TIMEOUT_CHECK_PERIOD_MS)))\<rparr>) eng cid
      else Done (priv\<lparr>channel := (channel priv)(cid \<mapsto>
                       snd (gk104_fifo_update_timeout (ro32_get h cid) chan
                              (of_nat GRFIFO_TIMEOUT_CHECK_PERIOD_MS))),
                     trace := trace priv @
                       [UpdateRecoveryDelay,
                        NvError ''fifo waiting for ctxsw %d ms on ch %d\<newline>''
                          [unat (sum_ms (snd (gk104_fifo_update_timeout (ro32_get h cid) chan
                              (of_nat GRFIFO_TIMEOUT_CHECK_PERIOD_MS)))), cid]]\<rparr>))"
proof -
  have f: "fst (gk104_fifo_update_timeout (ro32_get h cid) chan
                        (of_nat GRFIFO_TIMEOUT_CHECK_PERIOD_MS)) =
           (limit_ms chan <
              sum_ms (snd (gk104_fifo_update_timeout (ro32_get h cid) chan
                          (of_nat GRFIFO_TIMEOUT_CHECK_PERIOD_MS))))"
    by (simp add: gk104_fifo_update_timeout_def Let_def)
  show ?thesis
    using assms(2,3) by (simp add: ctxsw_engn_def Let_def assms(1) f put_chan_def emit_def)
qed


lemma update_timeout_watchdog:
  "watchdog_inited (snd (gk104_fifo_update_timeout g chan dt)) = watchdog_inited chan
   \<and> watchdog_work (snd (gk104_fifo_update_timeout g chan dt)) = watchdog_work chan
   \<and> state (snd (gk104_fifo_update_timeout g chan dt)) = state chan
   \<and> chid (snd (gk104_fifo_update_timeout g chan dt)) = chid chan
   \<and> limit_ms (snd (gk104_fifo_update_timeout g chan dt)) = limit_ms chan"
  by (simp add: gk104_fifo_update_timeout_def Let_def)

lemma restart_all_loop_values:
  assumes "\<forall>i. lo \<le> i \<and> i < hi \<longrightarrow>
             (\<forall>ch. chans i = Some ch \<and> watchdog_inited ch \<longrightarrow> watchdog_work ch \<noteq> None)"
  shows "fst (restart_all_loop exc [lo..<hi] chans)
     \<and> (\<forall>j. snd (restart_all_loop exc [lo..<hi] chans) j =
           (case chans j of
              None \<Rightarrow> None
            | Some ch \<Rightarrow>
                Some (if lo \<le> j \<and> j < hi \<and> watchdog_inited ch
                      then ch\<lparr>watchdog_work :=
                             if j = exc then None else Some GRFIFO_CHAN_WATCHDOG_TIMEOUT_MS\<rparr>
                      else ch)))"
proof -
  have d: "distinct [lo..<hi]"
    by simp
  from assms have ok: "\<forall>i \<in> set [lo..<hi]. \<forall>ch.
      chans i = Some ch \<and> watchdog_inited ch \<longrightarrow> watchdog_work ch \<noteq> None"
    by simp
  note r = restart_all_loop_ok [OF d ok, of exc]
  have "\<forall>j. snd (restart_all_loop exc [lo..<hi] chans) j =
           (case chans j of
              None \<Rightarrow> None
            | Some ch \<Rightarrow>
                Some (if lo \<le> j \<and> j < hi \<and> watchdog_inited ch
                      then ch\<lparr>watchdog_work :=
                             if j = exc then None else Some GRFIFO_CHAN_WATCHDOG_TIMEOUT_MS\<rparr>
                      else ch))"
  proof
    fix j
    show "snd (restart_all_loop exc [lo..<hi] chans) j =
           (case chans j of
              None \<Rightarrow> None
            | Some ch \<Rightarrow>
                Some (if lo \<le> j \<and> j < hi \<and> watchdog_inited ch
                      then ch\<lparr>watchdog_work :=
                             if j = exc then None else Some GRFIFO_CHAN_WATCHDOG_TIMEOUT_MS\<rparr>
                      else ch))"
    proof (cases "chans j")
      case None
      with restart_all_loop_frame [of chans j exc "[lo..<hi]"] show ?thesis
        by simp
    next
      case (Some ch)
      show ?thesis
      proof (cases "j \<in> set [lo..<hi]")
        case True
        with r Some have "snd (restart_all_loop exc [lo..<hi] chans) j =
           Some (if watchdog_inited ch
                 then ch\<lparr>watchdog_work :=
                        if j = exc then None else Some GRFIFO_CHAN_WATCHDOG_TIMEOUT_MS\<rparr>
                 else ch)"
          by blast
        with True Some show ?thesis
          by simp
      next
        case False
        then have "snd (restart_all_loop exc [lo..<hi] chans) j = chans j"
          by (rule restart_all_loop_outside)
        with False Some show ?thesis
          by auto
      qed
    qed
  qed
  with r show ?thesis
    by simp
qed

lemma ctxsw_escalate_fail:
  "\<not> fst (restart_all_loop cid [min_chid priv..<max_chid priv] (channel priv)) \<Longrightarrow>
   ctxsw_escalate h priv eng cid =
     Done (priv\<lparr>channel := snd (restart_all_loop cid [min_chid priv..<max_chid priv] (channel priv)),
                trace := trace priv @ [Eevent cid FIFO_ERROR_IDLE_TIMEOUT]\<rparr>)"
  by (simp add: ctxsw_escalate_def Let_def restart_all_split emit_def)

lemma ctxsw_escalate_ok:
  assumes "fst (restart_all_loop cid [min_chid priv..<max_chid priv] (channel priv))"
    and "snd (restart_all_loop cid [min_chid priv..<max_chid priv] (channel priv)) cid = Some ch"
    and "eng < 64"
  shows "ctxsw_escalate h priv eng cid =
     Done (priv\<lparr>channel :=
                  (snd (restart_all_loop cid [min_chid priv..<max_chid priv] (channel priv)))
                    (cid \<mapsto> ch\<lparr>state := KILLED\<rparr>),
                priv_mask := priv_mask priv OR push_bit eng 1,
                fault_chan := Some cid,
                fault_unit := fault_unit priv OR 1,
                mmu_fault := True,
                trace := trace priv @
                  [Eevent cid FIFO_ERROR_IDLE_TIMEOUT,
                   NvError ''recovering ctxsw timeout for ch %d\<newline>'' [cid],
                   NvError ''%s engine sched ctxsw timeout on channel %d\<newline>'' [eng, chid ch],
                   Mask32 0x002140 0x10000100 0x00000000,
                   Wr32 0x002100 0x00000100,
                   Wr32 0x002a30 0x00000100] @
                  (if nv_wait h 0x002100 then []
                   else [NvError ''triggering mmu fault timed out\<newline>'' []]) @
                  [Wr32 0x002a30 0x00000000,
                   NvError ''%s engine mmu fault on channel %d\<newline>'' [eng, chid ch],
                   Wr32 0x400500 (rd32 h 0x400500 AND NOT (push_bit 16 1) AND NOT (push_bit 0 1)),
                   ChanDisable (chid ch),
                   UeventFault (chid ch)]\<rparr>)"
proof -
  define T where "T = snd (restart_all_loop cid [min_chid priv..<max_chid priv] (channel priv))"
  define p where "p = emit [NvError ''recovering ctxsw timeout for ch %d\<newline>'' [cid]]
      (emit [Eevent cid FIFO_ERROR_IDLE_TIMEOUT] priv\<lparr>channel := T\<rparr>)"
  have run: "ctxsw_escalate h priv eng cid = gk104_fifo_sched_ctxsw_recover h p (Some eng) cid"
    using assms(1) by (simp add: ctxsw_escalate_def Let_def restart_all_split emit_def p_def T_def)
  have pc: "channel p cid = Some ch"
    using assms(2) by (simp add: p_def T_def emit_def)
  show ?thesis
    unfolding run sched_ctxsw_recover_done [OF pc assms(3)]
    by (simp add: p_def emit_def T_def)
qed


text \<open>
  Status words of an engine that is busy loading channel 0, 1 or 2.
\<close>

lemma ex_status:
  "ctxsw_status 0x8000A000 = (True, 0)"
  "ctxsw_status 0x8001A000 = (True, 1)"
  "ctxsw_status 0x8002A000 = (True, 2)"
  by (simp_all add: ctxsw_status_def CTXSW_STATUS_LOAD_def CTXSW_STATUS_SAVE_def
      CTXSW_STATUS_SWITCH_def)

text \<open>
  C5, as stated, on the sample table \<open>ex_stuck\<close>: channel 2 is busy in a context
  switch, its pointer has not moved and its accumulated stall (400 ms) is above its
  limit (350 ms), but the work of channel 1 cannot be cancelled. The monitor notifies
  the event and returns; Fault Recovery is not invoked: channel 2 is still
  \<open>RUNNING\<close> and no fault is pending.
\<close>

theorem C5_no_recovery_counterexample:
  "ctxsw_status (rd32 (ex_hw_stat 0x8002A000) (0x002640 + of_nat 0 * 0x08)) = (True, 2)
   \<and> channel ex_stuck 2 = Some ((ex_chan 2)\<lparr>limit_ms := 350\<rparr>)
   \<and> fst (gk104_fifo_update_timeout (ro32_get (ex_hw_stat 0x8002A000) 2)
            ((ex_chan 2)\<lparr>limit_ms := 350\<rparr>) (of_nat GRFIFO_TIMEOUT_CHECK_PERIOD_MS))
   \<and> (\<exists>s. ctxsw_engn (ex_hw_stat 0x8002A000) ex_dev 0 ex_stuck = Done s
         \<and> map_option state (channel s 2) = Some RUNNING
         \<and> \<not> mmu_fault s \<and> fault_chan s = None \<and> priv_mask s = 0
         \<and> trace s = [Eevent 2 FIFO_ERROR_IDLE_TIMEOUT])"
proof -
  have ids: "[min_chid ex_stuck..<max_chid ex_stuck] = [0, 1, 2]"
    by (simp add: ex_stuck_def ex_priv_def upt_rec)
  have st: "ctxsw_status (rd32 (ex_hw_stat 0x8002A000) (0x002640 + of_nat 0 * 0x08)) = (True, 2)"
    by (simp add: ex_hw_stat_def ex_hw_def ex_status)
  have ch: "channel ex_stuck 2 = Some ((ex_chan 2)\<lparr>limit_ms := 350\<rparr>)"
    by (simp add: ex_stuck_def)
  have en: "gk104_fifo_engine ex_dev 0 = Some 2"
    by (simp add: gk104_fifo_engine_def ex_dev_def)
  have over: "fst (gk104_fifo_update_timeout (ro32_get (ex_hw_stat 0x8002A000) 2)
            ((ex_chan 2)\<lparr>limit_ms := 350\<rparr>) (of_nat GRFIFO_TIMEOUT_CHECK_PERIOD_MS))"
    by (simp add: gk104_fifo_update_timeout_def ex_hw_stat_def ex_hw_def ex_chan_def
        GRFIFO_TIMEOUT_CHECK_PERIOD_MS_def)
  have run: "(case ctxsw_engn (ex_hw_stat 0x8002A000) ex_dev 0 ex_stuck of
        Done s \<Rightarrow> map_option state (channel s 2) = Some RUNNING
           \<and> \<not> mmu_fault s \<and> fault_chan s = None \<and> priv_mask s = 0
           \<and> trace s = [Eevent 2 FIFO_ERROR_IDLE_TIMEOUT]
      | Failed err s \<Rightarrow> False
      | Crash f \<Rightarrow> False)"
    unfolding ctxsw_engn_def st Let_def fst_conv snd_conv
    by (simp add: ch en ctxsw_escalate_def restart_all_split put_chan_def emit_def Let_def
        gk104_fifo_update_timeout_def ex_hw_stat_def ex_hw_def
        GRFIFO_TIMEOUT_CHECK_PERIOD_MS_def GRFIFO_CHAN_WATCHDOG_TIMEOUT_MS_def
        cancel_delayed_work_def schedule_delayed_work_def upt_rec
        ex_stuck_def ex_priv_def ex_chan_def)
  have fin: "\<exists>s. ctxsw_engn (ex_hw_stat 0x8002A000) ex_dev 0 ex_stuck = Done s
         \<and> map_option state (channel s 2) = Some RUNNING
         \<and> \<not> mmu_fault s \<and> fault_chan s = None \<and> priv_mask s = 0
         \<and> trace s = [Eevent 2 FIFO_ERROR_IDLE_TIMEOUT]"
    using run by (cases "ctxsw_engn (ex_hw_stat 0x8002A000) ex_dev 0 ex_stuck") simp_all
  from st ch over fin show ?thesis
    by (intro conjI)
qed

text \<open>
  C5, amended: for a channel observed busy in an active context switch on an engine the
  device has, let \<open>chan1\<close> be the channel after the stall accounting of this check.
  If its accumulated stall is not strictly above its limit, the monitor only updates
  the recovery-delay timestamp and logs the waiting line. If it is strictly above the
  limit, the monitor notifies the idle-timeout event keyed by the channel id and runs
  the watchdog restart scan over the slots \<open>min_chid \<le> i < max_chid\<close>. When every
  armed watchdog in that range can be cancelled, each is cancelled, all but the
  stalled channel's are queued again with 10000 ms, and Fault Recovery is invoked for
  the stalled channel (it becomes \<open>KILLED\<close>, the engine bit and the channel are
  merged into the fault record, the recovery work is queued). When some armed
  watchdog cannot be cancelled, Fault Recovery is not invoked on this pass.
\<close>

theorem C5_ctxsw_timeout:
  assumes st: "ctxsw_status (rd32 h (0x002640 + of_nat engn * 0x08)) = (True, cid)"
    and ch: "channel priv cid = Some chan"
    and en: "gk104_fifo_engine dev engn = Some eng"
    and e64: "eng < 64"
    and c1: "chan1 = snd (gk104_fifo_update_timeout (ro32_get h cid) chan
                            (of_nat GRFIFO_TIMEOUT_CHECK_PERIOD_MS))"
  shows
    "(\<not> limit_ms chan < sum_ms chan1 \<longrightarrow>
        ctxsw_engn h dev engn priv =
          Done (priv\<lparr>channel := (channel priv)(cid \<mapsto> chan1),
                     trace := trace priv @
                       [UpdateRecoveryDelay,
                        NvError ''fifo waiting for ctxsw %d ms on ch %d\<newline>''
                          [unat (sum_ms chan1), cid]]\<rparr>))
     \<and> (limit_ms chan < sum_ms chan1
         \<and> (\<forall>i. min_chid priv \<le> i \<and> i < max_chid priv \<longrightarrow>
               (\<forall>c. channel priv i = Some c \<and> watchdog_inited c \<longrightarrow> watchdog_work c \<noteq> None))
         \<longrightarrow>
        (\<exists>s. ctxsw_engn h dev engn priv = Done s
           \<and> channel s cid =
               Some (chan1\<lparr>state := KILLED,
                           watchdog_work :=
                             if min_chid priv \<le> cid \<and> cid < max_chid priv \<and> watchdog_inited chan
                             then None else watchdog_work chan\<rparr>)
           \<and> (\<forall>i. i \<noteq> cid \<longrightarrow>
                 channel s i =
                   (case channel priv i of
                      None \<Rightarrow> None
                    | Some c \<Rightarrow>
                        Some (if min_chid priv \<le> i \<and> i < max_chid priv \<and> watchdog_inited c
                              then c\<lparr>watchdog_work := Some GRFIFO_CHAN_WATCHDOG_TIMEOUT_MS\<rparr>
                              else c)))
           \<and> priv_mask s = priv_mask priv OR push_bit eng 1
           \<and> fault_chan s = Some cid
           \<and> fault_unit s = fault_unit priv OR 1
           \<and> mmu_fault s
           \<and> trace s = trace priv @
                  [Eevent cid FIFO_ERROR_IDLE_TIMEOUT,
                   NvError ''recovering ctxsw timeout for ch %d\<newline>'' [cid],
                   NvError ''%s engine sched ctxsw timeout on channel %d\<newline>'' [eng, chid chan],
                   Mask32 0x002140 0x10000100 0x00000000,
                   Wr32 0x002100 0x00000100,
                   Wr32 0x002a30 0x00000100] @
                  (if nv_wait h 0x002100 then []
                   else [NvError ''triggering mmu fault timed out\<newline>'' []]) @
                  [Wr32 0x002a30 0x00000000,
                   NvError ''%s engine mmu fault on channel %d\<newline>'' [eng, chid chan],
                   Wr32 0x400500 (rd32 h 0x400500 AND NOT (push_bit 16 1) AND NOT (push_bit 0 1)),
                   ChanDisable (chid chan),
                   UeventFault (chid chan)]))
     \<and> (limit_ms chan < sum_ms chan1
         \<and> \<not> (\<forall>i. min_chid priv \<le> i \<and> i < max_chid priv \<longrightarrow>
               (\<forall>c. channel priv i = Some c \<and> watchdog_inited c \<longrightarrow> watchdog_work c \<noteq> None))
         \<longrightarrow>
        (\<exists>s. ctxsw_engn h dev engn priv = Done s
           \<and> (\<forall>i. map_option state (channel s i) = map_option state (channel priv i))
           \<and> priv_mask s = priv_mask priv \<and> fault_chan s = fault_chan priv
           \<and> fault_unit s = fault_unit priv \<and> mmu_fault s = mmu_fault priv
           \<and> trace s = trace priv @ [Eevent cid FIFO_ERROR_IDLE_TIMEOUT]))"
    (is "(\<not> ?over \<longrightarrow> ?wait) \<and> (?over \<and> ?allok \<longrightarrow> ?rec) \<and> (?over \<and> \<not> ?allok \<longrightarrow> ?norec)")
proof -
  define p1 where "p1 = priv\<lparr>channel := (channel priv)(cid \<mapsto> chan1)\<rparr>"
  define ids where "ids = [min_chid priv..<max_chid priv]"
  define R where "R = restart_all_loop cid ids (channel p1)"
  note wd = update_timeout_watchdog [of "ro32_get h cid" chan "of_nat GRFIFO_TIMEOUT_CHECK_PERIOD_MS",
      folded c1]
  have step: "ctxsw_engn h dev engn priv =
     (if ?over then ctxsw_escalate h p1 eng cid
      else Done (priv\<lparr>channel := (channel priv)(cid \<mapsto> chan1),
                     trace := trace priv @
                       [UpdateRecoveryDelay,
                        NvError ''fifo waiting for ctxsw %d ms on ch %d\<newline>''
                          [unat (sum_ms chan1), cid]]\<rparr>))"
    unfolding p1_def c1 by (rule ctxsw_engn_active [OF st ch en])
  have p1f: "min_chid p1 = min_chid priv" "max_chid p1 = max_chid priv" "trace p1 = trace priv"
      "priv_mask p1 = priv_mask priv" "fault_chan p1 = fault_chan priv"
      "fault_unit p1 = fault_unit priv" "mmu_fault p1 = mmu_fault priv"
    by (simp_all add: p1_def)
  have p1c: "channel p1 cid = Some chan1" "\<And>i. i \<noteq> cid \<Longrightarrow> channel p1 i = channel priv i"
    by (simp_all add: p1_def)
  have allok1: "?allok =
      (\<forall>i. min_chid priv \<le> i \<and> i < max_chid priv \<longrightarrow>
         (\<forall>c. channel p1 i = Some c \<and> watchdog_inited c \<longrightarrow> watchdog_work c \<noteq> None))"
  proof -
    have "\<And>i. (\<forall>c. channel priv i = Some c \<and> watchdog_inited c \<longrightarrow> watchdog_work c \<noteq> None)
          = (\<forall>c. channel p1 i = Some c \<and> watchdog_inited c \<longrightarrow> watchdog_work c \<noteq> None)"
      subgoal for i
        using ch p1c wd by (cases "i = cid") simp_all
      done
    then show ?thesis
      by simp
  qed
  have A: "\<not> ?over \<longrightarrow> ?wait"
    using step by simp
  have B: "?over \<and> ?allok \<longrightarrow> ?rec"
  proof
    assume h: "?over \<and> ?allok"
    then have ok1: "\<forall>i. min_chid priv \<le> i \<and> i < max_chid priv \<longrightarrow>
         (\<forall>c. channel p1 i = Some c \<and> watchdog_inited c \<longrightarrow> watchdog_work c \<noteq> None)"
      using allok1 by simp
    note v = restart_all_loop_values [OF ok1, of cid]
    from v have f: "fst (restart_all_loop cid [min_chid p1..<max_chid p1] (channel p1))"
      by (simp add: p1f)
    from v have T: "\<And>j. snd (restart_all_loop cid [min_chid p1..<max_chid p1] (channel p1)) j =
           (case channel p1 j of
              None \<Rightarrow> None
            | Some c \<Rightarrow>
                Some (if min_chid priv \<le> j \<and> j < max_chid priv \<and> watchdog_inited c
                      then c\<lparr>watchdog_work :=
                             if j = cid then None else Some GRFIFO_CHAN_WATCHDOG_TIMEOUT_MS\<rparr>
                      else c))"
      by (simp add: p1f)
    define chT where "chT = (if min_chid priv \<le> cid \<and> cid < max_chid priv \<and> watchdog_inited chan1
                      then chan1\<lparr>watchdog_work := None\<rparr> else chan1)"
    have Tc: "snd (restart_all_loop cid [min_chid p1..<max_chid p1] (channel p1)) cid = Some chT"
      unfolding T chT_def using p1c(1) by simp
    note run = ctxsw_escalate_ok [OF f Tc e64, of h]
    have eq: "ctxsw_engn h dev engn priv = ctxsw_escalate h p1 eng cid"
      using step h by simp
    have kc: "chT\<lparr>state := KILLED\<rparr> =
         chan1\<lparr>state := KILLED,
               watchdog_work :=
                 if min_chid priv \<le> cid \<and> cid < max_chid priv \<and> watchdog_inited chan
                 then None else watchdog_work chan\<rparr>"
      unfolding chT_def using wd by simp
    have others: "\<forall>i. i \<noteq> cid \<longrightarrow>
        ((snd (restart_all_loop cid [min_chid p1..<max_chid p1] (channel p1)))
            (cid \<mapsto> chT\<lparr>state := KILLED\<rparr>)) i =
                   (case channel priv i of
                      None \<Rightarrow> None
                    | Some c \<Rightarrow>
                        Some (if min_chid priv \<le> i \<and> i < max_chid priv \<and> watchdog_inited c
                              then c\<lparr>watchdog_work := Some GRFIFO_CHAN_WATCHDOG_TIMEOUT_MS\<rparr>
                              else c))"
      using T p1c(2) by (simp split: option.split)
    have cT: "chid chT = chid chan"
      unfolding chT_def using wd by simp
    show ?rec
      apply (rule exI)
      apply (rule conjI)
       apply (simp only: eq run)
      using others kc cT apply (simp add: p1f)
      done
  qed
  have C: "?over \<and> \<not> ?allok \<longrightarrow> ?norec"
  proof
    assume h: "?over \<and> \<not> ?allok"
    then have "\<not> (\<forall>i. min_chid priv \<le> i \<and> i < max_chid priv \<longrightarrow>
         (\<forall>c. channel p1 i = Some c \<and> watchdog_inited c \<longrightarrow> watchdog_work c \<noteq> None))"
      using allok1 by blast
    then have nok: "\<not> (\<forall>i \<in> set [min_chid p1..<max_chid p1]. \<forall>c.
         channel p1 i = Some c \<and> watchdog_inited c \<longrightarrow> watchdog_work c \<noteq> None)"
      by (auto simp: p1f)
    have "distinct [min_chid p1..<max_chid p1]"
      by simp
    from restart_all_loop_fst [OF this, of cid "channel p1"] nok
    have f: "\<not> fst (restart_all_loop cid [min_chid p1..<max_chid p1] (channel p1))"
      by simp
    have eq: "ctxsw_engn h dev engn priv = ctxsw_escalate h p1 eng cid"
      using step h by simp
    have st1: "\<forall>i. map_option state (channel p1 i) = map_option state (channel priv i)"
      using ch p1c wd by (metis option.simps(9))
    have st2: "\<forall>i. map_option state
          (snd (restart_all_loop cid [min_chid p1..<max_chid p1] (channel p1)) i)
        = map_option state (channel p1 i)"
    proof
      fix i
      show "map_option state
          (snd (restart_all_loop cid [min_chid p1..<max_chid p1] (channel p1)) i)
        = map_option state (channel p1 i)"
        using restart_all_loop_frame [of "channel p1" i cid "[min_chid p1..<max_chid p1]"]
        by (cases "channel p1 i") auto
    qed
    show ?norec
      apply (rule exI)
      apply (rule conjI)
       apply (simp only: eq ctxsw_escalate_fail [OF f])
      using st1 st2 apply (simp add: p1f)
      done
  qed
  from A B C show ?thesis
    by (intro conjI)
qed


theorem C5_ctxsw_timeout_witness:
  "ctxsw_status (rd32 (ex_hw_stat 0x8000A000) (0x002640 + of_nat 0 * 0x08)) = (True, 0)
   \<and> channel ex_over 0 = Some (ex_chan 0)
   \<and> gk104_fifo_engine ex_dev 0 = Some 2
   \<and> (\<exists>s. ctxsw_engn (ex_hw_stat 0x8000A000) ex_dev 0 ex_over = Done s
         \<and> channel s 0 = Some ((ex_chan 0)\<lparr>sum_ms := 400\<rparr>)
         \<and> trace s = [UpdateRecoveryDelay,
                        NvError ''fifo waiting for ctxsw %d ms on ch %d\<newline>'' [400, 0]])
   \<and> (\<exists>s. ctxsw_engn (ex_hw_stat 0x8001A000) ex_dev 0 ex_over = Done s
         \<and> map_option state (channel s 1) = Some KILLED
         \<and> map_option watchdog_work (channel s 1) = Some None
         \<and> map_option watchdog_work (channel s 0) = Some (Some 10000)
         \<and> priv_mask s = 4 \<and> fault_chan s = Some 1 \<and> mmu_fault s
         \<and> take 2 (trace s) = [Eevent 1 FIFO_ERROR_IDLE_TIMEOUT,
                                 NvError ''recovering ctxsw timeout for ch %d\<newline>'' [1]])
   \<and> (\<exists>s. ctxsw_engn (ex_hw_stat 0x8002A000) ex_dev 0 ex_stuck = Done s
         \<and> map_option state (channel s 2) = Some RUNNING
         \<and> mmu_fault s = False
         \<and> trace s = [Eevent 2 FIFO_ERROR_IDLE_TIMEOUT])"
proof -
  have en: "gk104_fifo_engine ex_dev 0 = Some 2"
    by (simp add: gk104_fifo_engine_def ex_dev_def)
  have e64: "(2 :: nat) < 64"
    by simp
  have st0: "ctxsw_status (rd32 (ex_hw_stat 0x8000A000) (0x002640 + of_nat 0 * 0x08)) = (True, 0)"
    by (simp add: ex_hw_stat_def ex_hw_def ex_status)
  have st1: "ctxsw_status (rd32 (ex_hw_stat 0x8001A000) (0x002640 + of_nat 0 * 0x08)) = (True, 1)"
    by (simp add: ex_hw_stat_def ex_hw_def ex_status)
  have st2: "ctxsw_status (rd32 (ex_hw_stat 0x8002A000) (0x002640 + of_nat 0 * 0x08)) = (True, 2)"
    by (simp add: ex_hw_stat_def ex_hw_def ex_status)
  have ch0: "channel ex_over 0 = Some (ex_chan 0)"
    by (simp add: ex_over_def)
  have ch1: "channel ex_over 1 = Some ((ex_chan 1)\<lparr>limit_ms := 350\<rparr>)"
    by (simp add: ex_over_def)
  have ch2: "channel ex_stuck 2 = Some ((ex_chan 2)\<lparr>limit_ms := 350\<rparr>)"
    by (simp add: ex_stuck_def)
  have u0: "snd (gk104_fifo_update_timeout (ro32_get (ex_hw_stat 0x8000A000) 0) (ex_chan 0)
              (of_nat GRFIFO_TIMEOUT_CHECK_PERIOD_MS)) = (ex_chan 0)\<lparr>sum_ms := 400\<rparr>"
    by (simp add: gk104_fifo_update_timeout_def ex_hw_stat_def ex_hw_def ex_chan_def
        GRFIFO_TIMEOUT_CHECK_PERIOD_MS_def)
  have u1: "snd (gk104_fifo_update_timeout (ro32_get (ex_hw_stat 0x8001A000) 1)
              ((ex_chan 1)\<lparr>limit_ms := 350\<rparr>)
              (of_nat GRFIFO_TIMEOUT_CHECK_PERIOD_MS)) = (ex_chan 1)\<lparr>limit_ms := 350, sum_ms := 400\<rparr>"
    by (simp add: gk104_fifo_update_timeout_def ex_hw_stat_def ex_hw_def ex_chan_def
        GRFIFO_TIMEOUT_CHECK_PERIOD_MS_def)
  have u2: "snd (gk104_fifo_update_timeout (ro32_get (ex_hw_stat 0x8002A000) 2)
              ((ex_chan 2)\<lparr>limit_ms := 350\<rparr>)
              (of_nat GRFIFO_TIMEOUT_CHECK_PERIOD_MS)) = (ex_chan 2)\<lparr>limit_ms := 350, sum_ms := 400\<rparr>"
    by (simp add: gk104_fifo_update_timeout_def ex_hw_stat_def ex_hw_def ex_chan_def
        GRFIFO_TIMEOUT_CHECK_PERIOD_MS_def)
  note t0 = C5_ctxsw_timeout [OF st0 ch0 en e64 u0 [symmetric]]
  note t1 = C5_ctxsw_timeout [OF st1 ch1 en e64 u1 [symmetric]]
  note t2 = C5_ctxsw_timeout [OF st2 ch2 en e64 u2 [symmetric]]
  have w0: "\<exists>s. ctxsw_engn (ex_hw_stat 0x8000A000) ex_dev 0 ex_over = Done s
         \<and> channel s 0 = Some ((ex_chan 0)\<lparr>sum_ms := 400\<rparr>)
         \<and> trace s = [UpdateRecoveryDelay,
                        NvError ''fifo waiting for ctxsw %d ms on ch %d\<newline>'' [400, 0]]"
    using t0 [THEN conjunct1]
    by (simp add: ex_chan_def ex_over_def ex_priv_def)
  have ok1: "\<forall>i. min_chid ex_over \<le> i \<and> i < max_chid ex_over \<longrightarrow>
               (\<forall>c. channel ex_over i = Some c \<and> watchdog_inited c \<longrightarrow> watchdog_work c \<noteq> None)"
    by (simp add: ex_over_def ex_priv_def ex_chan_def)
  have over1: "limit_ms ((ex_chan 1)\<lparr>limit_ms := 350\<rparr>)
                 < sum_ms ((ex_chan 1)\<lparr>limit_ms := 350, sum_ms := 400\<rparr>)"
    by simp
  from t1 [THEN conjunct2, THEN conjunct1, THEN mp, OF conjI [OF over1 ok1]]
  obtain s1 where s1: "ctxsw_engn (ex_hw_stat 0x8001A000) ex_dev 0 ex_over = Done s1"
    "channel s1 1 = Some ((ex_chan 1)\<lparr>limit_ms := 350, sum_ms := 400\<rparr>\<lparr>state := KILLED,
         watchdog_work :=
           if min_chid ex_over \<le> 1 \<and> 1 < max_chid ex_over
              \<and> watchdog_inited ((ex_chan 1)\<lparr>limit_ms := 350\<rparr>)
           then None else watchdog_work ((ex_chan 1)\<lparr>limit_ms := 350\<rparr>)\<rparr>)"
    "\<forall>i. i \<noteq> 1 \<longrightarrow> channel s1 i =
         (case channel ex_over i of None \<Rightarrow> None
          | Some c \<Rightarrow> Some (if min_chid ex_over \<le> i \<and> i < max_chid ex_over \<and> watchdog_inited c
                then c\<lparr>watchdog_work := Some GRFIFO_CHAN_WATCHDOG_TIMEOUT_MS\<rparr> else c))"
    "priv_mask s1 = priv_mask ex_over OR push_bit 2 1" "fault_chan s1 = Some 1" "mmu_fault s1"
    "trace s1 = trace ex_over @
                  [Eevent 1 FIFO_ERROR_IDLE_TIMEOUT,
                   NvError ''recovering ctxsw timeout for ch %d\<newline>'' [1],
                   NvError ''%s engine sched ctxsw timeout on channel %d\<newline>''
                     [2, chid ((ex_chan 1)\<lparr>limit_ms := 350\<rparr>)],
                   Mask32 0x002140 0x10000100 0x00000000,
                   Wr32 0x002100 0x00000100,
                   Wr32 0x002a30 0x00000100] @
                  (if nv_wait (ex_hw_stat 0x8001A000) 0x002100 then []
                   else [NvError ''triggering mmu fault timed out\<newline>'' []]) @
                  [Wr32 0x002a30 0x00000000,
                   NvError ''%s engine mmu fault on channel %d\<newline>''
                     [2, chid ((ex_chan 1)\<lparr>limit_ms := 350\<rparr>)],
                   Wr32 0x400500 (rd32 (ex_hw_stat 0x8001A000) 0x400500
                      AND NOT (push_bit 16 1) AND NOT (push_bit 0 1)),
                   ChanDisable (chid ((ex_chan 1)\<lparr>limit_ms := 350\<rparr>)),
                   UeventFault (chid ((ex_chan 1)\<lparr>limit_ms := 350\<rparr>))]"
    by (elim exE conjE)
  have w1: "\<exists>s. ctxsw_engn (ex_hw_stat 0x8001A000) ex_dev 0 ex_over = Done s
         \<and> map_option state (channel s 1) = Some KILLED
         \<and> map_option watchdog_work (channel s 1) = Some None
         \<and> map_option watchdog_work (channel s 0) = Some (Some 10000)
         \<and> priv_mask s = 4 \<and> fault_chan s = Some 1 \<and> mmu_fault s
         \<and> take 2 (trace s) = [Eevent 1 FIFO_ERROR_IDLE_TIMEOUT,
                                 NvError ''recovering ctxsw timeout for ch %d\<newline>'' [1]]"
    using s1(1,2,4,5,6,7) s1(3) [THEN spec, of 0]
    by (intro exI [of _ s1])
       (simp add: ex_over_def ex_priv_def ex_chan_def GRFIFO_CHAN_WATCHDOG_TIMEOUT_MS_def)
  have nok2: "\<not> (\<forall>i. min_chid ex_stuck \<le> i \<and> i < max_chid ex_stuck \<longrightarrow>
               (\<forall>c. channel ex_stuck i = Some c \<and> watchdog_inited c \<longrightarrow> watchdog_work c \<noteq> None))"
  proof
    assume "\<forall>i. min_chid ex_stuck \<le> i \<and> i < max_chid ex_stuck \<longrightarrow>
               (\<forall>c. channel ex_stuck i = Some c \<and> watchdog_inited c \<longrightarrow> watchdog_work c \<noteq> None)"
    from this [THEN spec, of 1] show False
      by (simp add: ex_stuck_def ex_priv_def ex_chan_def)
  qed
  have over2: "limit_ms ((ex_chan 2)\<lparr>limit_ms := 350\<rparr>)
                 < sum_ms ((ex_chan 2)\<lparr>limit_ms := 350, sum_ms := 400\<rparr>)"
    by simp
  from t2 [THEN conjunct2, THEN conjunct2, THEN mp, OF conjI [OF over2 nok2]]
  obtain s2 where s2: "ctxsw_engn (ex_hw_stat 0x8002A000) ex_dev 0 ex_stuck = Done s2"
    "\<forall>i. map_option state (channel s2 i) = map_option state (channel ex_stuck i)"
    "mmu_fault s2 = mmu_fault ex_stuck"
    "trace s2 = trace ex_stuck @ [Eevent 2 FIFO_ERROR_IDLE_TIMEOUT]"
    by (elim exE conjE)
  have w2: "\<exists>s. ctxsw_engn (ex_hw_stat 0x8002A000) ex_dev 0 ex_stuck = Done s
         \<and> map_option state (channel s 2) = Some RUNNING
         \<and> mmu_fault s = False
         \<and> trace s = [Eevent 2 FIFO_ERROR_IDLE_TIMEOUT]"
    using s2
    by (intro exI [of _ s2]) (simp add: ex_stuck_def ex_priv_def ex_chan_def)
  from st0 ch0 en w0 w1 w2 show ?thesis
    by (intro conjI)
qed

subsection \<open>Fault record and recovery passes\<close>

text \<open>
  A run-list rebuild changes only the engine's buffers and the trace; the asynchronous
  half never returns an error code, and when it returns it has cleared the fault record
  and acknowledged the unit mask it took.
\<close>

lemma runlist_update_frame:
  "channel (gk104_fifo_runlist_update h priv e) = channel priv
   \<and> min_chid (gk104_fifo_runlist_update h priv e) = min_chid priv
   \<and> max_chid (gk104_fifo_runlist_update h priv e) = max_chid priv
   \<and> priv_mask (gk104_fifo_runlist_update h priv e) = priv_mask priv
   \<and> fault_chan (gk104_fifo_runlist_update h priv e) = fault_chan priv
   \<and> fault_unit (gk104_fifo_runlist_update h priv e) = fault_unit priv
   \<and> mmu_fault (gk104_fifo_runlist_update h priv e) = mmu_fault priv
   \<and> (\<exists>tr. trace (gk104_fifo_runlist_update h priv e) = trace priv @ tr)"
  by (simp add: gk104_fifo_runlist_update_def Let_def split_beta emit_def split: option.split)

lemma runlist_loop_not_failed:
  "runlist_loop h dev engns priv \<noteq> Failed err s"
  by (induction engns arbitrary: priv) (simp_all split: option.split)

lemma runlist_loop_frame:
  "runlist_loop h dev engns priv = Done s \<Longrightarrow>
     channel s = channel priv
     \<and> min_chid s = min_chid priv \<and> max_chid s = max_chid priv
     \<and> priv_mask s = priv_mask priv
     \<and> fault_chan s = fault_chan priv
     \<and> fault_unit s = fault_unit priv
     \<and> mmu_fault s = mmu_fault priv
     \<and> (\<exists>tr. trace s = trace priv @ tr)"
proof (induction engns arbitrary: priv)
  case Nil
  then show ?case by simp
next
  case (Cons engn es)
  show ?case
  proof (cases "gk104_fifo_engidx dev engn")
    case None
    with Cons.prems show ?thesis by simp
  next
    case (Some i)
    define p where "p = gk104_fifo_runlist_update h priv (of_nat i)"
    from Cons.prems Some have "runlist_loop h dev es p = Done s"
      by (simp add: p_def split: if_splits)
    from Cons.IH [OF this] have ih: "channel s = channel p"
      "min_chid s = min_chid p" "max_chid s = max_chid p" "priv_mask s = priv_mask p"
      "fault_chan s = fault_chan p" "fault_unit s = fault_unit p" "mmu_fault s = mmu_fault p"
      and tr1: "\<exists>tr. trace s = trace p @ tr"
      by simp_all
    from runlist_update_frame [of h priv "of_nat i", folded p_def]
    have up: "channel p = channel priv"
      "min_chid p = min_chid priv" "max_chid p = max_chid priv" "priv_mask p = priv_mask priv"
      "fault_chan p = fault_chan priv" "fault_unit p = fault_unit priv"
      "mmu_fault p = mmu_fault priv"
      and tr2: "\<exists>tr. trace p = trace priv @ tr"
      by simp_all
    from tr1 obtain t1 where t1: "trace s = trace p @ t1" ..
    from tr2 obtain t2 where t2: "trace p = trace priv @ t2" ..
    have "trace s = trace priv @ (t2 @ t1)"
      by (simp add: t1 t2)
    then have "\<exists>tr. trace s = trace priv @ tr" ..
    with ih up show ?thesis
      by simp
  qed
qed

lemma recover_work_unfold:
  assumes "todo_engines (priv_mask priv) = Some engns"
    and "engm_loop dev engns (0, False) = Some (engm, hf)"
  shows "gk104_fifo_mmu_fault_recover_work h dev priv =
      (case runlist_loop h dev engns
              (emit ((if has_disable_clk_gating dev then [DisableClkGating] else []) @
                                 [Mask32 0x002630 engm engm] @
                                 (if hf \<and> has_halt_fecs dev then [HaltFecs] else []) @
                                 reset_loop dev engns @
                                 [Wr32 0x400500
                                    (rd32 h 0x400500 OR push_bit 16 1 OR push_bit 0 1)])
                             (emit [PmRuntimeGet] priv\<lparr>priv_mask := 0, fault_chan := None,
                                fault_unit := 0\<rparr>)) of
         Crash f \<Rightarrow> Crash f
       | Failed err s \<Rightarrow> Failed err s
       | Done priv2 \<Rightarrow>
           Done (emit ([Wr32 0x00259c (fault_unit priv),
                        Wr32 0x00262c engm,
                        Mask32 0x002630 engm 0x00000000,
                        Mask32 0x002140 0x10000100 0x10000100] @
                       (if has_enable_clk_gating dev then [EnableClkGating] else []) @
                       [NvError ''channel clean up done\<newline>'' []] @
                       (if pm_usable h then [PmRuntimePut] else [])) priv2))"
  by (simp add: gk104_fifo_mmu_fault_recover_work_def recover_act_def fault_take_def assms emit_def)

lemma recover_work_done:
  assumes "gk104_fifo_mmu_fault_recover_work h dev priv = Done s"
  shows "priv_mask s = 0 \<and> fault_chan s = None \<and> fault_unit s = 0
     \<and> mmu_fault s = mmu_fault priv
     \<and> channel s = channel priv
     \<and> (\<exists>tr1 engm tr2. trace s = trace priv @ PmRuntimeGet # tr1 @
            Wr32 0x00259c (fault_unit priv) # Wr32 0x00262c engm # tr2)"
proof -
  obtain engns where te: "todo_engines (priv_mask priv) = Some engns"
    using assms
    by (cases "todo_engines (priv_mask priv)")
       (simp_all add: gk104_fifo_mmu_fault_recover_work_def recover_act_def fault_take_def emit_def)
  obtain engm hf where el: "engm_loop dev engns (0, False) = Some (engm, hf)"
    using assms te
    by (cases "engm_loop dev engns (0, False)")
       (auto simp: gk104_fifo_mmu_fault_recover_work_def recover_act_def fault_take_def emit_def)
  define p1 where "p1 = emit ((if has_disable_clk_gating dev then [DisableClkGating] else []) @
                                 [Mask32 0x002630 engm engm] @
                                 (if hf \<and> has_halt_fecs dev then [HaltFecs] else []) @
                                 reset_loop dev engns @
                                 [Wr32 0x400500
                                    (rd32 h 0x400500 OR push_bit 16 1 OR push_bit 0 1)])
                             (emit [PmRuntimeGet] priv\<lparr>priv_mask := 0, fault_chan := None,
                                fault_unit := 0\<rparr>)"
  have run: "gk104_fifo_mmu_fault_recover_work h dev priv =
      (case runlist_loop h dev engns p1 of
         Crash f \<Rightarrow> Crash f
       | Failed err s \<Rightarrow> Failed err s
       | Done priv2 \<Rightarrow>
           Done (emit ([Wr32 0x00259c (fault_unit priv),
                        Wr32 0x00262c engm,
                        Mask32 0x002630 engm 0x00000000,
                        Mask32 0x002140 0x10000100 0x10000100] @
                       (if has_enable_clk_gating dev then [EnableClkGating] else []) @
                       [NvError ''channel clean up done\<newline>'' []] @
                       (if pm_usable h then [PmRuntimePut] else [])) priv2))"
    by (simp add: gk104_fifo_mmu_fault_recover_work_def recover_act_def fault_take_def te el p1_def emit_def)
  obtain p2 where p2: "runlist_loop h dev engns p1 = Done p2"
    using assms unfolding run by (cases "runlist_loop h dev engns p1") simp_all
  note fr = runlist_loop_frame [OF p2]
  from fr obtain t where t: "trace p2 = trace p1 @ t"
    by blast
  have s: "s = emit ([Wr32 0x00259c (fault_unit priv),
                        Wr32 0x00262c engm,
                        Mask32 0x002630 engm 0x00000000,
                        Mask32 0x002140 0x10000100 0x10000100] @
                       (if has_enable_clk_gating dev then [EnableClkGating] else []) @
                       [NvError ''channel clean up done\<newline>'' []] @
                       (if pm_usable h then [PmRuntimePut] else [])) p2"
    using assms unfolding run p2 by simp
  have f: "priv_mask s = 0 \<and> fault_chan s = None \<and> fault_unit s = 0
     \<and> mmu_fault s = mmu_fault priv \<and> channel s = channel priv"
    using fr by (simp add: s emit_def p1_def)
  have "trace s = trace priv @ PmRuntimeGet #
      ((if has_disable_clk_gating dev then [DisableClkGating] else []) @
                                 [Mask32 0x002630 engm engm] @
                                 (if hf \<and> has_halt_fecs dev then [HaltFecs] else []) @
                                 reset_loop dev engns @
                                 [Wr32 0x400500
                                    (rd32 h 0x400500 OR push_bit 16 1 OR push_bit 0 1)] @ t) @
      Wr32 0x00259c (fault_unit priv) # Wr32 0x00262c engm #
      ([Mask32 0x002630 engm 0x00000000,
                        Mask32 0x002140 0x10000100 0x10000100] @
                       (if has_enable_clk_gating dev then [EnableClkGating] else []) @
                       [NvError ''channel clean up done\<newline>'' []] @
                       (if pm_usable h then [PmRuntimePut] else []))"
    by (simp add: s emit_def t p1_def)
  then have "\<exists>tr1 engm tr2. trace s = trace priv @ PmRuntimeGet # tr1 @
            Wr32 0x00259c (fault_unit priv) # Wr32 0x00262c engm # tr2"
    by blast
  with f show ?thesis
    by simp
qed

lemma engm_loop_some:
  "\<forall>engn \<in> set engns. \<exists>i. gk104_fifo_engidx dev engn = Some i \<and> i < length (fifo_engines dev)
   \<Longrightarrow> \<exists>r. engm_loop dev engns acc = Some r"
proof (induction engns arbitrary: acc)
  case Nil
  show ?case by (cases acc) simp
next
  case (Cons engn es)
  then obtain i where i: "gk104_fifo_engidx dev engn = Some i"
    by auto
  from Cons.prems
  have "\<forall>engn \<in> set es. \<exists>i. gk104_fifo_engidx dev engn = Some i \<and> i < length (fifo_engines dev)"
    by simp
  from Cons.IH [OF this] i show ?case
    by (cases acc) simp
qed

lemma runlist_loop_done:
  "\<forall>engn \<in> set engns. \<exists>i. gk104_fifo_engidx dev engn = Some i \<and> i < length (fifo_engines dev)
   \<Longrightarrow> \<exists>s. runlist_loop h dev engns priv = Done s"
proof (induction engns arbitrary: priv)
  case Nil
  show ?case by simp
next
  case (Cons engn es)
  then obtain i where i: "gk104_fifo_engidx dev engn = Some i" "i < length (fifo_engines dev)"
    by auto
  from Cons.prems
  have "\<forall>engn \<in> set es. \<exists>i. gk104_fifo_engidx dev engn = Some i \<and> i < length (fifo_engines dev)"
    by simp
  from Cons.IH [OF this] i show ?case
    by simp
qed

lemma recover_work_total:
  assumes te: "todo_engines (priv_mask priv) = Some engns"
    and ok: "\<forall>engn \<in> set engns.
               \<exists>i. gk104_fifo_engidx dev engn = Some i \<and> i < length (fifo_engines dev)"
  shows "\<exists>s engm hf tr.
       engm_loop dev engns (0, False) = Some (engm, hf)
     \<and> gk104_fifo_mmu_fault_recover_work h dev priv = Done s
     \<and> priv_mask s = 0 \<and> fault_chan s = None \<and> fault_unit s = 0
     \<and> mmu_fault s = mmu_fault priv
     \<and> channel s = channel priv
     \<and> trace s = trace priv @ [PmRuntimeGet] @
         (if has_disable_clk_gating dev then [DisableClkGating] else []) @
         [Mask32 0x002630 engm engm] @
         (if hf \<and> has_halt_fecs dev then [HaltFecs] else []) @
         reset_loop dev engns @
         [Wr32 0x400500 (rd32 h 0x400500 OR push_bit 16 1 OR push_bit 0 1)] @
         tr @
         [Wr32 0x00259c (fault_unit priv),
          Wr32 0x00262c engm,
          Mask32 0x002630 engm 0x00000000,
          Mask32 0x002140 0x10000100 0x10000100] @
         (if has_enable_clk_gating dev then [EnableClkGating] else []) @
         [NvError ''channel clean up done\<newline>'' []] @
         (if pm_usable h then [PmRuntimePut] else [])"
proof -
  from engm_loop_some [OF ok] obtain engm hf where
    el: "engm_loop dev engns (0, False) = Some (engm, hf)"
    by (metis surj_pair)
  define p1 where "p1 = emit ((if has_disable_clk_gating dev then [DisableClkGating] else []) @
                                 [Mask32 0x002630 engm engm] @
                                 (if hf \<and> has_halt_fecs dev then [HaltFecs] else []) @
                                 reset_loop dev engns @
                                 [Wr32 0x400500
                                    (rd32 h 0x400500 OR push_bit 16 1 OR push_bit 0 1)])
                             (emit [PmRuntimeGet] priv\<lparr>priv_mask := 0, fault_chan := None,
                                fault_unit := 0\<rparr>)"
  define s where "s = emit ([Wr32 0x00259c (fault_unit priv),
                        Wr32 0x00262c engm,
                        Mask32 0x002630 engm 0x00000000,
                        Mask32 0x002140 0x10000100 0x10000100] @
                       (if has_enable_clk_gating dev then [EnableClkGating] else []) @
                       [NvError ''channel clean up done\<newline>'' []] @
                       (if pm_usable h then [PmRuntimePut] else []))"
  from runlist_loop_done [OF ok] obtain p2 where p2: "runlist_loop h dev engns p1 = Done p2"
    by blast
  have run: "gk104_fifo_mmu_fault_recover_work h dev priv = Done (s p2)"
    unfolding recover_work_unfold [OF te el] p1_def [symmetric] p2 s_def by simp
  note fr = runlist_loop_frame [OF p2]
  from fr obtain t where t: "trace p2 = trace p1 @ t"
    by blast
  have f: "priv_mask (s p2) = 0" "fault_chan (s p2) = None" "fault_unit (s p2) = 0"
     "mmu_fault (s p2) = mmu_fault priv" "channel (s p2) = channel priv"
    using fr by (simp_all add: s_def emit_def p1_def)
  have tr: "trace (s p2) = trace priv @ [PmRuntimeGet] @
         (if has_disable_clk_gating dev then [DisableClkGating] else []) @
         [Mask32 0x002630 engm engm] @
         (if hf \<and> has_halt_fecs dev then [HaltFecs] else []) @
         reset_loop dev engns @
         [Wr32 0x400500 (rd32 h 0x400500 OR push_bit 16 1 OR push_bit 0 1)] @
         t @
         [Wr32 0x00259c (fault_unit priv),
          Wr32 0x00262c engm,
          Mask32 0x002630 engm 0x00000000,
          Mask32 0x002140 0x10000100 0x10000100] @
         (if has_enable_clk_gating dev then [EnableClkGating] else []) @
         [NvError ''channel clean up done\<newline>'' []] @
         (if pm_usable h then [PmRuntimePut] else [])"
    by (simp add: s_def emit_def t p1_def)
  from el run f tr show ?thesis
    by blast
qed

text \<open>
  C1: a fault reported for a live channel (a real one through
  \<open>gk104_fifo_mmu_fault_recover\<close> with its unit, or a synthesized one through
  \<open>gk104_fifo_sched_ctxsw_recover\<close> with unit 0) is merged into the one pending
  record: the engine bit is OR'd into the mask, the unit bit into the unit mask, the
  channel reference becomes the faulting channel, and the recovery work item is pending
  afterwards, whether or not it was pending before (there is one pending bit, not a
  count). The asynchronous half then acts on the record it took, the merged mask, channel
  and unit mask, from a state in which the record is cleared and the work item is no
  longer pending. When every engine of the merged mask has a run list of the device
  (\<open>engns\<close> are the engines the loops visit), the pass returns: it has masked and
  acknowledged the run lists \<open>engm\<close> of these engines and the unit mask it took, the
  record is cleared, the work item is not pending, no channel has changed, and running
  the work queue again does nothing.
\<close>

theorem C1_fault_merge:
  assumes "channel priv c = Some chan" and "e < 64" and "unit < 32"
  shows "\<exists>s s0.
           gk104_fifo_mmu_fault_recover h priv (Some e) c unit = Done s
         \<and> priv_mask s = priv_mask priv OR push_bit e 1
         \<and> fault_unit s = fault_unit priv OR push_bit unit 1
         \<and> fault_chan s = Some c
         \<and> mmu_fault s
         \<and> channel s = (channel priv)(c \<mapsto> chan\<lparr>state := KILLED\<rparr>)
         \<and> gk104_fifo_sched_ctxsw_recover h priv (Some e) c = Done s0
         \<and> priv_mask s0 = priv_mask priv OR push_bit e 1
         \<and> fault_unit s0 = fault_unit priv OR 1
         \<and> fault_chan s0 = Some c
         \<and> mmu_fault s0
         \<and> run_mmu_fault_work h dev s =
             recover_act h dev
               (priv_mask priv OR push_bit e 1, Some c, fault_unit priv OR push_bit unit 1)
               (s\<lparr>mmu_fault := False, trace := trace s @ [PmRuntimeGet],
                  priv_mask := 0, fault_chan := None, fault_unit := 0\<rparr>)
         \<and> (todo_engines (priv_mask priv OR push_bit e 1) = Some engns
            \<and> (\<forall>engn \<in> set engns.
                 \<exists>i. gk104_fifo_engidx dev engn = Some i \<and> i < length (fifo_engines dev))
            \<longrightarrow> (\<exists>s' engm hf tr.
                   engm_loop dev engns (0, False) = Some (engm, hf)
                 \<and> run_mmu_fault_work h dev s = Done s'
                 \<and> priv_mask s' = 0 \<and> fault_chan s' = None \<and> fault_unit s' = 0
                 \<and> \<not> mmu_fault s'
                 \<and> channel s' = channel s
                 \<and> trace s' = trace s @ [PmRuntimeGet] @
                     (if has_disable_clk_gating dev then [DisableClkGating] else []) @
                     [Mask32 0x002630 engm engm] @
                     (if hf \<and> has_halt_fecs dev then [HaltFecs] else []) @
                     reset_loop dev engns @
                     [Wr32 0x400500 (rd32 h 0x400500 OR push_bit 16 1 OR push_bit 0 1)] @
                     tr @
                     [Wr32 0x00259c (fault_unit priv OR push_bit unit 1),
                      Wr32 0x00262c engm,
                      Mask32 0x002630 engm 0x00000000,
                      Mask32 0x002140 0x10000100 0x10000100] @
                     (if has_enable_clk_gating dev then [EnableClkGating] else []) @
                     [NvError ''channel clean up done\<newline>'' []] @
                     (if pm_usable h then [PmRuntimePut] else [])
                 \<and> run_mmu_fault_work h dev s' = Done s'))"
proof -
  note r = mmu_fault_recover_done [OF assms, of h]
  note r0 = sched_ctxsw_recover_done [OF assms(1,2), of h]
  obtain s0 where s0: "gk104_fifo_sched_ctxsw_recover h priv (Some e) c = Done s0"
    "priv_mask s0 = priv_mask priv OR push_bit e 1"
    "fault_unit s0 = fault_unit priv OR 1"
    "fault_chan s0 = Some c"
    "mmu_fault s0"
    by (simp add: r0)
  define s where "s = priv\<lparr>channel := (channel priv)(c \<mapsto> chan\<lparr>state := KILLED\<rparr>),
                priv_mask := priv_mask priv OR push_bit e 1,
                fault_chan := Some c,
                fault_unit := fault_unit priv OR push_bit unit 1,
                mmu_fault := True,
                trace := trace priv @
                  [NvError ''%s engine mmu fault on channel %d\<newline>'' [e, chid chan],
                   Wr32 0x400500 (rd32 h 0x400500 AND NOT (push_bit 16 1) AND NOT (push_bit 0 1)),
                   ChanDisable (chid chan),
                   UeventFault (chid chan)]\<rparr>"
  have rs: "gk104_fifo_mmu_fault_recover h priv (Some e) c unit = Done s"
    by (simp add: r s_def)
  have sf: "priv_mask s = priv_mask priv OR push_bit e 1"
    "fault_unit s = fault_unit priv OR push_bit unit 1" "fault_chan s = Some c" "mmu_fault s"
    "channel s = (channel priv)(c \<mapsto> chan\<lparr>state := KILLED\<rparr>)"
    by (simp_all add: s_def)
  have tk: "run_mmu_fault_work h dev s =
             recover_act h dev
               (priv_mask priv OR push_bit e 1, Some c, fault_unit priv OR push_bit unit 1)
               (s\<lparr>mmu_fault := False, trace := trace s @ [PmRuntimeGet],
                  priv_mask := 0, fault_chan := None, fault_unit := 0\<rparr>)"
    using sf(1-4)
    by (simp add: run_mmu_fault_work_def gk104_fifo_mmu_fault_recover_work_def fault_take_def
        emit_def)
  have run: "todo_engines (priv_mask priv OR push_bit e 1) = Some engns
            \<and> (\<forall>engn \<in> set engns.
                 \<exists>i. gk104_fifo_engidx dev engn = Some i \<and> i < length (fifo_engines dev))
            \<longrightarrow> (\<exists>s' engm hf tr.
                   engm_loop dev engns (0, False) = Some (engm, hf)
                 \<and> run_mmu_fault_work h dev s = Done s'
                 \<and> priv_mask s' = 0 \<and> fault_chan s' = None \<and> fault_unit s' = 0
                 \<and> \<not> mmu_fault s'
                 \<and> channel s' = channel s
                 \<and> trace s' = trace s @ [PmRuntimeGet] @
                     (if has_disable_clk_gating dev then [DisableClkGating] else []) @
                     [Mask32 0x002630 engm engm] @
                     (if hf \<and> has_halt_fecs dev then [HaltFecs] else []) @
                     reset_loop dev engns @
                     [Wr32 0x400500 (rd32 h 0x400500 OR push_bit 16 1 OR push_bit 0 1)] @
                     tr @
                     [Wr32 0x00259c (fault_unit priv OR push_bit unit 1),
                      Wr32 0x00262c engm,
                      Mask32 0x002630 engm 0x00000000,
                      Mask32 0x002140 0x10000100 0x10000100] @
                     (if has_enable_clk_gating dev then [EnableClkGating] else []) @
                     [NvError ''channel clean up done\<newline>'' []] @
                     (if pm_usable h then [PmRuntimePut] else [])
                 \<and> run_mmu_fault_work h dev s' = Done s')"
  proof (rule impI)
    assume a: "todo_engines (priv_mask priv OR push_bit e 1) = Some engns
            \<and> (\<forall>engn \<in> set engns.
                 \<exists>i. gk104_fifo_engidx dev engn = Some i \<and> i < length (fifo_engines dev))"
    define p where "p = s\<lparr>mmu_fault := False\<rparr>"
    have pf: "priv_mask p = priv_mask priv OR push_bit e 1"
      "fault_unit p = fault_unit priv OR push_bit unit 1" "\<not> mmu_fault p"
      "channel p = channel s" "trace p = trace s"
      by (simp_all add: p_def sf)
    from a have te: "todo_engines (priv_mask p) = Some engns"
      by (simp add: pf)
    from a have ok: "\<forall>engn \<in> set engns.
                 \<exists>i. gk104_fifo_engidx dev engn = Some i \<and> i < length (fifo_engines dev)" ..
    have w: "run_mmu_fault_work h dev s = gk104_fifo_mmu_fault_recover_work h dev p"
      using sf(4) by (simp add: run_mmu_fault_work_def p_def)
    from recover_work_total [OF te ok, of h]
    obtain s' engm hf tr where
      d: "engm_loop dev engns (0, False) = Some (engm, hf)"
        "gk104_fifo_mmu_fault_recover_work h dev p = Done s'"
        "priv_mask s' = 0" "fault_chan s' = None" "fault_unit s' = 0"
        "mmu_fault s' = mmu_fault p" "channel s' = channel p"
        "trace s' = trace p @ [PmRuntimeGet] @
         (if has_disable_clk_gating dev then [DisableClkGating] else []) @
         [Mask32 0x002630 engm engm] @
         (if hf \<and> has_halt_fecs dev then [HaltFecs] else []) @
         reset_loop dev engns @
         [Wr32 0x400500 (rd32 h 0x400500 OR push_bit 16 1 OR push_bit 0 1)] @
         tr @
         [Wr32 0x00259c (fault_unit p),
          Wr32 0x00262c engm,
          Mask32 0x002630 engm 0x00000000,
          Mask32 0x002140 0x10000100 0x10000100] @
         (if has_enable_clk_gating dev then [EnableClkGating] else []) @
         [NvError ''channel clean up done\<newline>'' []] @
         (if pm_usable h then [PmRuntimePut] else [])"
      by (elim exE conjE)
    have nf: "\<not> mmu_fault s'"
      by (simp add: d(6) pf(3))
    then have again: "run_mmu_fault_work h dev s' = Done s'"
      by (simp add: run_mmu_fault_work_def)
    note d2 = d(2) [folded w]
    note d7 = d(7) [unfolded pf(4)]
    note d8 = d(8) [unfolded pf(2) pf(5)]
    from d(1) d2 d(3-5) nf d7 d8 again
    show "\<exists>s' engm hf tr.
                   engm_loop dev engns (0, False) = Some (engm, hf)
                 \<and> run_mmu_fault_work h dev s = Done s'
                 \<and> priv_mask s' = 0 \<and> fault_chan s' = None \<and> fault_unit s' = 0
                 \<and> \<not> mmu_fault s'
                 \<and> channel s' = channel s
                 \<and> trace s' = trace s @ [PmRuntimeGet] @
                     (if has_disable_clk_gating dev then [DisableClkGating] else []) @
                     [Mask32 0x002630 engm engm] @
                     (if hf \<and> has_halt_fecs dev then [HaltFecs] else []) @
                     reset_loop dev engns @
                     [Wr32 0x400500 (rd32 h 0x400500 OR push_bit 16 1 OR push_bit 0 1)] @
                     tr @
                     [Wr32 0x00259c (fault_unit priv OR push_bit unit 1),
                      Wr32 0x00262c engm,
                      Mask32 0x002630 engm 0x00000000,
                      Mask32 0x002140 0x10000100 0x10000100] @
                     (if has_enable_clk_gating dev then [EnableClkGating] else []) @
                     [NvError ''channel clean up done\<newline>'' []] @
                     (if pm_usable h then [PmRuntimePut] else [])
                 \<and> run_mmu_fault_work h dev s' = Done s'"
      by (intro exI conjI)
  qed
  show ?thesis
    apply (rule exI [of _ s])
    apply (rule exI [of _ s0])
    apply (intro conjI)
                apply (rule rs)
               apply (rule sf(1))
              apply (rule sf(2))
             apply (rule sf(3))
            apply (rule sf(4))
           apply (rule sf(5))
          apply (rule s0(1))
         apply (rule s0(2))
        apply (rule s0(3))
       apply (rule s0(4))
      apply (rule s0(5))
     apply (rule tk)
    apply (rule run)
    done
qed

theorem C1_fault_merge_witness:
  "\<exists>s1 s2 s3.
     channel ex_priv 0 = Some (ex_chan 0)
   \<and> gk104_fifo_mmu_fault_recover ex_hw ex_priv (Some 2) 0 0 = Done s1
   \<and> mmu_fault s1
   \<and> channel s1 1 = Some (ex_chan 1)
   \<and> gk104_fifo_mmu_fault_recover ex_hw s1 (Some 3) 1 5 = Done s2
   \<and> priv_mask s2 = 12 \<and> fault_chan s2 = Some 1 \<and> fault_unit s2 = 33 \<and> mmu_fault s2
   \<and> todo_engines 12 = Some [2, 3]
   \<and> gk104_fifo_engidx ex_dev 2 = Some 0 \<and> gk104_fifo_engidx ex_dev 3 = Some 0
   \<and> length (fifo_engines ex_dev) = 2
   \<and> run_mmu_fault_work ex_hw ex_dev s2 = Done s3
   \<and> priv_mask s3 = 0 \<and> fault_chan s3 = None \<and> fault_unit s3 = 0 \<and> \<not> mmu_fault s3
   \<and> channel s3 = channel s2
   \<and> run_mmu_fault_work ex_hw ex_dev s3 = Done s3"
proof -
  have c0: "channel ex_priv 0 = Some (ex_chan 0)"
    by (simp add: ex_priv_def)
  have b: "(2 :: nat) < 64" "(0 :: nat) < 32" "(3 :: nat) < 64" "(5 :: nat) < 32"
    by simp_all
  from C1_fault_merge [where h = ex_hw and dev = ex_dev and engns = "[2]", OF c0 b(1) b(2)]
  obtain s1 where s1: "gk104_fifo_mmu_fault_recover ex_hw ex_priv (Some 2) 0 0 = Done s1"
    "priv_mask s1 = priv_mask ex_priv OR push_bit 2 1"
    "fault_unit s1 = fault_unit ex_priv OR push_bit 0 1"
    "mmu_fault s1"
    "channel s1 = (channel ex_priv)(0 \<mapsto> (ex_chan 0)\<lparr>state := KILLED\<rparr>)"
    by (elim exE conjE)
  have c1: "channel s1 1 = Some (ex_chan 1)"
    by (simp add: s1(5) ex_priv_def)
  have m1: "priv_mask s1 = 4"
    by (simp add: s1(2) ex_priv_def)
  have u1: "fault_unit s1 = 1"
    by (simp add: s1(3) ex_priv_def)
  have t12: "todo_engines 12 = Some [2, 3]"
    by code_simp
  have te: "todo_engines (priv_mask s1 OR push_bit 3 1) = Some [2, 3]"
    by (simp add: m1 t12)
  have ei: "gk104_fifo_engidx ex_dev 2 = Some 0" "gk104_fifo_engidx ex_dev 3 = Some 0"
    "length (fifo_engines ex_dev) = 2"
    by (simp_all add: gk104_fifo_engidx_def ex_dev_def)
  have ok: "\<forall>engn \<in> set [2, 3].
      \<exists>i. gk104_fifo_engidx ex_dev engn = Some i \<and> i < length (fifo_engines ex_dev)"
    by (simp add: ei)
  from C1_fault_merge [where h = ex_hw and dev = ex_dev and engns = "[2, 3]", OF c1 b(3) b(4)]
  obtain s2 where s2: "gk104_fifo_mmu_fault_recover ex_hw s1 (Some 3) 1 5 = Done s2"
    "priv_mask s2 = priv_mask s1 OR push_bit 3 1"
    "fault_unit s2 = fault_unit s1 OR push_bit 5 1"
    "fault_chan s2 = Some 1"
    "mmu_fault s2"
    and w: "todo_engines (priv_mask s1 OR push_bit 3 1) = Some [2, 3]
            \<and> (\<forall>engn \<in> set [2, 3].
                 \<exists>i. gk104_fifo_engidx ex_dev engn = Some i \<and> i < length (fifo_engines ex_dev))
            \<longrightarrow> (\<exists>s' engm hf tr.
                   engm_loop ex_dev [2, 3] (0, False) = Some (engm, hf)
                 \<and> run_mmu_fault_work ex_hw ex_dev s2 = Done s'
                 \<and> priv_mask s' = 0 \<and> fault_chan s' = None \<and> fault_unit s' = 0
                 \<and> \<not> mmu_fault s'
                 \<and> channel s' = channel s2
                 \<and> trace s' = trace s2 @ [PmRuntimeGet] @
                     (if has_disable_clk_gating ex_dev then [DisableClkGating] else []) @
                     [Mask32 0x002630 engm engm] @
                     (if hf \<and> has_halt_fecs ex_dev then [HaltFecs] else []) @
                     reset_loop ex_dev [2, 3] @
                     [Wr32 0x400500 (rd32 ex_hw 0x400500 OR push_bit 16 1 OR push_bit 0 1)] @
                     tr @
                     [Wr32 0x00259c (fault_unit s1 OR push_bit 5 1),
                      Wr32 0x00262c engm,
                      Mask32 0x002630 engm 0x00000000,
                      Mask32 0x002140 0x10000100 0x10000100] @
                     (if has_enable_clk_gating ex_dev then [EnableClkGating] else []) @
                     [NvError ''channel clean up done\<newline>'' []] @
                     (if pm_usable ex_hw then [PmRuntimePut] else [])
                 \<and> run_mmu_fault_work ex_hw ex_dev s' = Done s')"
    by (elim exE conjE)
  have m2: "priv_mask s2 = 12"
    by (simp add: s2(2) m1)
  have u2: "fault_unit s2 = 33"
    by (simp add: s2(3) u1)
  from te ok have pre: "todo_engines (priv_mask s1 OR push_bit 3 1) = Some [2, 3]
            \<and> (\<forall>engn \<in> set [2, 3].
                 \<exists>i. gk104_fifo_engidx ex_dev engn = Some i \<and> i < length (fifo_engines ex_dev))"
    by (rule conjI)
  from w [THEN mp, OF pre]
  obtain s3 where d3: "run_mmu_fault_work ex_hw ex_dev s2 = Done s3"
    "priv_mask s3 = 0" "fault_chan s3 = None" "fault_unit s3 = 0" "\<not> mmu_fault s3"
    "channel s3 = channel s2"
    "run_mmu_fault_work ex_hw ex_dev s3 = Done s3"
    by (elim exE conjE)
  from c0 s1(1,4) c1 s2(1) m2 s2(4) u2 s2(5) t12 ei d3 show ?thesis
    by (intro exI conjI)
qed

subsection \<open>Run-list rebuild\<close>

lemma runlist_fill_step:
  "runlist_fill chans e (i # ids) (m, p) =
     (if on_runlist chans e i
      then runlist_fill chans e ids (m(p := of_nat i, p + 4 := 0), p + 8)
      else runlist_fill chans e ids (m, p))"
  by (simp add: nv_wo32_def)

lemma runlist_fill_spec:
  "snd (runlist_fill chans e ids (m, p)) = p + 8 * length (filter (on_runlist chans e) ids)
   \<and> (\<forall>k < length (filter (on_runlist chans e) ids).
         fst (runlist_fill chans e ids (m, p)) (p + 8 * k)
           = of_nat (filter (on_runlist chans e) ids ! k)
         \<and> fst (runlist_fill chans e ids (m, p)) (p + 8 * k + 4) = 0)
   \<and> (\<forall>off < p. fst (runlist_fill chans e ids (m, p)) off = m off)"
proof (induction ids arbitrary: m p)
  case Nil
  show ?case by simp
next
  case (Cons i ids)
  show ?case
  proof (cases "on_runlist chans e i")
    case False
    then show ?thesis
      unfolding runlist_fill_step using Cons.IH [of m p] by simp
  next
    case True
    define m1 where "m1 = m(p := of_nat i, p + 4 := 0)"
    define F where "F = filter (on_runlist chans e) ids"
    have run: "runlist_fill chans e (i # ids) (m, p) = runlist_fill chans e ids (m1, p + 8)"
      unfolding runlist_fill_step m1_def using True by simp
    have fl: "filter (on_runlist chans e) (i # ids) = i # F"
      using True by (simp add: F_def)
    note ih = Cons.IH [of m1 "p + 8", folded F_def]
    from ih have len: "snd (runlist_fill chans e ids (m1, p + 8)) = p + 8 + 8 * length F"
      by simp
    from ih have vals: "\<And>k. k < length F \<Longrightarrow>
         fst (runlist_fill chans e ids (m1, p + 8)) (p + 8 + 8 * k) = of_nat (F ! k)
         \<and> fst (runlist_fill chans e ids (m1, p + 8)) (p + 8 + 8 * k + 4) = 0"
      by simp
    from ih have low: "\<And>off. off < p + 8 \<Longrightarrow>
         fst (runlist_fill chans e ids (m1, p + 8)) off = m1 off"
      by simp
    have a: "snd (runlist_fill chans e ids (m1, p + 8)) = p + 8 * length (i # F)"
      using len by simp
    have b: "\<forall>k < length (i # F).
         fst (runlist_fill chans e ids (m1, p + 8)) (p + 8 * k) = of_nat ((i # F) ! k)
         \<and> fst (runlist_fill chans e ids (m1, p + 8)) (p + 8 * k + 4) = 0"
    proof (intro allI impI)
      fix k
      assume k: "k < length (i # F)"
      show "fst (runlist_fill chans e ids (m1, p + 8)) (p + 8 * k) = of_nat ((i # F) ! k)
         \<and> fst (runlist_fill chans e ids (m1, p + 8)) (p + 8 * k + 4) = 0"
      proof (cases k)
        case 0
        have "fst (runlist_fill chans e ids (m1, p + 8)) p = m1 p"
          by (rule low) simp
        moreover have "fst (runlist_fill chans e ids (m1, p + 8)) (p + 4) = m1 (p + 4)"
          by (rule low) simp
        ultimately show ?thesis
          using 0 by (simp add: m1_def)
      next
        case (Suc j)
        with k have "j < length F"
          by simp
        have e1: "p + 8 * k = p + 8 + 8 * j"
          using Suc by simp
        have e2: "(i # F) ! k = F ! j"
          using Suc by simp
        show ?thesis
          unfolding e1 e2 by (rule vals [OF \<open>j < length F\<close>])
      qed
    qed
    have c: "\<forall>off < p. fst (runlist_fill chans e ids (m1, p + 8)) off = m off"
    proof (intro allI impI)
      fix off
      assume o: "off < p"
      then have "fst (runlist_fill chans e ids (m1, p + 8)) off = m1 off"
        by (intro low) simp
      with o show "fst (runlist_fill chans e ids (m1, p + 8)) off = m off"
        by (simp add: m1_def)
    qed
    from a b c show ?thesis
      unfolding run fl by (intro conjI)
  qed
qed


lemma runlist_update_unfold:
  "gk104_fifo_runlist_update h priv e =
     priv\<lparr>engines := (engines priv)
              (unat e := (engines priv (unat e))
                 \<lparr>cur_runlist := lnot (cur_runlist (engines priv (unat e))),
                  runlist := (runlist (engines priv (unat e)))
                    (cur_runlist (engines priv (unat e)) :=
                       (runlist (engines priv (unat e)) (cur_runlist (engines priv (unat e))))
                         \<lparr>mem := fst (runlist_fill (channel priv) e [0..<max_chid priv]
                                  (mem (runlist (engines priv (unat e))
                                          (cur_runlist (engines priv (unat e)))), 0))\<rparr>)\<rparr>),
          trace := trace priv @
            ([PmuAcquireMutex] @
             (case acquire_mutex h of
                None \<Rightarrow> []
              | Some err \<Rightarrow> [NvError ''runlist update acquire mutex failed: %d\<newline>'' []])) @
            [BarFlush,
             Wr32 0x002270 (ucast (drop_bit 12 (addr (runlist (engines priv (unat e))
                                          (cur_runlist (engines priv (unat e))))))),
             Wr32 0x002274 (push_bit 20 e OR
                of_nat (drop_bit 3 (snd (runlist_fill (channel priv) e [0..<max_chid priv]
                                  (mem (runlist (engines priv (unat e))
                                          (cur_runlist (engines priv (unat e)))), 0)))))] @
            ((if runlist_wait h (unat e) then []
              else [NvError ''runlist %d update timeout\<newline>'' [unat e]]) @
             (case acquire_mutex h of None \<Rightarrow> [PmuReleaseMutex] | Some err \<Rightarrow> []))\<rparr>"
  by (simp add: gk104_fifo_runlist_update_def Let_def split_beta emit_def split: option.split)


text \<open>
  C4: a rebuild of the run list of engine \<open>e\<close> writes, from offset 0 of the buffer
  \<open>c\<close> that \<open>cur_runlist\<close> designates, one entry (the channel id and a zero word) for
  each id below \<open>base.max\<close> whose slot holds a channel that is \<open>RUNNING\<close> and bound
  to \<open>e\<close>, in increasing order of the ids, so no id appears twice and no channel that
  is \<open>STOPPED\<close>, \<open>KILLED\<close> or bound to another engine appears. When every channel of
  the table has an id below \<open>base.max\<close>, these are all the running channels of the
  engine. The hardware is then pointed at this buffer with this number of entries, and
  \<open>cur_runlist\<close> is negated: it designates one of the two buffers, another one than
  before, and after the next rebuild it is negated again, which for the indices 0 and 1
  is the buffer written first. The other buffer of the engine, the other engines and
  the channels are unchanged.
\<close>

theorem C4_runlist_update:
  assumes ids: "ids = filter (on_runlist (channel priv) e) [0..<max_chid priv]"
    and c: "c = cur_runlist (engines priv (unat e))"
    and p': "priv' = gk104_fifo_runlist_update h priv e"
  shows "runlist_entries (runlist (engines priv' (unat e)) c) (length ids)
           = map (\<lambda>i. (of_nat i, 0)) ids
     \<and> set ids = {i. i < max_chid priv
                      \<and> (\<exists>chan. channel priv i = Some chan \<and> state chan = RUNNING
                                  \<and> engine chan = e)}
     \<and> ((\<forall>i chan. channel priv i = Some chan \<longrightarrow> i < max_chid priv) \<longrightarrow>
          set ids = {i. \<exists>chan. channel priv i = Some chan \<and> state chan = RUNNING
                                  \<and> engine chan = e})
     \<and> distinct ids \<and> sorted_wrt (<) ids
     \<and> trace priv' = trace priv @
            [PmuAcquireMutex] @
            (case acquire_mutex h of
               None \<Rightarrow> []
             | Some err \<Rightarrow> [NvError ''runlist update acquire mutex failed: %d\<newline>'' []]) @
            [BarFlush,
             Wr32 0x002270 (ucast (drop_bit 12 (addr (runlist (engines priv (unat e)) c)))),
             Wr32 0x002274 (push_bit 20 e OR of_nat (length ids))] @
            (if runlist_wait h (unat e) then []
             else [NvError ''runlist %d update timeout\<newline>'' [unat e]]) @
            (case acquire_mutex h of None \<Rightarrow> [PmuReleaseMutex] | Some err \<Rightarrow> [])
     \<and> cur_runlist (engines priv' (unat e)) = lnot c
     \<and> (\<forall>k. k \<noteq> c \<longrightarrow>
           runlist (engines priv' (unat e)) k = runlist (engines priv (unat e)) k)
     \<and> (\<forall>e'. e' \<noteq> unat e \<longrightarrow> engines priv' e' = engines priv e')
     \<and> channel priv' = channel priv
     \<and> lnot c \<le> 1 \<and> lnot c \<noteq> c
     \<and> cur_runlist (engines (gk104_fifo_runlist_update h priv' e) (unat e)) = lnot (lnot c)
     \<and> (c \<le> 1 \<longrightarrow> lnot (lnot c) = c)"
proof -
  define m0 where "m0 = mem (runlist (engines priv (unat e)) c)"
  define R where "R = runlist_fill (channel priv) e [0..<max_chid priv] (m0, 0)"
  note sp = runlist_fill_spec [of "channel priv" e "[0..<max_chid priv]" m0 0,
      folded R_def ids]
  from sp have len: "snd R = 8 * length ids"
    by simp
  from sp have vals: "\<And>k. k < length ids \<Longrightarrow> fst R (8 * k) = of_nat (ids ! k)
      \<and> fst R (8 * k + 4) = 0"
    by simp
  note u = runlist_update_unfold [of h priv e, folded c, folded m0_def, folded R_def,
      folded p']
  have buf: "mem (runlist (engines priv' (unat e)) c) = fst R"
    by (simp add: u)
  have ent: "runlist_entries (runlist (engines priv' (unat e)) c) (length ids)
           = map (\<lambda>i. (of_nat i, 0)) ids"
    unfolding runlist_entries_def buf
    by (rule nth_equalityI) (simp_all add: vals)
  have st: "set ids = {i. i < max_chid priv
                      \<and> (\<exists>chan. channel priv i = Some chan \<and> state chan = RUNNING
                                  \<and> engine chan = e)}"
    unfolding ids by (auto simp: on_runlist_def split: option.splits)
  have st2: "(\<forall>i chan. channel priv i = Some chan \<longrightarrow> i < max_chid priv) \<longrightarrow>
          set ids = {i. \<exists>chan. channel priv i = Some chan \<and> state chan = RUNNING
                                  \<and> engine chan = e}"
    unfolding st by auto
  have di: "distinct ids" "sorted_wrt (<) ids"
    unfolding ids by (simp_all add: sorted_wrt_filter)
  have d3: "drop_bit 3 (snd R) = length ids"
    by (simp add: len drop_bit_eq_div)
  have tr: "trace priv' = trace priv @
            [PmuAcquireMutex] @
            (case acquire_mutex h of
               None \<Rightarrow> []
             | Some err \<Rightarrow> [NvError ''runlist update acquire mutex failed: %d\<newline>'' []]) @
            [BarFlush,
             Wr32 0x002270 (ucast (drop_bit 12 (addr (runlist (engines priv (unat e)) c)))),
             Wr32 0x002274 (push_bit 20 e OR of_nat (length ids))] @
            (if runlist_wait h (unat e) then []
             else [NvError ''runlist %d update timeout\<newline>'' [unat e]]) @
            (case acquire_mutex h of None \<Rightarrow> [PmuReleaseMutex] | Some err \<Rightarrow> [])"
    by (simp add: u d3)
  have cu: "cur_runlist (engines priv' (unat e)) = lnot c"
    by (simp add: u)
  have ot: "\<forall>k. k \<noteq> c \<longrightarrow>
           runlist (engines priv' (unat e)) k = runlist (engines priv (unat e)) k"
    by (simp add: u)
  have oe: "\<forall>e'. e' \<noteq> unat e \<longrightarrow> engines priv' e' = engines priv e'"
    by (simp add: u)
  have chn: "channel priv' = channel priv"
    by (simp add: u)
  have nx: "cur_runlist (engines (gk104_fifo_runlist_update h priv' e) (unat e)) = lnot (lnot c)"
    by (simp add: runlist_update_unfold [of h priv' e] cu)
  have fl: "lnot c \<le> 1" "lnot c \<noteq> c" "c \<le> 1 \<longrightarrow> lnot (lnot c) = c"
    by (auto simp: lnot_def)
  from ent st st2 di tr cu ot oe chn fl(1,2) nx fl(3) show ?thesis
    by (intro conjI)
qed

theorem C4_runlist_update_witness:
  "filter (on_runlist (channel ex_mixed) 0) [0..<max_chid ex_mixed] = [0, 2]
   \<and> cur_runlist (engines ex_mixed 0) = 0
   \<and> runlist_entries
         (runlist (engines (gk104_fifo_runlist_update ex_hw ex_mixed 0) 0) 0) 2
       = [(0, 0), (2, 0)]
   \<and> {i. \<exists>chan. channel ex_mixed i = Some chan \<and> state chan = RUNNING \<and> engine chan = 0}
       = {0, 2}
   \<and> cur_runlist (engines (gk104_fifo_runlist_update ex_hw ex_mixed 0) 0) = 1
   \<and> cur_runlist (engines (gk104_fifo_runlist_update ex_hw
         (gk104_fifo_runlist_update ex_hw ex_mixed 0) 0) 0) = 0"
proof -
  have ids: "filter (on_runlist (channel ex_mixed) 0) [0..<max_chid ex_mixed] = [0, 2]"
    by (simp add: ex_mixed_def ex_priv_def ex_chan_def on_runlist_def upt_rec)
  have c: "cur_runlist (engines ex_mixed 0) = 0"
    by (simp add: ex_mixed_def ex_priv_def ex_engn_def)
  have hyp: "\<forall>i chan. channel ex_mixed i = Some chan \<longrightarrow> i < max_chid ex_mixed"
    by (simp add: ex_mixed_def ex_priv_def)
  note t = C4_runlist_update [of "[0, 2]" ex_mixed 0 0 _ ex_hw, OF ids [symmetric] _ refl]
  have u: "unat (0 :: u32) = 0"
    by simp
  note t1 = t [unfolded u, OF c [symmetric]]
  have l2: "length [0, 2 :: nat] = 2"
    "map (\<lambda>i. (of_nat i, 0)) [0, 2 :: nat] = [(0, 0), (2 :: u32, 0 :: u32)]"
    by simp_all
  note a = t1 [THEN conjunct1, unfolded l2]
  from t1 [THEN conjunct2, THEN conjunct2, THEN conjunct1, THEN mp, OF hyp]
  have b: "{i. \<exists>chan. channel ex_mixed i = Some chan \<and> state chan = RUNNING \<and> engine chan = 0}
       = {0, 2}"
    by simp
  from t1 have d: "cur_runlist (engines (gk104_fifo_runlist_update ex_hw ex_mixed 0) 0) = 1"
    by (simp add: lnot_def)
  from t1 have e: "cur_runlist (engines (gk104_fifo_runlist_update ex_hw
         (gk104_fifo_runlist_update ex_hw ex_mixed 0) 0) 0) = 0"
    by (simp add: lnot_def)
  from ids c a b d e show ?thesis
    by (intro conjI)
qed

subsection \<open>Channel life cycle\<close>

lemma state_of_emit: "state_of (emit es priv) = state_of priv"
  by (simp add: state_of_def emit_def fun_eq_iff)

lemma state_of_put_chan: "state_of (put_chan c ch priv) = (state_of priv)(c := Some (state ch))"
  by (simp add: state_of_def put_chan_def fun_eq_iff)

lemma state_of_runlist_update: "state_of (gk104_fifo_runlist_update h priv e) = state_of priv"
  using runlist_update_frame [of h priv e] by (simp add: state_of_def fun_eq_iff)

lemma state_of_same: "channel priv c = Some ch \<Longrightarrow> state ch' = state ch \<Longrightarrow>
    (state_of priv)(c := Some (state ch')) = state_of priv"
  by (auto simp: state_of_def fun_eq_iff)

lemma chan_init_states:
  assumes "state_after (gk104_fifo_chan_init h priv c) = Some s"
  shows "state_of s = state_of priv
       \<or> (state_of priv c = Some STOPPED \<and> state_of s = (state_of priv)(c := Some RUNNING))"
proof (cases "channel priv c")
  case None
  with assms show ?thesis
    by (simp add: gk104_fifo_chan_init_def)
next
  case (Some chan)
  show ?thesis
  proof (cases "channel_init h c")
    case (Some err)
    with assms \<open>channel priv c = Some chan\<close> show ?thesis
      by (auto simp: gk104_fifo_chan_init_def state_of_emit)
  next
    case None
    show ?thesis
    proof (cases "state chan = STOPPED")
      case True
      with assms None Some have "state_of s = (state_of priv)(c := Some RUNNING)"
        by (auto simp: gk104_fifo_chan_init_def Let_def state_of_emit state_of_runlist_update
            state_of_put_chan)
      moreover from True Some have "state_of priv c = Some STOPPED"
        by (simp add: state_of_def)
      ultimately show ?thesis
        by simp
    next
      case False
      with assms None Some show ?thesis
        by (auto simp: gk104_fifo_chan_init_def Let_def state_of_emit)
    qed
  qed
qed

lemma timeout_stop_state: "state (gk104_fifo_chan_timeout_stop ch) = state ch"
  by (simp add: gk104_fifo_chan_timeout_stop_def)

lemma timeout_start_state: "state (gk104_fifo_chan_timeout_start g ch) = state ch"
  by (simp add: gk104_fifo_chan_timeout_start_def)

lemma chan_fini_states:
  assumes "state_after (gk104_fifo_chan_fini h priv c suspend) = Some s"
  shows "state_of s = state_of priv
       \<or> (state_of priv c = Some RUNNING \<and> state_of s = (state_of priv)(c := Some STOPPED))"
proof (cases "channel priv c")
  case None
  with assms show ?thesis
    by (simp add: gk104_fifo_chan_fini_def)
next
  case (Some chan)
  show ?thesis
  proof (cases "suspend \<and> \<not> nv_wait h (0x002640 + engine chan * 8)")
    case True
    with assms Some show ?thesis
      by (auto simp: gk104_fifo_chan_fini_def state_of_emit)
  next
    case False
    define chan1 where "chan1 = gk104_fifo_chan_timeout_stop chan"
    have st1: "state chan1 = state chan"
      by (simp add: chan1_def timeout_stop_state)
    define priv2 where "priv2 = (if state chan1 = RUNNING
                         then gk104_fifo_runlist_update h
                                (emit [ChanDisable (chid chan)]
                                   (put_chan c (chan1\<lparr>state := STOPPED\<rparr>) (put_chan c chan1 priv)))
                                (engine chan)
                         else put_chan c chan1 priv)"
    have p1: "state_of (put_chan c chan1 priv) = state_of priv"
      by (simp add: state_of_put_chan state_of_same [OF Some st1])
    have s2: "state_of priv2 = state_of priv
       \<or> (state_of priv c = Some RUNNING \<and> state_of priv2 = (state_of priv)(c := Some STOPPED))"
    proof (cases "state chan1 = RUNNING")
      case True
      then have "state_of priv c = Some RUNNING"
        using Some st1 by (simp add: state_of_def)
      moreover have "state_of priv2 = (state_of priv)(c := Some STOPPED)"
        using True by (simp add: priv2_def state_of_runlist_update state_of_emit
            state_of_put_chan p1 [unfolded state_of_put_chan])
      ultimately show ?thesis
        by simp
    next
      case False
      then show ?thesis
        by (simp add: priv2_def p1)
    qed
    have "state_of s = state_of priv2"
      using assms Some False
      by (auto simp: gk104_fifo_chan_fini_def Let_def state_of_emit
          chan1_def [symmetric] priv2_def [symmetric] split: option.splits if_splits)
    with s2 show ?thesis
      by simp
  qed
qed

lemma set_timeslice_states:
  "state_after (gk104_fifo_set_runlist_timeslice priv c tslice) = Some s \<Longrightarrow>
   state_of s = state_of priv"
  by (cases "channel priv c")
     (auto simp: gk104_fifo_set_runlist_timeslice_def state_of_emit)

lemma set_priority_states:
  "state_after (gk104_fifo_chan_set_priority cls unpack priv c priority) = Some s \<Longrightarrow>
   state_of s = state_of priv"
  by (cases unpack)
     (auto simp: gk104_fifo_chan_set_priority_def set_timeslice_states split: if_splits)

lemma set_timeout_states:
  "state_after (gk104_fifo_chan_set_timeout unpack priv c timeout_ms) = Some s \<Longrightarrow>
   state_of s = state_of priv"
proof (cases unpack)
  case (Some err)
  assume "state_after (gk104_fifo_chan_set_timeout unpack priv c timeout_ms) = Some s"
  with Some show ?thesis
    by (auto simp: gk104_fifo_chan_set_timeout_def)
next
  case None
  assume a: "state_after (gk104_fifo_chan_set_timeout unpack priv c timeout_ms) = Some s"
  show ?thesis
  proof (cases "channel priv c")
    case None
    with a \<open>unpack = None\<close> show ?thesis
      by (simp add: gk104_fifo_chan_set_timeout_def)
  next
    case (Some chan)
    with a \<open>unpack = None\<close>
    have "s = put_chan c (chan\<lparr>limit_ms := timeout_ms\<rparr>) priv"
      by (simp add: gk104_fifo_chan_set_timeout_def)
    then show ?thesis
      by (simp add: state_of_put_chan state_of_same [OF Some])
  qed
qed

lemma mmu_fault_recover_states:
  assumes "state_after (gk104_fifo_mmu_fault_recover h priv eng c unit) = Some s"
  shows "state_of priv c \<noteq> None \<and> state_of s = (state_of priv)(c := Some KILLED)"
proof (cases "channel priv c")
  case None
  with assms show ?thesis
    by (simp add: gk104_fifo_mmu_fault_recover_def)
next
  case (Some chan)
  show ?thesis
  proof (cases eng)
    case None
    with assms Some show ?thesis
      by (simp add: gk104_fifo_mmu_fault_recover_def)
  next
    case (Some e)
    with assms \<open>channel priv c = Some chan\<close> show ?thesis
      by (auto simp: gk104_fifo_mmu_fault_recover_def Let_def state_of_def put_chan_def
          emit_def fun_eq_iff split: if_splits)
  qed
qed

lemma sched_ctxsw_recover_states:
  assumes "state_after (gk104_fifo_sched_ctxsw_recover h priv eng c) = Some s"
  shows "state_of priv c \<noteq> None \<and> state_of s = (state_of priv)(c := Some KILLED)"
proof (cases "channel priv c")
  case None
  with assms show ?thesis
    by (simp add: gk104_fifo_sched_ctxsw_recover_def)
next
  case (Some chan)
  show ?thesis
  proof (cases eng)
    case None
    with assms Some show ?thesis
      by (simp add: gk104_fifo_sched_ctxsw_recover_def)
  next
    case (Some e)
    define p1 where "p1 = emit ([NvError ''%s engine sched ctxsw timeout on channel %d\<newline>''
                                   [e, chid chan],
                                 Mask32 0x002140 0x10000100 0x00000000,
                                 Wr32 0x002100 0x00000100,
                                 Wr32 0x002a30 0x00000100] @
                                (if nv_wait h 0x002100 then []
                                 else [NvError ''triggering mmu fault timed out\<newline>'' []]) @
                                [Wr32 0x002a30 0x00000000]) priv"
    from assms Some \<open>channel priv c = Some chan\<close>
    have "state_after (gk104_fifo_mmu_fault_recover h p1 eng c 0) = Some s"
      by (simp add: gk104_fifo_sched_ctxsw_recover_def Let_def p1_def)
    from mmu_fault_recover_states [OF this] show ?thesis
      by (simp add: p1_def state_of_emit)
  qed
qed

lemma recover_work_not_failed:
  "gk104_fifo_mmu_fault_recover_work h dev priv \<noteq> Failed err s"
  by (auto simp: gk104_fifo_mmu_fault_recover_work_def recover_act_def fault_take_def
      runlist_loop_not_failed split: option.splits outcome.splits prod.splits)

lemma mmu_fault_work_states:
  assumes "state_after (run_mmu_fault_work h dev priv) = Some s"
  shows "state_of s = state_of priv"
proof (cases "mmu_fault priv")
  case False
  with assms show ?thesis
    by (simp add: run_mmu_fault_work_def)
next
  case True
  define p where "p = priv\<lparr>mmu_fault := False\<rparr>"
  from assms True have a: "state_after (gk104_fifo_mmu_fault_recover_work h dev p) = Some s"
    by (simp add: run_mmu_fault_work_def p_def)
  have "gk104_fifo_mmu_fault_recover_work h dev p = Done s"
  proof (cases "gk104_fifo_mmu_fault_recover_work h dev p")
    case (Done x)
    with a show ?thesis by simp
  next
    case (Failed err x)
    then show ?thesis
      by (simp add: recover_work_not_failed)
  next
    case (Crash f)
    with a show ?thesis by simp
  qed
  from recover_work_done [OF this] have "channel s = channel p"
    by simp
  then show ?thesis
    by (simp add: state_of_def fun_eq_iff p_def)
qed

lemma chan_timeout_work_states:
  assumes "state_after (gk104_fifo_chan_timeout_work h dev priv c) = Some s"
  shows "state_of s = state_of priv
       \<or> (state_of priv c \<noteq> None \<and> state_of s = (state_of priv)(c := Some KILLED))"
proof (cases "channel priv c")
  case None
  with assms show ?thesis
    by (simp add: gk104_fifo_chan_timeout_work_def)
next
  case (Some ch)
  define ch1 where "ch1 = ch\<lparr>watchdog_inited := False\<rparr>"
  define priv1 where "priv1 = put_chan c ch1 priv"
  have p1: "state_of priv1 = state_of priv"
    by (simp add: priv1_def ch1_def state_of_put_chan state_of_same [OF Some])
  have c1: "channel priv1 c = Some ch1"
    by (simp add: priv1_def put_chan_def)
  show ?thesis
  proof (cases "watchdog_inited ch")
    case False
    with assms Some have "s = priv1"
      by (simp add: gk104_fifo_chan_timeout_work_def Let_def priv1_def ch1_def)
    with p1 show ?thesis
      by simp
  next
    case True
    show ?thesis
    proof (cases "ro32_get h c \<noteq> watchdog_gpfifo_get ch")
      case True
      with assms Some \<open>watchdog_inited ch\<close>
      have "s = emit (if pm_usable h then [PmRuntimePut] else [])
                  (put_chan c (gk104_fifo_chan_timeout_start (ro32_get h c) ch1)
                     (emit [PmRuntimeGet] priv1))"
        by (simp add: gk104_fifo_chan_timeout_work_def Let_def priv1_def ch1_def)
      then have "state_of s = (state_of priv1)(c := Some (state ch1))"
        by (simp add: state_of_emit state_of_put_chan timeout_start_state)
      also have "\<dots> = state_of priv1"
        using c1 by (auto simp: state_of_def fun_eq_iff)
      finally show ?thesis
        using p1 by simp
    next
      case False
      define p2 where "p2 = emit [NvError ''Channel %d timed out\<newline>'' [chid ch],
                                   Eevent (chid ch) FIFO_ERROR_IDLE_TIMEOUT]
                              (emit [PmRuntimeGet] priv1)"
      have p2s: "state_of p2 = state_of priv"
        by (simp add: p2_def state_of_emit p1)
      define r where "r = gk104_fifo_sched_ctxsw_recover h p2 (gk104_fifo_engine dev 0) c"
      from assms Some \<open>watchdog_inited ch\<close> False
      have a: "state_after (case r of
                       Crash f \<Rightarrow> Crash f
                     | Failed err s \<Rightarrow> Failed err s
                     | Done priv3 \<Rightarrow>
                         Done (emit (if pm_usable h then [PmRuntimePut] else []) priv3))
               = Some s"
        by (simp add: gk104_fifo_chan_timeout_work_def Let_def priv1_def ch1_def p2_def r_def)
      then obtain s0 where s0: "state_after r = Some s0" "state_of s = state_of s0"
        by (cases r) (auto simp: state_of_emit)
      from sched_ctxsw_recover_states [OF s0(1) [unfolded r_def]] s0(2) p2s
      show ?thesis
        by simp
    qed
  qed
qed

lemma restart_all_states:
  "state_of (snd (gk104_fifo_chan_timeout_restart_all priv exc)) = state_of priv"
proof (rule ext)
  fix j
  note f = restart_all_loop_frame [of "channel priv" j exc "[min_chid priv..<max_chid priv]"]
  have e: "channel (snd (gk104_fifo_chan_timeout_restart_all priv exc)) j
      = snd (restart_all_loop exc [min_chid priv..<max_chid priv] (channel priv)) j"
    by (simp add: gk104_fifo_chan_timeout_restart_all_def split_beta)
  show "state_of (snd (gk104_fifo_chan_timeout_restart_all priv exc)) j = state_of priv j"
  proof (cases "channel priv j")
    case None
    with f e show ?thesis
      by (simp add: state_of_def)
  next
    case (Some ch)
    with f obtain w where
      "snd (restart_all_loop exc [min_chid priv..<max_chid priv] (channel priv)) j
         = Some (ch\<lparr>watchdog_work := w\<rparr>)"
      by blast
    with e Some show ?thesis
      by (simp add: state_of_def)
  qed
qed

lemma ctxsw_escalate_states:
  assumes "state_after (ctxsw_escalate h priv eng cid) = Some s"
  shows "state_of s = state_of priv
       \<or> (state_of priv cid \<noteq> None \<and> state_of s = (state_of priv)(cid := Some KILLED))"
proof -
  define r where "r = gk104_fifo_chan_timeout_restart_all
                        (emit [Eevent cid FIFO_ERROR_IDLE_TIMEOUT] priv) cid"
  have rs: "state_of (snd r) = state_of priv"
    by (simp add: r_def restart_all_states state_of_emit)
  show ?thesis
  proof (cases "fst r")
    case False
    with assms have "s = snd r"
      by (simp add: ctxsw_escalate_def Let_def r_def)
    with rs show ?thesis
      by simp
  next
    case True
    with assms have "state_after (gk104_fifo_sched_ctxsw_recover h
                (emit [NvError ''recovering ctxsw timeout for ch %d\<newline>'' [cid]] (snd r))
                (Some eng) cid) = Some s"
      by (simp add: ctxsw_escalate_def Let_def r_def)
    from sched_ctxsw_recover_states [OF this] rs show ?thesis
      by (simp add: state_of_emit)
  qed
qed

lemma update_timeout_state:
  "state (snd (gk104_fifo_update_timeout g chan dt)) = state chan"
  by (simp add: gk104_fifo_update_timeout_def Let_def)

lemma ctxsw_engn_states:
  assumes "state_after (ctxsw_engn h dev engn priv) = Some s"
  shows "\<forall>j. state_of s j = state_of priv j
           \<or> (state_of priv j \<noteq> None \<and> state_of s j = Some KILLED)"
proof -
  define st where "st = ctxsw_status (rd32 h (0x002640 + of_nat engn * 0x08))"
  show ?thesis
  proof (cases "fst st")
    case False
    with assms have "s = priv"
      by (simp add: ctxsw_engn_def Let_def st_def)
    then show ?thesis
      by simp
  next
    case True
    show ?thesis
    proof (cases "channel priv (snd st)")
      case None
      with assms True have "s = priv"
        by (simp add: ctxsw_engn_def Let_def st_def)
      then show ?thesis
        by simp
    next
      case (Some chan)
      show ?thesis
      proof (cases "gk104_fifo_engine dev engn")
        case None
        with assms True Some have "s = priv"
          by (simp add: ctxsw_engn_def Let_def st_def)
        then show ?thesis
          by simp
      next
        case (Some eng)
        define r where "r = gk104_fifo_update_timeout (ro32_get h (snd st)) chan
                              (of_nat GRFIFO_TIMEOUT_CHECK_PERIOD_MS)"
        define priv1 where "priv1 = put_chan (snd st) (snd r) priv"
        have p1: "state_of priv1 = state_of priv"
          by (simp add: priv1_def state_of_put_chan r_def
              state_of_same [OF \<open>channel priv (snd st) = Some chan\<close> update_timeout_state])
        show ?thesis
        proof (cases "fst r")
          case False
          with assms True Some \<open>channel priv (snd st) = Some chan\<close>
          have "s = emit [UpdateRecoveryDelay,
                          NvError ''fifo waiting for ctxsw %d ms on ch %d\<newline>''
                                          [unat (sum_ms (snd r)), snd st]] priv1"
            by (simp add: ctxsw_engn_def Let_def st_def r_def priv1_def)
          then show ?thesis
            by (simp add: state_of_emit p1)
        next
          case True
          with assms \<open>fst st\<close> Some \<open>channel priv (snd st) = Some chan\<close>
          have "state_after (ctxsw_escalate h priv1 eng (snd st)) = Some s"
            by (simp add: ctxsw_engn_def Let_def st_def r_def priv1_def)
          from ctxsw_escalate_states [OF this]
          have "state_of s = state_of priv
               \<or> (state_of priv (snd st) \<noteq> None
                    \<and> state_of s = (state_of priv)(snd st := Some KILLED))"
            unfolding p1 .
          then show ?thesis
            by (auto split: if_splits)
        qed
      qed
    qed
  qed
qed

lemma ctxsw_loop_states:
  "state_after (ctxsw_loop h dev es priv) = Some s \<Longrightarrow>
   \<forall>j. state_of s j = state_of priv j
        \<or> (state_of priv j \<noteq> None \<and> state_of s j = Some KILLED)"
proof (induction es arbitrary: priv)
  case Nil
  then show ?case by simp
next
  case (Cons engn es)
  show ?case
  proof (cases "ctxsw_engn h dev engn priv")
    case (Done p1)
    with Cons.prems have "state_after (ctxsw_loop h dev es p1) = Some s"
      by simp
    from Cons.IH [OF this]
    have a: "\<forall>j. state_of s j = state_of p1 j
        \<or> (state_of p1 j \<noteq> None \<and> state_of s j = Some KILLED)" .
    from Done have "state_after (ctxsw_engn h dev engn priv) = Some p1"
      by simp
    from ctxsw_engn_states [OF this]
    have b: "\<forall>j. state_of p1 j = state_of priv j
           \<or> (state_of priv j \<noteq> None \<and> state_of p1 j = Some KILLED)" .
    show ?thesis
    proof
      fix j
      from a [THEN spec, of j] b [THEN spec, of j]
      show "state_of s j = state_of priv j
        \<or> (state_of priv j \<noteq> None \<and> state_of s j = Some KILLED)"
        by auto
    qed
  next
    case (Failed err p1)
    with Cons.prems have "s = p1"
      by simp
    with Failed have "state_after (ctxsw_engn h dev engn priv) = Some s"
      by simp
    from ctxsw_engn_states [OF this] show ?thesis .
  next
    case (Crash f)
    with Cons.prems show ?thesis
      by simp
  qed
qed

lemma intr_sched_ctxsw_states:
  "state_after (gk104_fifo_intr_sched_ctxsw h dev priv) = Some s \<Longrightarrow>
   \<forall>j. state_of s j = state_of priv j
        \<or> (state_of priv j \<noteq> None \<and> state_of s j = Some KILLED)"
  unfolding gk104_fifo_intr_sched_ctxsw_def by (rule ctxsw_loop_states)

lemma call_states:
  assumes a: "state_after (call dev cls h ent priv) = Some s"
  shows "state_of s j = state_of priv j
       \<or> (state_of priv j = Some STOPPED \<and> state_of s j = Some RUNNING \<and> ent = Chan_init j)
       \<or> (state_of priv j = Some RUNNING \<and> state_of s j = Some STOPPED
            \<and> (\<exists>suspend. ent = Chan_fini j suspend))
       \<or> (state_of priv j \<noteq> None \<and> state_of s j = Some KILLED
            \<and> ((\<exists>eng unit. ent = Mmu_fault_recover eng j unit)
               \<or> (\<exists>eng. ent = Sched_ctxsw_recover eng j)
               \<or> ent = Chan_timeout_work j
               \<or> ent = Intr_sched_ctxsw))"
proof (cases ent)
  case (Chan_init c)
  with a have "state_after (gk104_fifo_chan_init h priv c) = Some s"
    by (simp add: call_def)
  from chan_init_states [OF this] Chan_init show ?thesis
    by (cases "j = c") auto
next
  case (Chan_fini c suspend)
  with a have "state_after (gk104_fifo_chan_fini h priv c suspend) = Some s"
    by (simp add: call_def)
  from chan_fini_states [OF this] Chan_fini show ?thesis
    by (cases "j = c") auto
next
  case (Chan_set_priority unpack c priority)
  with a have "state_after (gk104_fifo_chan_set_priority cls unpack priv c priority) = Some s"
    by (simp add: call_def)
  from set_priority_states [OF this] show ?thesis
    by simp
next
  case (Chan_set_timeout unpack c timeout_ms)
  with a have "state_after (gk104_fifo_chan_set_timeout unpack priv c timeout_ms) = Some s"
    by (simp add: call_def)
  from set_timeout_states [OF this] show ?thesis
    by simp
next
  case (Runlist_update e)
  with a have "s = gk104_fifo_runlist_update h priv e"
    by (simp add: call_def)
  then show ?thesis
    by (simp add: state_of_runlist_update)
next
  case (Mmu_fault_recover eng c unit)
  with a have "state_after (gk104_fifo_mmu_fault_recover h priv eng c unit) = Some s"
    by (simp add: call_def)
  from mmu_fault_recover_states [OF this] Mmu_fault_recover show ?thesis
    by (cases "j = c") auto
next
  case (Sched_ctxsw_recover eng c)
  with a have "state_after (gk104_fifo_sched_ctxsw_recover h priv eng c) = Some s"
    by (simp add: call_def)
  from sched_ctxsw_recover_states [OF this] Sched_ctxsw_recover show ?thesis
    by (cases "j = c") auto
next
  case Mmu_fault_work
  with a have "state_after (run_mmu_fault_work h dev priv) = Some s"
    by (simp add: call_def)
  from mmu_fault_work_states [OF this] show ?thesis
    by simp
next
  case (Chan_timeout_work c)
  with a have "state_after (gk104_fifo_chan_timeout_work h dev priv c) = Some s"
    by (simp add: call_def)
  from chan_timeout_work_states [OF this] Chan_timeout_work show ?thesis
    by (cases "j = c") auto
next
  case Intr_sched_ctxsw
  with a have "state_after (gk104_fifo_intr_sched_ctxsw h dev priv) = Some s"
    by (simp add: call_def)
  from intr_sched_ctxsw_states [OF this, THEN spec, of j] Intr_sched_ctxsw show ?thesis
    by auto
qed

lemma calls_killed:
  "state_of priv j = Some KILLED \<Longrightarrow> calls dev cls es priv = Some s \<Longrightarrow>
   state_of s j = Some KILLED"
proof (induction es arbitrary: priv)
  case Nil
  then show ?case by simp
next
  case (Cons x es)
  obtain h ent where x: "x = (h, ent)"
    by (cases x)
  from Cons.prems(2) x obtain s1 where
    s1: "state_after (call dev cls h ent priv) = Some s1" "calls dev cls es s1 = Some s"
    by (cases "state_after (call dev cls h ent priv)") simp_all
  from call_states [OF s1(1), of j] Cons.prems(1) have "state_of s1 j = Some KILLED"
    by auto
  from Cons.IH [OF this s1(2)] show ?case .
qed

text \<open>
  C2: whatever an entry point that works on existing channels leaves behind (it may
  return 0 or an error code), the state of the channel in any slot \<open>j\<close> is the one
  before the call, with three exceptions: a start of channel \<open>j\<close> takes it from
  \<open>STOPPED\<close> to \<open>RUNNING\<close>, a stop of channel \<open>j\<close> takes it from \<open>RUNNING\<close> to
  \<open>STOPPED\<close>, and the synchronous half of recovery (called for channel \<open>j\<close>, directly
  or through the synthesized fault of \<open>gk104_fifo_sched_ctxsw_recover\<close>, which the
  watchdog expiry of channel \<open>j\<close> and the context-switch timeout monitor call) sets it
  to \<open>KILLED\<close>. So a channel that is \<open>KILLED\<close> is \<open>KILLED\<close> after every sequence of
  such calls; the set-priority and set-timeout methods, a run-list rebuild and the
  asynchronous half of recovery change no channel's state, and no call empties or fills
  a slot.
\<close>

theorem C2_killed_terminal:
  "(\<forall>s. state_after (call dev cls h ent priv) = Some s \<longrightarrow>
         state_of s j = state_of priv j
       \<or> (state_of priv j = Some STOPPED \<and> state_of s j = Some RUNNING \<and> ent = Chan_init j)
       \<or> (state_of priv j = Some RUNNING \<and> state_of s j = Some STOPPED
            \<and> (\<exists>suspend. ent = Chan_fini j suspend))
       \<or> (state_of priv j \<noteq> None \<and> state_of s j = Some KILLED
            \<and> ((\<exists>eng unit. ent = Mmu_fault_recover eng j unit)
               \<or> (\<exists>eng. ent = Sched_ctxsw_recover eng j)
               \<or> ent = Chan_timeout_work j
               \<or> ent = Intr_sched_ctxsw)))
   \<and> (\<forall>s. state_of priv j = Some KILLED \<and> calls dev cls es priv = Some s \<longrightarrow>
         state_of s j = Some KILLED)"
proof (rule conjI)
  show "\<forall>s. state_after (call dev cls h ent priv) = Some s \<longrightarrow>
         state_of s j = state_of priv j
       \<or> (state_of priv j = Some STOPPED \<and> state_of s j = Some RUNNING \<and> ent = Chan_init j)
       \<or> (state_of priv j = Some RUNNING \<and> state_of s j = Some STOPPED
            \<and> (\<exists>suspend. ent = Chan_fini j suspend))
       \<or> (state_of priv j \<noteq> None \<and> state_of s j = Some KILLED
            \<and> ((\<exists>eng unit. ent = Mmu_fault_recover eng j unit)
               \<or> (\<exists>eng. ent = Sched_ctxsw_recover eng j)
               \<or> ent = Chan_timeout_work j
               \<or> ent = Intr_sched_ctxsw))"
  proof (intro allI impI)
    fix s
    assume "state_after (call dev cls h ent priv) = Some s"
    then show "state_of s j = state_of priv j
       \<or> (state_of priv j = Some STOPPED \<and> state_of s j = Some RUNNING \<and> ent = Chan_init j)
       \<or> (state_of priv j = Some RUNNING \<and> state_of s j = Some STOPPED
            \<and> (\<exists>suspend. ent = Chan_fini j suspend))
       \<or> (state_of priv j \<noteq> None \<and> state_of s j = Some KILLED
            \<and> ((\<exists>eng unit. ent = Mmu_fault_recover eng j unit)
               \<or> (\<exists>eng. ent = Sched_ctxsw_recover eng j)
               \<or> ent = Chan_timeout_work j
               \<or> ent = Intr_sched_ctxsw))"
      by (rule call_states)
  qed
next
  show "\<forall>s. state_of priv j = Some KILLED \<and> calls dev cls es priv = Some s \<longrightarrow>
         state_of s j = Some KILLED"
  proof (intro allI impI)
    fix s
    assume "state_of priv j = Some KILLED \<and> calls dev cls es priv = Some s"
    then show "state_of s j = Some KILLED"
      using calls_killed [of priv j dev cls es s] by simp
  qed
qed

theorem C2_killed_terminal_witness:
  "\<exists>s1 s2 s3.
     call ex_dev ex_cls ex_hw (Mmu_fault_recover (Some 2) 0 0) ex_priv = Done s1
   \<and> state_of ex_priv 0 = Some RUNNING
   \<and> state_of s1 0 = Some KILLED
   \<and> state_after (call ex_dev ex_cls ex_hw (Chan_init 0) s1) = Some s2
   \<and> state_of s2 0 = Some KILLED
   \<and> calls ex_dev ex_cls
        [(ex_hw, Chan_init 0), (ex_hw, Chan_fini 0 False), (ex_hw, Chan_set_timeout None 0 100)]
        s1 = Some s3
   \<and> state_of s3 0 = Some KILLED
   \<and> state_of s3 1 = Some RUNNING"
proof -
  define s1 where "s1 = ex_priv\<lparr>channel := (channel ex_priv)(0 \<mapsto> (ex_chan 0)\<lparr>state := KILLED\<rparr>),
                priv_mask := priv_mask ex_priv OR push_bit 2 1,
                fault_chan := Some 0,
                fault_unit := fault_unit ex_priv OR push_bit 0 1,
                mmu_fault := True,
                trace := trace ex_priv @
                  [NvError ''%s engine mmu fault on channel %d\<newline>'' [2, chid (ex_chan 0)],
                   Wr32 0x400500
                     (rd32 ex_hw 0x400500 AND NOT (push_bit 16 1) AND NOT (push_bit 0 1)),
                   ChanDisable (chid (ex_chan 0)),
                   UeventFault (chid (ex_chan 0))]\<rparr>"
  have c0: "channel ex_priv 0 = Some (ex_chan 0)"
    by (simp add: ex_priv_def)
  have r1: "call ex_dev ex_cls ex_hw (Mmu_fault_recover (Some 2) 0 0) ex_priv = Done s1"
    using mmu_fault_recover_done [OF c0, of 2 0 ex_hw] by (simp add: call_def s1_def)
  have st0: "state_of ex_priv 0 = Some RUNNING"
    by (simp add: state_of_def ex_priv_def ex_chan_def)
  have st1: "state_of s1 0 = Some KILLED" "state_of s1 1 = Some RUNNING"
    by (simp_all add: state_of_def s1_def ex_priv_def ex_chan_def)
  have ch1: "channel s1 0 = Some ((ex_chan 0)\<lparr>state := KILLED\<rparr>)"
    by (simp add: s1_def)
  have i1: "gk104_fifo_chan_init ex_hw s1 0 =
      Done (emit [ChannelInit 0, Mask32 0x800004 0x000f0000 0, Wr32 0x800000 0x80000000] s1)"
    by (simp add: gk104_fifo_chan_init_def ch1 ex_hw_def ex_chan_def Let_def)
  define s2 where "s2 =
      emit [ChannelInit 0, Mask32 0x800004 0x000f0000 0, Wr32 0x800000 0x80000000] s1"
  have r2: "state_after (call ex_dev ex_cls ex_hw (Chan_init 0) s1) = Some s2"
    by (simp add: call_def i1 s2_def)
  from C2_killed_terminal [of ex_dev ex_cls ex_hw "Chan_init 0" s1 0, THEN conjunct1,
      THEN spec, THEN mp, OF r2] st1(1)
  have k2: "state_of s2 0 = Some KILLED"
    by simp
  have ch2: "channel s2 0 = Some ((ex_chan 0)\<lparr>state := KILLED\<rparr>)"
    by (simp add: s2_def emit_def ch1)
  have f2: "state_after (gk104_fifo_chan_fini ex_hw s2 0 False) \<noteq> None"
    by (simp add: gk104_fifo_chan_fini_def ch2 ex_hw_def ex_chan_def Let_def
        gk104_fifo_chan_timeout_stop_def cancel_delayed_work_def)
  then obtain s2' where s2': "state_after (gk104_fifo_chan_fini ex_hw s2 0 False) = Some s2'"
    by blast
  from C2_killed_terminal [of ex_dev ex_cls ex_hw "Chan_fini 0 False" s2 0, THEN conjunct1,
      THEN spec, THEN mp] s2' k2
  have k2': "state_of s2' 0 = Some KILLED"
    by (simp add: call_def)
  then obtain ch where ch: "channel s2' 0 = Some ch"
    by (auto simp: state_of_def)
  define s3 where "s3 = put_chan 0 (ch\<lparr>limit_ms := 100\<rparr>) s2'"
  have t3: "gk104_fifo_chan_set_timeout None s2' 0 100 = Done s3"
    by (simp add: gk104_fifo_chan_set_timeout_def ch s3_def)
  have r3: "calls ex_dev ex_cls
        [(ex_hw, Chan_init 0), (ex_hw, Chan_fini 0 False), (ex_hw, Chan_set_timeout None 0 100)]
        s1 = Some s3"
    using r2 s2' t3 by (simp add: call_def)
  from C2_killed_terminal [of ex_dev ex_cls ex_hw "Chan_init 0" s1 0 _, THEN conjunct2,
      THEN spec, THEN mp, OF conjI, OF st1(1) r3]
  have k3: "state_of s3 0 = Some KILLED" .
  have "state_of s2 1 = Some RUNNING"
    using st1(2) by (simp add: s2_def state_of_emit)
  with chan_fini_states [OF s2'] have "state_of s2' 1 = Some RUNNING"
    by auto
  then have l3: "state_of s3 1 = Some RUNNING"
    by (simp add: s3_def state_of_put_chan)
  from r1 st0 st1(1) r2 k2 r3 k3 l3 show ?thesis
    by (intro exI conjI)
qed

end
